(* ===== verification/Prelude.thy ===== *)
theory Prelude
  imports Main "HOL-Library.Word" "HOL-Library.Monad_Syntax"
begin

text \<open>
  What every theory of the development shares: the reading of a Go run-time panic as
  \<open>None\<close>, a total-correctness triple over it, the loops of the source as recursion over
  the list of loop indices, and bounds-checked slice access. The collection
  \<open>returns_intro\<close> holds the rules that carry a postcondition through \<open>bind\<close> and loops;
  \<open>slice_simps\<close> the rules that discharge bounds checks.
\<close>

named_theorems returns_intro \<open>rules carrying a postcondition through a computation\<close>
named_theorems slice_simps \<open>bounds-checked reads and writes that are in range\<close>

section \<open>Computations that may panic\<close>

text \<open>
  A Go function that mutates a state and may panic (an index out of range, a write to a nil
  map) is a function into \<open>'s option\<close>: \<open>None\<close> is the panic. \<open>returns Q r\<close> says that
  \<open>r\<close> did not panic and that its result satisfies \<open>Q\<close>.
\<close>

definition returns :: "('s \<Rightarrow> bool) \<Rightarrow> 's option \<Rightarrow> bool" where
  "returns Q r = (case r of None \<Rightarrow> False | Some s \<Rightarrow> Q s)"

lemma returns_Some [simp]: "returns Q (Some s) = Q s"
  by (simp add: returns_def)

lemma returns_None [simp]: "\<not> returns Q None"
  by (simp add: returns_def)

lemma returns_ex: "returns Q r \<longleftrightarrow> (\<exists>s. r = Some s \<and> Q s)"
  by (cases r) auto

lemma returns_bind_iff: "returns Q (r \<bind> f) \<longleftrightarrow> returns (\<lambda>s. returns Q (f s)) r"
  by (cases r) auto

lemma returns_bind [returns_intro]:
  "returns P r \<Longrightarrow> (\<And>s. P s \<Longrightarrow> returns Q (f s)) \<Longrightarrow> returns Q (r \<bind> f)"
  by (cases r) auto

lemma returns_mono: "returns P r \<Longrightarrow> (\<And>s. P s \<Longrightarrow> Q s) \<Longrightarrow> returns Q r"
  by (cases r) auto

lemma returns_conj: "returns P r \<Longrightarrow> returns Q r \<Longrightarrow> returns (\<lambda>s. P s \<and> Q s) r"
  by (cases r) auto

lemma returns_if: "(b \<Longrightarrow> returns Q x) \<Longrightarrow> (\<not> b \<Longrightarrow> returns Q y) \<Longrightarrow> returns Q (if b then x else y)"
  by simp

lemma returns_map_option [simp]: "returns Q (map_option f r) = returns (\<lambda>s. Q (f s)) r"
  by (cases r) auto

section \<open>Loops\<close>

text \<open>
  \<open>for i := a; i <= b; i++ {body}\<close> is \<open>for_each body [a..b]\<close>, the descending loop
  \<open>for_each body (rev [a..b])\<close>, and \<open>for _, x := range xs\<close> is \<open>for_each body xs\<close>.
\<close>

fun for_each :: "('i \<Rightarrow> 's \<Rightarrow> 's option) \<Rightarrow> 'i list \<Rightarrow> 's \<Rightarrow> 's option" where
  "for_each f [] s = Some s"
| "for_each f (x # xs) s = f x s \<bind> for_each f xs"

lemma for_each_append: "for_each f (xs @ ys) s = for_each f xs s \<bind> for_each f ys"
  by (induction xs arbitrary: s) (auto split: bind_splits)

lemma returns_for_each [returns_intro]:
  assumes "I s" and "\<And>x s. x \<in> set xs \<Longrightarrow> I s \<Longrightarrow> returns I (f x s)"
  shows "returns I (for_each f xs s)"
  using assms
proof (induction xs arbitrary: s)
  case (Cons x xs)
  then have "returns I (f x s)" by simp
  then show ?case
    using Cons.IH Cons.prems(2) by (auto simp: returns_bind_iff elim!: returns_mono)
qed simp

text \<open>The loop invariant may speak of the indices already done.\<close>

lemma returns_for_each_prefix:
  assumes "I [] s"
    and "\<And>pre x post s. xs = pre @ x # post \<Longrightarrow> I pre s \<Longrightarrow> returns (I (pre @ [x])) (f x s)"
  shows "returns (I xs) (for_each f xs s)"
proof -
  have "returns (I xs) (for_each f zs s)"
    if "I ys s" and "xs = ys @ zs" for ys zs and s
    using that
  proof (induction zs arbitrary: ys s)
    case Nil
    then show ?case by simp
  next
    case (Cons z zs)
    have "returns (I (ys @ [z])) (f z s)"
      using Cons.prems assms(2) by blast
    then show ?case
      using Cons.IH [of "ys @ [z]"] Cons.prems(2)
      by (auto simp: returns_bind_iff elim!: returns_mono)
  qed
  from this [of "[]" s xs] show ?thesis using assms(1) by simp
qed

lemma for_each_frame:
  assumes "for_each f xs s = Some t" and "\<And>x s t. f x s = Some t \<Longrightarrow> g t = g s"
  shows "g t = g s"
  using assms by (induction xs arbitrary: s) (auto simp: bind_eq_Some_conv)

section \<open>Slices\<close>

text \<open>
  \<open>xs[i]\<close> and \<open>xs[i] = v\<close> on a Go slice: an index below zero or past the length panics.
  A nil slice is the empty list.
\<close>

definition idx :: "'a list \<Rightarrow> int \<Rightarrow> 'a option" where
  "idx xs i = (if 0 \<le> i \<and> i < int (length xs) then Some (xs ! nat i) else None)"

definition upd :: "'a list \<Rightarrow> int \<Rightarrow> 'a \<Rightarrow> 'a list option" where
  "upd xs i v = (if 0 \<le> i \<and> i < int (length xs) then Some (xs[nat i := v]) else None)"

lemma idx_in [slice_simps]: "0 \<le> i \<Longrightarrow> i < int (length xs) \<Longrightarrow> idx xs i = Some (xs ! nat i)"
  by (simp add: idx_def)

lemma upd_in [slice_simps]:
  "0 \<le> i \<Longrightarrow> i < int (length xs) \<Longrightarrow> upd xs i v = Some (xs[nat i := v])"
  by (simp add: upd_def)

lemma idx_Some: "idx xs i = Some v \<longleftrightarrow> 0 \<le> i \<and> i < int (length xs) \<and> v = xs ! nat i"
  by (auto simp: idx_def)

lemma upd_Some:
  "upd xs i v = Some ys \<longleftrightarrow> 0 \<le> i \<and> i < int (length xs) \<and> ys = xs[nat i := v]"
  by (auto simp: upd_def)

lemma idx_None: "idx xs i = None \<longleftrightarrow> i < 0 \<or> int (length xs) \<le> i"
  by (auto simp: idx_def)

text \<open>\<open>xs[lo:hi]\<close>, with Go's check \<open>0 <= lo <= hi <= len(xs)\<close>.\<close>

definition slice :: "'a list \<Rightarrow> int \<Rightarrow> int \<Rightarrow> 'a list option" where
  "slice xs lo hi =
     (if 0 \<le> lo \<and> lo \<le> hi \<and> hi \<le> int (length xs)
      then Some (take (nat (hi - lo)) (drop (nat lo) xs)) else None)"

definition len :: "'a list \<Rightarrow> int" where
  "len xs = int (length xs)"

section \<open>Integers\<close>

text \<open>
  Go's \<open>int\<close> is modelled by \<open>int\<close>: every count the parser produces is at most 9999, so the
  arithmetic of the emulator stays far inside 64 bits. Fixed-width values (colour indices,
  sequence numbers) are words.
\<close>

definition minInt :: "int \<Rightarrow> int \<Rightarrow> int" where
  "minInt a b = (if a < b then a else b)"

definition maxInt :: "int \<Rightarrow> int \<Rightarrow> int" where
  "maxInt a b = (if a > b then a else b)"

lemma minInt_min [simp]: "minInt a b = min a b"
  by (simp add: minInt_def min_def)

lemma maxInt_max [simp]: "maxInt a b = max a b"
  by (simp add: maxInt_def max_def)

lemma upto_split_hd: "a \<le> b \<Longrightarrow> [a..b] = a # [a + 1..b]"
  by (rule upto_rec1)

lemma sorted_prefix_upto:
  assumes "[a..b] = pre @ x # post"
  shows "set pre = {a..x - 1}" and "a \<le> x" and "x \<le> b"
proof -
  have x: "x \<in> set [a..b]" using assms by simp
  then show "a \<le> x" and "x \<le> b" by auto
  have "[a..b] = [a..x - 1] @ x # [x + 1..b]"
    using x by (metis atLeastAtMost_iff set_upto upto_split3)
  then have "pre @ x # post = [a..x - 1] @ x # [x + 1..b]"
    using assms by simp
  moreover have "x \<notin> set pre" "x \<notin> set post"
    using assms distinct_upto [of a b] by auto
  moreover have "x \<notin> set [a..x - 1]" "x \<notin> set [x + 1..b]"
    by auto
  ultimately have "pre = [a..x - 1]"
    by (metis append_Cons_eq_iff)
  then show "set pre = {a..x - 1}" by simp
qed

lemma sorted_prefix_rev_upto:
  assumes "rev [a..b] = pre @ x # post"
  shows "set pre = {x + 1..b}" and "a \<le> x" and "x \<le> b"
proof -
  have eq: "[a..b] = rev post @ x # rev pre"
    using assms by (metis append.assoc append_Cons append_Nil rev.simps(2) rev_append rev_rev_ident)
  then show x: "a \<le> x" "x \<le> b"
    using sorted_prefix_upto by blast+
  have "set (rev post) = {a..x - 1}" using sorted_prefix_upto(1) [OF eq] .
  moreover have "set (rev post) \<union> {x} \<union> set (rev pre) = {a..b}"
    using arg_cong [OF eq, of set] by auto
  moreover have "x \<notin> set (rev pre)" "set (rev post) \<inter> set (rev pre) = {}"
    using eq distinct_upto [of a b] by (simp_all add: distinct_append)
  ultimately have "set pre = {a..b} - {x} - {a..x - 1}" by auto
  also have "\<dots> = {x + 1..b}" using x by auto
  finally show "set pre = {x + 1..b}" .
qed

lemma upto_prefix_length:
  assumes "[a..b] = pre @ x # post"
  shows "x = a + int (length pre)"
proof -
  have "length pre < length [a..b]" using assms by simp
  then have "[a..b] ! length pre = a + int (length pre)" by (subst nth_upto) auto
  then show ?thesis using assms by simp
qed

lemma rev_upto_prefix_length:
  assumes "rev [a..b] = pre @ x # post"
  shows "x = b - int (length pre)"
proof -
  have "[a..b] = rev post @ x # rev pre"
    using assms by (metis append.assoc append_Cons append_Nil rev.simps(2) rev_append rev_rev_ident)
  then have x: "x = a + int (length post)" and "length [a..b] = length post + 1 + length pre"
    using upto_prefix_length [of a b "rev post" x "rev pre"] by auto
  then have "nat (b - a + 1) = length post + 1 + length pre" by simp
  with x show ?thesis by linarith
qed

end
