(* ===== verification/Grid.thy ===== *)
theory Grid
  imports Prelude
begin

text \<open>
  Rectangles of cells as \<open>[][]Cell\<close>: bounds-checked access to one cell, and the loop lemma
  by which a loop of single-cell writes gets a closed description. A grid of \<open>L\<close> rows and
  \<open>C\<close> columns satisfies \<open>grid_ok L C\<close>; \<open>cell_at\<close> reads it as a function of row and
  column, and \<open>gset\<close> is the write at a position known to be inside.
\<close>

type_synonym 'c grid = "'c list list"

definition grid_ok :: "int \<Rightarrow> int \<Rightarrow> 'c grid \<Rightarrow> bool" where
  "grid_ok L C g \<longleftrightarrow> int (length g) = L \<and> (\<forall>row \<in> set g. int (length row) = C)"

definition cell_at :: "'c grid \<Rightarrow> int \<Rightarrow> int \<Rightarrow> 'c" where
  "cell_at g r c = g ! nat r ! nat c"

definition gset :: "int \<Rightarrow> int \<Rightarrow> 'c \<Rightarrow> 'c grid \<Rightarrow> 'c grid" where
  "gset r c v g = g[nat r := (g ! nat r)[nat c := v]]"

definition get :: "'c grid \<Rightarrow> int \<Rightarrow> int \<Rightarrow> 'c option" where
  "get g r c = idx g r \<bind> (\<lambda>row. idx row c)"

definition put :: "int \<Rightarrow> int \<Rightarrow> 'c \<Rightarrow> 'c grid \<Rightarrow> 'c grid option" where
  "put r c v g = do { row \<leftarrow> idx g r; row' \<leftarrow> upd row c v; upd g r row' }"

definition inside :: "int \<Rightarrow> int \<Rightarrow> int \<Rightarrow> int \<Rightarrow> bool" where
  "inside L C r c \<longleftrightarrow> 0 \<le> r \<and> r < L \<and> 0 \<le> c \<and> c < C"

section \<open>Single cells\<close>

lemma grid_ok_length: "grid_ok L C g \<Longrightarrow> int (length g) = L"
  by (simp add: grid_ok_def)

lemma grid_ok_row: "grid_ok L C g \<Longrightarrow> 0 \<le> r \<Longrightarrow> r < L \<Longrightarrow> int (length (g ! nat r)) = C"
  by (auto simp: grid_ok_def)

lemma get_in [slice_simps]: "grid_ok L C g \<Longrightarrow> inside L C r c \<Longrightarrow> get g r c = Some (cell_at g r c)"
  by (simp add: get_def cell_at_def inside_def slice_simps grid_ok_length grid_ok_row)

lemma put_in [slice_simps]: "grid_ok L C g \<Longrightarrow> inside L C r c \<Longrightarrow> put r c v g = Some (gset r c v g)"
  by (simp add: put_def gset_def inside_def slice_simps grid_ok_length grid_ok_row)

lemma idx_row [slice_simps]:
  "grid_ok L C g \<Longrightarrow> 0 \<le> r \<Longrightarrow> r < L \<Longrightarrow> idx g r = Some (g ! nat r)"
  by (simp add: slice_simps grid_ok_length)

lemma upd_row [slice_simps]:
  "grid_ok L C g \<Longrightarrow> 0 \<le> r \<Longrightarrow> r < L \<Longrightarrow> upd g r row = Some (g[nat r := row])"
  by (simp add: slice_simps grid_ok_length)

lemma grid_ok_gset [simp, intro]:
  assumes "grid_ok L C g" "inside L C r c"
  shows "grid_ok L C (gset r c v g)"
proof -
  have "int (length row) = C" if "row \<in> set (g[nat r := (g ! nat r)[nat c := v]])" for row
  proof -
    have "row \<in> set g \<or> row = (g ! nat r)[nat c := v]"
      using that set_update_subset_insert by fast
    then show ?thesis using assms by (auto simp: grid_ok_def inside_def)
  qed
  then show ?thesis using assms by (simp add: grid_ok_def gset_def)
qed

lemma grid_ok_row_update:
  assumes "grid_ok L C g" "int (length row) = C"
  shows "grid_ok L C (g[k := row])"
  using assms set_update_subset_insert by (fastforce simp: grid_ok_def)

lemma cell_at_gset:
  assumes "grid_ok L C g" "inside L C r c" "inside L C r' c'"
  shows "cell_at (gset r c v g) r' c' = (if r' = r \<and> c' = c then v else cell_at g r' c')"
proof -
  have "nat r < length g" "nat c < length (g ! nat r)"
    using assms grid_ok_length [OF assms(1)] grid_ok_row [OF assms(1), of r]
    by (auto simp: inside_def)
  moreover have "nat r' = nat r \<longleftrightarrow> r' = r" "nat c' = nat c \<longleftrightarrow> c' = c"
    using assms(2,3) by (auto simp: inside_def)
  ultimately show ?thesis
    by (auto simp: cell_at_def gset_def nth_list_update)
qed

lemma cell_at_row_update:
  assumes "grid_ok L C g" "0 \<le> k" "k < L" "inside L C r c"
  shows "cell_at (g[nat k := row]) r c = (if r = k then row ! nat c else cell_at g r c)"
  using assms grid_ok_length [OF assms(1)]
  by (auto simp: cell_at_def inside_def nth_list_update)

lemma grid_eqI:
  assumes "grid_ok L C g" "grid_ok L C h"
    and "\<And>r c. inside L C r c \<Longrightarrow> cell_at g r c = cell_at h r c"
  shows "g = h"
proof (rule nth_equalityI)
  show "length g = length h"
    using grid_ok_length [OF assms(1)] grid_ok_length [OF assms(2)] by simp
next
  fix i assume i: "i < length g"
  then have iL: "0 \<le> int i" "int i < L" using grid_ok_length [OF assms(1)] by auto
  show "g ! i = h ! i"
  proof (rule nth_equalityI)
    show "length (g ! i) = length (h ! i)"
      using grid_ok_row [OF assms(1) iL] grid_ok_row [OF assms(2) iL] by simp
  next
    fix j assume "j < length (g ! i)"
    then have "inside L C (int i) (int j)"
      using iL grid_ok_row [OF assms(1) iL] by (simp add: inside_def)
    from assms(3) [OF this] show "g ! i ! j = h ! i ! j" by (simp add: cell_at_def)
  qed
qed

section \<open>Loops of cell writes\<close>

text \<open>
  A loop that writes, for each index \<open>x\<close> of \<open>xs\<close>, the value \<open>w x\<close> at the position
  \<open>p x\<close>: the step may read the grid, but only has to produce \<open>w x\<close> as long as the cells
  not yet written still hold their old values. The order of the loop is what makes this true
  for an in-place shift.
\<close>

definition written :: "int \<Rightarrow> int \<Rightarrow> ('i \<Rightarrow> int \<times> int) \<Rightarrow> ('i \<Rightarrow> 'c) \<Rightarrow> 'i list \<Rightarrow> 'c grid \<Rightarrow> 'c grid \<Rightarrow> bool"
  where
  "written L C p w xs g0 g \<longleftrightarrow> grid_ok L C g \<and>
     (\<forall>x \<in> set xs. cell_at g (fst (p x)) (snd (p x)) = w x) \<and>
     (\<forall>r c. inside L C r c \<and> (r, c) \<notin> p ` set xs \<longrightarrow> cell_at g r c = cell_at g0 r c)"

lemma writtenD_grid: "written L C p w xs g0 g \<Longrightarrow> grid_ok L C g"
  by (simp add: written_def)

lemma writtenD_new: "written L C p w xs g0 g \<Longrightarrow> x \<in> set xs \<Longrightarrow> cell_at g (fst (p x)) (snd (p x)) = w x"
  by (simp add: written_def)

lemma writtenD_old:
  "written L C p w xs g0 g \<Longrightarrow> inside L C r c \<Longrightarrow> (\<And>x. x \<in> set xs \<Longrightarrow> p x \<noteq> (r, c)) \<Longrightarrow>
   cell_at g r c = cell_at g0 r c"
  unfolding written_def by (metis (no_types, lifting) image_iff)

lemma for_each_written:
  assumes "grid_ok L C g0" and inj: "inj_on p (set xs)" and "distinct xs"
    and ins: "\<And>x. x \<in> set xs \<Longrightarrow> inside L C (fst (p x)) (snd (p x))"
    and step: "\<And>pre x post g. xs = pre @ x # post \<Longrightarrow> written L C p w pre g0 g \<Longrightarrow>
                 f x g = Some (gset (fst (p x)) (snd (p x)) (w x) g)"
  shows "returns (written L C p w xs g0) (for_each f xs g0)"
proof (rule returns_for_each_prefix)
  show "written L C p w [] g0 g0" using assms(1) by (simp add: written_def)
next
  fix pre x post g
  assume xs: "xs = pre @ x # post" and W: "written L C p w pre g0 g"
  have x: "inside L C (fst (p x)) (snd (p x))" using ins xs by simp
  have g: "grid_ok L C g" using W by (rule writtenD_grid)
  have new: "p y \<noteq> p x" if "y \<in> set pre" for y
    using that inj xs \<open>distinct xs\<close> by (auto simp: inj_on_def)
  have "cell_at (gset (fst (p x)) (snd (p x)) (w x) g) (fst (p y)) (snd (p y)) = w y"
    if "y \<in> set (pre @ [x])" for y
  proof (cases "y \<in> set pre")
    case True
    then have "inside L C (fst (p y)) (snd (p y))" using ins xs by simp
    moreover have "\<not> (fst (p y) = fst (p x) \<and> snd (p y) = snd (p x))"
      using new [OF True] by (simp add: prod_eq_iff)
    ultimately show ?thesis
      using writtenD_new [OF W True] cell_at_gset [OF g x] by (metis (no_types))
  next
    case False
    then show ?thesis using that cell_at_gset [OF g x x] by simp
  qed
  moreover have "cell_at (gset (fst (p x)) (snd (p x)) (w x) g) r c = cell_at g0 r c"
    if "inside L C r c" "(r, c) \<notin> p ` set (pre @ [x])" for r c
  proof -
    have "\<not> (r = fst (p x) \<and> c = snd (p x))" using that(2) by auto
    then have "cell_at (gset (fst (p x)) (snd (p x)) (w x) g) r c = cell_at g r c"
      using cell_at_gset [OF g x that(1)] by metis
    also have "\<dots> = cell_at g0 r c"
      using that by (intro writtenD_old [OF W]) (auto simp: image_iff)
    finally show ?thesis .
  qed
  ultimately have "written L C p w (pre @ [x]) g0 (gset (fst (p x)) (snd (p x)) (w x) g)"
    using g x by (simp add: written_def)
  then show "returns (written L C p w (pre @ [x]) g0) (f x g)"
    using step [OF xs W] by simp
qed

section \<open>Painted regions\<close>

text \<open>
  \<open>painted L C D F g0 g\<close>: \<open>g\<close> is \<open>g0\<close> with the cells of the region \<open>D\<close> replaced by \<open>F\<close>. A loop
  whose steps paint regions, each reading only cells no earlier step has painted, paints the union.
\<close>

definition painted ::
  "int \<Rightarrow> int \<Rightarrow> (int \<times> int) set \<Rightarrow> (int \<Rightarrow> int \<Rightarrow> 'c) \<Rightarrow> 'c grid \<Rightarrow> 'c grid \<Rightarrow> bool" where
  "painted L C D F g0 g \<longleftrightarrow> grid_ok L C g \<and>
     (\<forall>r c. inside L C r c \<longrightarrow> cell_at g r c = (if (r, c) \<in> D then F r c else cell_at g0 r c))"

lemma painted_grid: "painted L C D F g0 g \<Longrightarrow> grid_ok L C g"
  by (simp add: painted_def)

lemma painted_cell:
  "painted L C D F g0 g \<Longrightarrow> inside L C r c \<Longrightarrow>
   cell_at g r c = (if (r, c) \<in> D then F r c else cell_at g0 r c)"
  by (simp add: painted_def)

lemma painted_refl: "grid_ok L C g \<Longrightarrow> painted L C {} F g g"
  by (simp add: painted_def)

lemma painted_gset:
  "grid_ok L C g \<Longrightarrow> inside L C r c \<Longrightarrow> F r c = v \<Longrightarrow> painted L C {(r, c)} F g (gset r c v g)"
  by (auto simp: painted_def cell_at_gset)

lemma painted_same:
  "grid_ok L C g \<Longrightarrow> (\<And>r c. (r, c) \<in> D \<Longrightarrow> inside L C r c \<Longrightarrow> F r c = cell_at g r c) \<Longrightarrow>
   painted L C D F g g"
  by (auto simp: painted_def)

lemma painted_row:
  assumes "grid_ok L C g" "0 \<le> k" "k < L" "int (length row) = C"
    and "\<And>c. 0 \<le> c \<Longrightarrow> c < C \<Longrightarrow> F k c = row ! nat c"
  shows "painted L C ({k} \<times> {0..<C}) F g (g[nat k := row])"
  using assms by (auto simp: painted_def cell_at_row_update grid_ok_row_update inside_def)

lemma painted_trans:
  "painted L C D F g0 g \<Longrightarrow> painted L C E F g h \<Longrightarrow> painted L C (D \<union> E) F g0 h"
  by (auto simp: painted_def)

lemma painted_cong:
  assumes "painted L C D F g0 g"
    and "\<And>r c. inside L C r c \<Longrightarrow>
      (if (r, c) \<in> D then F r c else cell_at g0 r c) = (if (r, c) \<in> E then G r c else cell_at h0 r c)"
  shows "painted L C E G h0 g"
  using assms by (simp add: painted_def)

lemma painted_unique: "painted L C D F g0 g \<Longrightarrow> painted L C D F g0 h \<Longrightarrow> g = h"
  by (rule grid_eqI [where L = L and C = C]) (auto simp: painted_def)

lemma for_each_painted:
  assumes "grid_ok L C g0"
    and step: "\<And>pre x post g. xs = pre @ x # post \<Longrightarrow> grid_ok L C g \<Longrightarrow>
      painted L C (\<Union>y \<in> set pre. P y) F g0 g \<Longrightarrow> returns (painted L C (P x) F g) (f x g)"
  shows "returns (painted L C (\<Union>x \<in> set xs. P x) F g0) (for_each f xs g0)"
proof (rule returns_for_each_prefix [where I = "\<lambda>pre. painted L C (\<Union>y \<in> set pre. P y) F g0"])
  show "painted L C (\<Union>y \<in> set []. P y) F g0 g0" using assms(1) by (simp add: painted_refl)
next
  fix pre x post g
  assume xs: "xs = pre @ x # post" and g: "painted L C (\<Union>y \<in> set pre. P y) F g0 g"
  show "returns (painted L C (\<Union>y \<in> set (pre @ [x]). P y) F g0) (f x g)"
    using step [OF xs painted_grid [OF g] g] painted_trans [OF g]
    by (auto simp: Un_commute elim!: returns_mono)
qed

end
