(* ===== verification/GoStrings.thy ===== *)
theory GoStrings
  imports Prelude
begin

text \<open>
  The Go strings of the emulator and the parts of \<open>unicode/utf8\<close>, \<open>strings\<close>, \<open>strconv\<close> and
  \<open>fmt\<close> it uses. A Go string is a byte sequence, and so is HOL's \<open>string\<close>: a \<open>char\<close> is one
  byte. A rune is an \<open>int\<close>. Decoding follows the tables of \<open>utf8.DecodeRune\<close>: an invalid or
  truncated encoding yields the replacement rune with width 1.
\<close>

type_synonym rune = int
type_synonym bytes = string

definition byte :: "char \<Rightarrow> int" where
  "byte c = of_char c"

definition byte_char :: "int \<Rightarrow> char" where
  "byte_char n = char_of n"

definition RuneError :: rune where
  "RuneError = 0xFFFD"

section \<open>UTF-8\<close>

text \<open>\<open>utf8.AppendRune\<close>: surrogates and values outside Unicode encode the replacement rune.\<close>

definition encode_rune :: "rune \<Rightarrow> string" where
  "encode_rune r0 =
    (let r = (if r0 < 0 \<or> 0x10FFFF < r0 \<or> (0xD800 \<le> r0 \<and> r0 \<le> 0xDFFF) then RuneError else r0)
     in if r \<le> 0x7F then [byte_char r]
        else if r \<le> 0x7FF then [byte_char (0xC0 + r div 64), byte_char (0x80 + r mod 64)]
        else if r \<le> 0xFFFF then
          [byte_char (0xE0 + r div 4096), byte_char (0x80 + (r div 64) mod 64),
           byte_char (0x80 + r mod 64)]
        else
          [byte_char (0xF0 + r div 262144), byte_char (0x80 + (r div 4096) mod 64),
           byte_char (0x80 + (r div 64) mod 64), byte_char (0x80 + r mod 64)])"

definition string_of_runes :: "rune list \<Rightarrow> string" where
  "string_of_runes rs = concat (map encode_rune rs)"

text \<open>
  The \<open>first\<close> table of \<open>unicode/utf8\<close>: the length a leading byte announces and the accepted
  range of the second byte; \<open>None\<close> for a byte that starts no encoding.
\<close>

definition first_byte :: "int \<Rightarrow> (nat \<times> int \<times> int) option" where
  "first_byte b =
    (if b < 0x80 then Some (1, 0, 0)
     else if b < 0xC2 then None
     else if b < 0xE0 then Some (2, 0x80, 0xBF)
     else if b = 0xE0 then Some (3, 0xA0, 0xBF)
     else if b = 0xED then Some (3, 0x80, 0x9F)
     else if b < 0xF0 then Some (3, 0x80, 0xBF)
     else if b = 0xF0 then Some (4, 0x90, 0xBF)
     else if b < 0xF4 then Some (4, 0x80, 0xBF)
     else if b = 0xF4 then Some (4, 0x80, 0x8F)
     else None)"

definition is_cont :: "int \<Rightarrow> bool" where
  "is_cont b \<longleftrightarrow> 0x80 \<le> b \<and> b \<le> 0xBF"

definition DecodeRune :: "bytes \<Rightarrow> rune \<times> nat" where
  "DecodeRune p =
    (case map byte p of
       [] \<Rightarrow> (RuneError, 0)
     | b0 # rest \<Rightarrow>
        (case first_byte b0 of
           None \<Rightarrow> (RuneError, 1)
         | Some (n, lo, hi) \<Rightarrow>
            if n = 1 then (b0, 1)
            else if length rest + 1 < n then (RuneError, 1)
            else if rest ! 0 < lo \<or> hi < rest ! 0 then (RuneError, 1)
            else if n = 2 then ((b0 mod 32) * 64 + rest ! 0 mod 64, 2)
            else if \<not> is_cont (rest ! 1) then (RuneError, 1)
            else if n = 3 then
              ((b0 mod 16) * 4096 + (rest ! 0 mod 64) * 64 + rest ! 1 mod 64, 3)
            else if \<not> is_cont (rest ! 2) then (RuneError, 1)
            else ((b0 mod 8) * 262144 + (rest ! 0 mod 64) * 4096 + (rest ! 1 mod 64) * 64
                  + rest ! 2 mod 64, 4)))"

text \<open>\<open>utf8.FullRune\<close>: an invalid encoding counts as full, a proper prefix of a valid one does not.\<close>

definition FullRune :: "bytes \<Rightarrow> bool" where
  "FullRune p =
    (case map byte p of
       [] \<Rightarrow> False
     | b0 # rest \<Rightarrow>
        (case first_byte b0 of
           None \<Rightarrow> True
         | Some (n, lo, hi) \<Rightarrow>
            if n \<le> length rest + 1 then True
            else if 0 < length rest \<and> (rest ! 0 < lo \<or> hi < rest ! 0) then True
            else 1 < length rest \<and> \<not> is_cont (rest ! 1)))"

lemma DecodeRune_size: "p \<noteq> [] \<Longrightarrow> DecodeRune p = (r, n) \<Longrightarrow> 1 \<le> n \<and> n \<le> length p"
  by (cases p) (auto simp: DecodeRune_def first_byte_def Suc_le_eq split: if_splits)

lemma DecodeRune_drop: "p \<noteq> [] \<Longrightarrow> (r, n) = DecodeRune p \<Longrightarrow> length p - n < length p"
  using DecodeRune_size [of p r n] by (cases p) auto

text \<open>\<open>for _, r := range s\<close> on a string: the runes in order.\<close>

function runes :: "string \<Rightarrow> rune list" where
  "runes p = (if p = [] then []
              else (case DecodeRune p of (r, n) \<Rightarrow> r # runes (drop n p)))"
  by pat_completeness auto
termination
  by (relation "measure length") (use DecodeRune_drop in auto)

declare runes.simps [simp del]

lemma runes_Nil [simp]: "runes [] = []"
  by (simp add: runes.simps)

lemma runes_Cons: "p \<noteq> [] \<Longrightarrow> runes p = fst (DecodeRune p) # runes (drop (snd (DecodeRune p)) p)"
  by (subst runes.simps) (simp add: case_prod_beta)

text \<open>Encoding a scalar value and decoding it gives the value and its width back.\<close>

definition scalar :: "rune \<Rightarrow> bool" where
  "scalar r \<longleftrightarrow> 0 \<le> r \<and> r \<le> 0x10FFFF \<and> \<not> (0xD800 \<le> r \<and> r \<le> 0xDFFF)"

lemma byte_byte_char [simp]: "0 \<le> n \<Longrightarrow> n < 256 \<Longrightarrow> byte (byte_char n) = n"
  by (simp add: byte_def byte_char_def)

lemma byte_char_byte [simp]: "byte_char (byte c) = c"
  by (simp add: byte_def byte_char_def)

lemma byte_bounds: "0 \<le> byte c" "byte c < 256"
  by (simp_all add: byte_def of_char_def)

lemma byte_inject [simp]: "byte c = byte d \<longleftrightarrow> c = d"
  by (simp add: byte_def)

lemma DecodeRune_ascii: "byte c < 0x80 \<Longrightarrow> DecodeRune (c # cs) = (byte c, 1)"
  by (simp add: DecodeRune_def first_byte_def)

lemma encode_rune_ascii: "0 \<le> r \<Longrightarrow> r < 0x80 \<Longrightarrow> encode_rune r = [byte_char r]"
  by (simp add: encode_rune_def)

lemma encode_rune_not_Nil [simp]: "encode_rune r \<noteq> []"
  by (simp add: encode_rune_def Let_def)

lemma cont_value: "0 \<le> a \<Longrightarrow> a < 64 \<Longrightarrow> (128 + a) mod 64 = a" for a :: int
  using mod_mult_self1 [of a 2 64] by (simp add: algebra_simps)

lemma lead_value:
  "0 \<le> h \<Longrightarrow> h < 32 \<Longrightarrow> (192 + h) mod 32 = h"
  "0 \<le> h \<Longrightarrow> h < 16 \<Longrightarrow> (224 + h) mod 16 = h"
  "0 \<le> h \<Longrightarrow> h < 8 \<Longrightarrow> (240 + h) mod 8 = h" for h :: int
  using mod_mult_self1 [of h 6 32] mod_mult_self1 [of h 14 16] mod_mult_self1 [of h 30 8]
  by (simp_all add: algebra_simps)

lemma decode2:
  assumes "2 \<le> h" "h < 32" "0 \<le> a" "a < 64"
  shows "DecodeRune (byte_char (192 + h) # byte_char (128 + a) # rest) = (h * 64 + a, 2)"
  using assms by (simp add: DecodeRune_def first_byte_def cont_value lead_value)

lemma decode3:
  assumes "0 \<le> h" "h < 16" "0 \<le> a" "a < 64" "0 \<le> b" "b < 64"
    and "h = 0 \<longrightarrow> 32 \<le> a" "h = 13 \<longrightarrow> a < 32"
  shows "DecodeRune (byte_char (224 + h) # byte_char (128 + a) # byte_char (128 + b) # rest)
         = (h * 4096 + a * 64 + b, 3)"
  using assms
  by (simp add: DecodeRune_def first_byte_def is_cont_def cont_value lead_value) auto

lemma decode4:
  assumes "0 \<le> h" "h \<le> 4" "0 \<le> a" "a < 64" "0 \<le> b" "b < 64" "0 \<le> c" "c < 64"
    and "h = 0 \<longrightarrow> 16 \<le> a" "h = 4 \<longrightarrow> a < 16"
  shows "DecodeRune (byte_char (240 + h) # byte_char (128 + a) # byte_char (128 + b)
           # byte_char (128 + c) # rest) = (h * 262144 + a * 4096 + b * 64 + c, 4)"
  using assms
  by (simp add: DecodeRune_def first_byte_def is_cont_def cont_value lead_value) auto

lemma base_64:
  obtains q a :: int where "r = q * 64 + a" "r div 64 = q" "r mod 64 = a" "0 \<le> a" "a < 64"
proof
  show "r = r div 64 * 64 + r mod 64" by simp
qed simp_all

lemma decode_encode:
  assumes "scalar r"
  shows "DecodeRune (encode_rune r @ rest) = (r, length (encode_rune r))"
proof -
  have r: "0 \<le> r" "r \<le> 0x10FFFF" "r < 0xD800 \<or> 0xDFFF < r"
    using assms by (auto simp: scalar_def)
  obtain q0 c where q0: "r = q0 * 64 + c" "r div 64 = q0" "r mod 64 = c" "0 \<le> c" "c < 64"
    by (rule base_64)
  obtain q1 b where q1: "q0 = q1 * 64 + b" "q0 div 64 = q1" "q0 mod 64 = b" "0 \<le> b" "b < 64"
    by (rule base_64)
  obtain q2 a where q2: "q1 = q2 * 64 + a" "q1 div 64 = q2" "q1 mod 64 = a" "0 \<le> a" "a < 64"
    by (rule base_64)
  have d: "r div 4096 = q1" "r div 262144 = q2"
    by (simp_all add: zdiv_zmult2_eq [of 64 r 64, simplified] zdiv_zmult2_eq [of 64 r 4096, simplified]
        zdiv_zmult2_eq [of 64 q0 64, simplified] q0(2) q1(2) q2(2))
  consider "r \<le> 0x7F" | "0x7F < r" "r \<le> 0x7FF" | "0x7FF < r" "r \<le> 0xFFFF" | "0xFFFF < r"
    by linarith
  then show ?thesis
  proof cases
    case 1
    then show ?thesis using r by (simp add: encode_rune_def DecodeRune_def first_byte_def)
  next
    case 2
    then have "encode_rune r = [byte_char (192 + q0), byte_char (128 + c)]"
      using r by (simp add: encode_rune_def q0(2,3))
    moreover have "2 \<le> q0" "q0 < 32" using 2 q0 by linarith+
    ultimately show ?thesis using decode2 [of q0 c rest] q0 by simp
  next
    case 3
    then have "encode_rune r = [byte_char (224 + q1), byte_char (128 + b), byte_char (128 + c)]"
      using r by (auto simp: encode_rune_def d q0(2,3) q1(3))
    moreover have "0 \<le> q1" "q1 < 16" "q1 = 0 \<longrightarrow> 32 \<le> b" "q1 = 13 \<longrightarrow> b < 32"
      using 3 q0 q1 r by linarith+
    ultimately show ?thesis using decode3 [of q1 b c rest] q0 q1 by simp
  next
    case 4
    then have "encode_rune r = [byte_char (240 + q2), byte_char (128 + a), byte_char (128 + b),
                 byte_char (128 + c)]"
      using r by (simp add: encode_rune_def d q0(2,3) q1(3) q2(3))
    moreover have eq: "r = q2 * 262144 + a * 4096 + b * 64 + c" using q0(1) q1(1) q2(1) by simp
    moreover have "0 \<le> q2" "q2 \<le> 4" "q2 = 0 \<longrightarrow> 16 \<le> a" "q2 = 4 \<longrightarrow> a < 16"
      using 4 eq q0(4,5) q1(4,5) q2(4,5) r(2) by linarith+
    ultimately show ?thesis using decode4 [of q2 a b c rest] q0(4,5) q1(4,5) q2(4,5) by simp
  qed
qed

lemma runes_encode: "scalar r \<Longrightarrow> runes (encode_rune r @ s) = r # runes s"
  by (simp add: runes_Cons decode_encode)

lemma runes_string_of_runes:
  "(\<And>r. r \<in> set rs \<Longrightarrow> scalar r) \<Longrightarrow> runes (string_of_runes rs) = rs"
  by (induction rs) (auto simp: string_of_runes_def runes_encode)

section \<open>\<open>strings\<close>\<close>

fun split_at :: "char \<Rightarrow> string \<Rightarrow> string list" where
  "split_at c [] = [[]]"
| "split_at c (x # xs) =
     (if x = c then [] # split_at c xs
      else (case split_at c xs of [] \<Rightarrow> [[x]] | y # ys \<Rightarrow> (x # y) # ys))"

fun join_with :: "string \<Rightarrow> string list \<Rightarrow> string" where
  "join_with sep [] = []"
| "join_with sep [x] = x"
| "join_with sep (x # y # ys) = x @ sep @ join_with sep (y # ys)"

definition has_prefix :: "string \<Rightarrow> string \<Rightarrow> bool" where
  "has_prefix p s \<longleftrightarrow> take (length p) s = p"

lemma split_at_not_Nil [simp]: "split_at c s \<noteq> []"
  by (cases s) (auto split: list.splits)

lemma split_at_no: "c \<notin> set s \<Longrightarrow> split_at c s = [s]"
  by (induction s) auto

lemma split_at_append: "c \<notin> set s \<Longrightarrow> split_at c (s @ c # t) = s # split_at c t"
  by (induction s) auto

text \<open>\<open>strings.Split\<close> undoes \<open>strings.Join\<close> on parts that do not hold the separator.\<close>

lemma split_join:
  "xs \<noteq> [] \<Longrightarrow> (\<And>x. x \<in> set xs \<Longrightarrow> c \<notin> set x) \<Longrightarrow> split_at c (join_with [c] xs) = xs"
  by (induction "[c]" xs rule: join_with.induct) (auto simp: split_at_no split_at_append)

lemma join_split: "join_with [c] (split_at c s) = s"
proof (induction s)
  case (Cons x s)
  show ?case
  proof (cases "split_at c s")
    case (Cons y ys)
    then show ?thesis using Cons.IH by (cases ys) auto
  qed simp
qed simp

section \<open>\<open>fmt\<close> and \<open>strconv\<close>\<close>

definition digit_char :: "int \<Rightarrow> char" where
  "digit_char d = (if d < 10 then byte_char (48 + d) else byte_char (87 + d))"

fun nat_digits :: "nat \<Rightarrow> nat \<Rightarrow> string" where
  "nat_digits base n =
     (if base < 2 \<or> n < base then [digit_char (int n)]
      else nat_digits base (n div base) @ [digit_char (int (n mod base))])"

declare nat_digits.simps [simp del]

text \<open>\<open>fmt.Sprintf("%d", n)\<close>.\<close>

definition show_int :: "int \<Rightarrow> string" where
  "show_int n = (if n < 0 then ''-'' @ nat_digits 10 (nat (- n)) else nat_digits 10 (nat n))"

text \<open>\<open>%02x\<close> and \<open>%04x\<close> on non-negative values.\<close>

definition show_hex :: "nat \<Rightarrow> int \<Rightarrow> string" where
  "show_hex w n = (let ds = nat_digits 16 (nat n) in replicate (w - length ds) (CHR ''0'') @ ds)"

definition digit_val :: "char \<Rightarrow> int option" where
  "digit_val c =
    (let b = byte c
     in if 48 \<le> b \<and> b \<le> 57 then Some (b - 48)
        else if 97 \<le> b \<and> b \<le> 122 then Some (b - 87)
        else if 65 \<le> b \<and> b \<le> 90 then Some (b - 55)
        else None)"

fun parse_digits :: "int \<Rightarrow> int \<Rightarrow> string \<Rightarrow> int option" where
  "parse_digits base acc [] = Some acc"
| "parse_digits base acc (c # cs) =
     (case digit_val c of
        None \<Rightarrow> None
      | Some d \<Rightarrow> if d < base then parse_digits base (acc * base + d) cs else None)"

text \<open>\<open>strconv.ParseUint(s, base, bits)\<close>: \<open>None\<close> is an error (empty, bad digit, out of range).\<close>

definition parse_uint :: "int \<Rightarrow> nat \<Rightarrow> string \<Rightarrow> int option" where
  "parse_uint base bits s =
    (if s = [] then None
     else (case parse_digits base 0 s of
             None \<Rightarrow> None
           | Some v \<Rightarrow> if v < 2 ^ bits then Some v else None))"

text \<open>\<open>strconv.ParseInt(s, base, bits)\<close>, with its optional sign; \<open>strconv.Atoi\<close> is base 10, 64 bits.\<close>

definition parse_int :: "int \<Rightarrow> nat \<Rightarrow> string \<Rightarrow> int option" where
  "parse_int base bits s =
    (case s of
       [] \<Rightarrow> None
     | c # cs \<Rightarrow>
        (let neg = (c = CHR ''-''); ds = (if c = CHR ''-'' \<or> c = CHR ''+'' then cs else s)
         in if ds = [] then None
            else (case parse_digits base 0 ds of
                    None \<Rightarrow> None
                  | Some v \<Rightarrow>
                     if neg then (if v \<le> 2 ^ (bits - 1) then Some (- v) else None)
                     else (if v < 2 ^ (bits - 1) then Some v else None))))"

definition Atoi :: "string \<Rightarrow> int option" where
  "Atoi s = parse_int 10 64 s"

text \<open>Decimal digits read back.\<close>

lemma byte_digit: "d < 10 \<Longrightarrow> byte (digit_char (int d)) = 48 + int d"
  by (simp add: digit_char_def)

lemma parse_digits_append:
  "parse_digits b acc (xs @ ys) = (case parse_digits b acc xs of None \<Rightarrow> None | Some v \<Rightarrow> parse_digits b v ys)"
  by (induction xs arbitrary: acc) (auto split: option.split)

lemma parse_nat_digits: "parse_digits 10 0 (nat_digits 10 n) = Some (int n)"
proof (induction "10 :: nat" n rule: nat_digits.induct)
  case (1 n)
  have digit: "digit_val (digit_char (int d)) = Some (int d)" if "d < 10" for d
    using byte_digit [OF that] that by (simp add: digit_val_def Let_def)
  show ?case
  proof (cases "n < 10")
    case True
    then show ?thesis using digit by (subst nat_digits.simps) simp
  next
    case False
    then show ?thesis
      using 1 digit [of "n mod 10"] by (subst nat_digits.simps) (simp add: parse_digits_append, simp add: zdiv_int zmod_int)
  qed
qed

end
