(* ===== verification/TeTypes.thy ===== *)
theory TeTypes
  imports GoStrings
begin

text \<open>
  The data of the terminal emulator \<open>pkg/te\<close>: colours, attributes, cells and the cursor
  (\<open>types.go\<close>), the mode numbers (\<open>modes.go\<close>), the control strings (\<open>control.go\<close>), the
  character sets (\<open>charsets.go\<close>) and the SGR tables (\<open>graphics.go\<close>). What the emulator takes
  from packages outside the repository (grapheme segmentation, cell widths, NFC, the Unicode
  mark categories) is the record \<open>textlib\<close>, an argument of the operations that use it.
\<close>

section \<open>Text libraries\<close>

text \<open>
  \<open>graphemes\<close> is the sequence of clusters of \<open>uniseg.NewGraphemes\<close>, \<open>string_width\<close> is
  \<open>runewidth.StringWidth\<close>, \<open>nfc\<close> is \<open>norm.NFC.String\<close>, and \<open>is_mark\<close> is membership in the
  Unicode categories Mn or Me.
\<close>

record textlib =
  graphemes :: "string \<Rightarrow> string list"
  string_width :: "string \<Rightarrow> int"
  nfc :: "string \<Rightarrow> string"
  is_mark :: "rune \<Rightarrow> bool"

section \<open>Cells\<close>

datatype ColorMode = ColorDefault | ColorANSI16 | ColorANSI256 | ColorTrueColor

record Color =
  CMode :: ColorMode
  CIndex :: "8 word"
  CName :: string

record Attr =
  Fg :: Color
  Bg :: Color
  Bold :: bool
  Faint :: bool
  Italics :: bool
  Underline :: bool
  Strikethrough :: bool
  Reverse :: bool
  Blink :: bool
  Conceal :: bool
  Protected :: bool
  ISOProtected :: bool
  UnderlineStyle :: "8 word"
  UnderlineColor :: Color
  Overline :: bool

record Cell =
  Data :: string
  CellAttr :: Attr

record CursorT =
  Row :: int
  Col :: int
  CurAttr :: Attr
  Hidden :: bool

definition zeroColor :: Color where
  "zeroColor = \<lparr>CMode = ColorDefault, CIndex = 0, CName = []\<rparr>"

definition defaultColor :: Color where
  "defaultColor = \<lparr>CMode = ColorDefault, CIndex = 0, CName = ''default''\<rparr>"

definition plainAttr :: "bool \<Rightarrow> Attr" where
  "plainAttr reverse =
    \<lparr>Fg = defaultColor, Bg = defaultColor, Bold = False, Faint = False, Italics = False,
     Underline = False, Strikethrough = False, Reverse = reverse, Blink = False, Conceal = False,
     Protected = False, ISOProtected = False, UnderlineStyle = 0, UnderlineColor = zeroColor,
     Overline = False\<rparr>"

definition colorFromName :: "string \<Rightarrow> ColorMode \<Rightarrow> 8 word \<Rightarrow> Color" where
  "colorFromName name mode index =
    (if name = ''default'' then defaultColor
     else \<lparr>CMode = mode, CIndex = index, CName = name\<rparr>)"

section \<open>Modes\<close>

text \<open>
  ANSI modes keep their number; a DEC private mode \<open>n\<close> is stored as \<open>n << 5\<close>.
\<close>

definition PrivateMode :: "int \<Rightarrow> int" where
  "PrivateMode n = push_bit 5 n"

lemma PrivateMode_eq [simp]: "PrivateMode n = n * 32"
  by (simp add: PrivateMode_def push_bit_eq_mult)

definition ModeLNM :: int where [simp]: "ModeLNM = 20"
definition ModeIRM :: int where [simp]: "ModeIRM = 4"
definition ModeDECTCEM :: int where [simp]: "ModeDECTCEM = 25 * 32"
definition ModeDECSCNM :: int where [simp]: "ModeDECSCNM = 5 * 32"
definition ModeDECOM :: int where [simp]: "ModeDECOM = 6 * 32"
definition ModeDECAWM :: int where [simp]: "ModeDECAWM = 7 * 32"
definition ModeDECCOLM :: int where [simp]: "ModeDECCOLM = 3 * 32"
definition ModeDECLRMM :: int where [simp]: "ModeDECLRMM = 69 * 32"
definition ModeDECCKM :: int where [simp]: "ModeDECCKM = 1 * 32"
definition ModeDECSCLM :: int where [simp]: "ModeDECSCLM = 4 * 32"
definition ModeDECARM :: int where [simp]: "ModeDECARM = 8 * 32"
definition ModeDECPFF :: int where [simp]: "ModeDECPFF = 18 * 32"
definition ModeDECPEX :: int where [simp]: "ModeDECPEX = 19 * 32"
definition ModeDECNRCM :: int where [simp]: "ModeDECNRCM = 42 * 32"
definition ModeDECNKM :: int where [simp]: "ModeDECNKM = 66 * 32"
definition ModeDECBKM :: int where [simp]: "ModeDECBKM = 67 * 32"
definition ModeDECKBUM :: int where [simp]: "ModeDECKBUM = 68 * 32"
definition ModeDECNCSM :: int where [simp]: "ModeDECNCSM = 95 * 32"
definition ModeDECOSCNM :: int where [simp]: "ModeDECOSCNM = 106 * 32"
definition ModeDECRLM :: int where [simp]: "ModeDECRLM = 34 * 32"
definition ModeDECHCCM :: int where [simp]: "ModeDECHCCM = 60 * 32"
definition ModeDECAAM :: int where [simp]: "ModeDECAAM = 100 * 32"
definition ModeDECCANSM :: int where [simp]: "ModeDECCANSM = 101 * 32"
definition ModeDECNULM :: int where [simp]: "ModeDECNULM = 102 * 32"
definition ModeDECHDPXM :: int where [simp]: "ModeDECHDPXM = 103 * 32"
definition ModeDECESKM :: int where [simp]: "ModeDECESKM = 104 * 32"
definition ModeReverseWrapInline :: int where [simp]: "ModeReverseWrapInline = 45 * 32"
definition ModeReverseWrapExtend :: int where [simp]: "ModeReverseWrapExtend = 1045 * 32"
definition ModeDECSaveCursor :: int where [simp]: "ModeDECSaveCursor = 1048 * 32"
definition ModeAltBuf :: int where [simp]: "ModeAltBuf = 47 * 32"
definition ModeAltBufOpt :: int where [simp]: "ModeAltBufOpt = 1047 * 32"
definition ModeAltBufCursor :: int where [simp]: "ModeAltBufCursor = 1049 * 32"
definition ModeAllow80To132 :: int where [simp]: "ModeAllow80To132 = 40 * 32"
definition ModeMoreFix :: int where [simp]: "ModeMoreFix = 41 * 32"
definition ModeMouseX10 :: int where [simp]: "ModeMouseX10 = 9 * 32"
definition ModeMouseNormal :: int where [simp]: "ModeMouseNormal = 1000 * 32"
definition ModeMouseButtonEvent :: int where [simp]: "ModeMouseButtonEvent = 1002 * 32"
definition ModeMouseAnyEvent :: int where [simp]: "ModeMouseAnyEvent = 1003 * 32"
definition ModeMouseSGR :: int where [simp]: "ModeMouseSGR = 1006 * 32"
definition ModeFocusEvent :: int where [simp]: "ModeFocusEvent = 1004 * 32"
definition ModeBracketedPaste :: int where [simp]: "ModeBracketedPaste = 2004 * 32"

section \<open>Control strings\<close>

definition ControlESC :: string where "ControlESC = [CHR 0x1B]"
definition ControlCSI :: string where "ControlCSI = ControlESC @ ''[''"
definition ControlOSC :: string where "ControlOSC = ControlESC @ '']''"
definition ControlDCS :: string where "ControlDCS = ControlESC @ ''P''"
definition ControlST :: string where "ControlST = ControlESC @ [CHR 0x5C]"

section \<open>Character sets\<close>

definition charsetLat1 :: "rune list" where
  "charsetLat1 = [0..255]"

definition charsetVT100 :: "rune list" where
  "charsetVT100 = [
   0x0000, 0x0001, 0x0002, 0x0003, 0x0004, 0x0005, 0x0006, 0x0007, 0x0008, 0x0009, 0x000A, 0x000B, 0x000C, 0x000D, 0x000E, 0x000F,
   0x0010, 0x0011, 0x0012, 0x0013, 0x0014, 0x0015, 0x0016, 0x0017, 0x0018, 0x0019, 0x001A, 0x001B, 0x001C, 0x001D, 0x001E, 0x001F,
   0x0020, 0x0021, 0x0022, 0x0023, 0x0024, 0x0025, 0x0026, 0x0027, 0x0028, 0x0029, 0x002A, 0x2192, 0x2190, 0x2191, 0x2193, 0x002F,
   0x2588, 0x0031, 0x0032, 0x0033, 0x0034, 0x0035, 0x0036, 0x0037, 0x0038, 0x0039, 0x003A, 0x003B, 0x003C, 0x003D, 0x003E, 0x003F,
   0x0040, 0x0041, 0x0042, 0x0043, 0x0044, 0x0045, 0x0046, 0x0047, 0x0048, 0x0049, 0x004A, 0x004B, 0x004C, 0x004D, 0x004E, 0x004F,
   0x0050, 0x0051, 0x0052, 0x0053, 0x0054, 0x0055, 0x0056, 0x0057, 0x0058, 0x0059, 0x005A, 0x005B, 0x005C, 0x005D, 0x005E, 0x00A0,
   0x25C6, 0x2592, 0x2409, 0x240C, 0x240D, 0x240A, 0x00B0, 0x00B1, 0x2591, 0x240B, 0x2518, 0x2510, 0x250C, 0x2514, 0x253C, 0x23BA,
   0x23BB, 0x2500, 0x23BC, 0x23BD, 0x251C, 0x2524, 0x2534, 0x252C, 0x2502, 0x2264, 0x2265, 0x03C0, 0x2260, 0x00A3, 0x00B7, 0x007F,
   0x0080, 0x0081, 0x0082, 0x0083, 0x0084, 0x0085, 0x0086, 0x0087, 0x0088, 0x0089, 0x008A, 0x008B, 0x008C, 0x008D, 0x008E, 0x008F,
   0x0090, 0x0091, 0x0092, 0x0093, 0x0094, 0x0095, 0x0096, 0x0097, 0x0098, 0x0099, 0x009A, 0x009B, 0x009C, 0x009D, 0x009E, 0x009F,
   0x00A0, 0x00A1, 0x00A2, 0x00A3, 0x00A4, 0x00A5, 0x00A6, 0x00A7, 0x00A8, 0x00A9, 0x00AA, 0x00AB, 0x00AC, 0x00AD, 0x00AE, 0x00AF,
   0x00B0, 0x00B1, 0x00B2, 0x00B3, 0x00B4, 0x00B5, 0x00B6, 0x00B7, 0x00B8, 0x00B9, 0x00BA, 0x00BB, 0x00BC, 0x00BD, 0x00BE, 0x00BF,
   0x00C0, 0x00C1, 0x00C2, 0x00C3, 0x00C4, 0x00C5, 0x00C6, 0x00C7, 0x00C8, 0x00C9, 0x00CA, 0x00CB, 0x00CC, 0x00CD, 0x00CE, 0x00CF,
   0x00D0, 0x00D1, 0x00D2, 0x00D3, 0x00D4, 0x00D5, 0x00D6, 0x00D7, 0x00D8, 0x00D9, 0x00DA, 0x00DB, 0x00DC, 0x00DD, 0x00DE, 0x00DF,
   0x00E0, 0x00E1, 0x00E2, 0x00E3, 0x00E4, 0x00E5, 0x00E6, 0x00E7, 0x00E8, 0x00E9, 0x00EA, 0x00EB, 0x00EC, 0x00ED, 0x00EE, 0x00EF,
   0x00F0, 0x00F1, 0x00F2, 0x00F3, 0x00F4, 0x00F5, 0x00F6, 0x00F7, 0x00F8, 0x00F9, 0x00FA, 0x00FB, 0x00FC, 0x00FD, 0x00FE, 0x00FF]"

definition charsetIBMPC :: "rune list" where
  "charsetIBMPC = [
   0x0000, 0x263A, 0x263B, 0x2665, 0x2666, 0x2663, 0x2660, 0x2022, 0x25D8, 0x25CB, 0x25D9, 0x2642, 0x2640, 0x266A, 0x266B, 0x263C,
   0x25B6, 0x25C0, 0x2195, 0x203C, 0x00B6, 0x00A7, 0x25AC, 0x21A8, 0x2191, 0x2193, 0x2192, 0x2190, 0x221F, 0x2194, 0x25B2, 0x25BC,
   0x0020, 0x0021, 0x0022, 0x0023, 0x0024, 0x0025, 0x0026, 0x0027, 0x0028, 0x0029, 0x002A, 0x002B, 0x002C, 0x002D, 0x002E, 0x002F,
   0x0030, 0x0031, 0x0032, 0x0033, 0x0034, 0x0035, 0x0036, 0x0037, 0x0038, 0x0039, 0x003A, 0x003B, 0x003C, 0x003D, 0x003E, 0x003F,
   0x0040, 0x0041, 0x0042, 0x0043, 0x0044, 0x0045, 0x0046, 0x0047, 0x0048, 0x0049, 0x004A, 0x004B, 0x004C, 0x004D, 0x004E, 0x004F,
   0x0050, 0x0051, 0x0052, 0x0053, 0x0054, 0x0055, 0x0056, 0x0057, 0x0058, 0x0059, 0x005A, 0x005B, 0x005C, 0x005D, 0x005E, 0x005F,
   0x0060, 0x0061, 0x0062, 0x0063, 0x0064, 0x0065, 0x0066, 0x0067, 0x0068, 0x0069, 0x006A, 0x006B, 0x006C, 0x006D, 0x006E, 0x006F,
   0x0070, 0x0071, 0x0072, 0x0073, 0x0074, 0x0075, 0x0076, 0x0077, 0x0078, 0x0079, 0x007A, 0x007B, 0x007C, 0x007D, 0x007E, 0x2302,
   0x00C7, 0x00FC, 0x00E9, 0x00E2, 0x00E4, 0x00E0, 0x00E5, 0x00E7, 0x00EA, 0x00EB, 0x00E8, 0x00EF, 0x00EE, 0x00EC, 0x00C4, 0x00C5,
   0x00C9, 0x00E6, 0x00C6, 0x00F4, 0x00F6, 0x00F2, 0x00FB, 0x00F9, 0x00FF, 0x00D6, 0x00DC, 0x00A2, 0x00A3, 0x00A5, 0x20A7, 0x0192,
   0x00E1, 0x00ED, 0x00F3, 0x00FA, 0x00F1, 0x00D1, 0x00AA, 0x00BA, 0x00BF, 0x2310, 0x00AC, 0x00BD, 0x00BC, 0x00A1, 0x00AB, 0x00BB,
   0x2591, 0x2592, 0x2593, 0x2502, 0x2524, 0x2561, 0x2562, 0x2556, 0x2555, 0x2563, 0x2551, 0x2557, 0x255D, 0x255C, 0x255B, 0x2510,
   0x2514, 0x2534, 0x252C, 0x251C, 0x2500, 0x253C, 0x255E, 0x255F, 0x255A, 0x2554, 0x2569, 0x2566, 0x2560, 0x2550, 0x256C, 0x2567,
   0x2568, 0x2564, 0x2565, 0x2559, 0x2558, 0x2552, 0x2553, 0x256B, 0x256A, 0x2518, 0x250C, 0x2588, 0x2584, 0x258C, 0x2590, 0x2580,
   0x03B1, 0x00DF, 0x0393, 0x03C0, 0x03A3, 0x03C3, 0x00B5, 0x03C4, 0x03A6, 0x0398, 0x03A9, 0x03B4, 0x221E, 0x03C6, 0x03B5, 0x2229,
   0x2261, 0x00B1, 0x2265, 0x2264, 0x2320, 0x2321, 0x00F7, 0x2248, 0x00B0, 0x2219, 0x00B7, 0x221A, 0x207F, 0x00B2, 0x25A0, 0x00A0]"

definition charsetVAX42 :: "rune list" where
  "charsetVAX42 = [
   0x0000, 0x263A, 0x263B, 0x2665, 0x2666, 0x2663, 0x2660, 0x2022, 0x25D8, 0x25CB, 0x25D9, 0x2642, 0x2640, 0x266A, 0x266B, 0x263C,
   0x25B6, 0x25C0, 0x2195, 0x203C, 0x00B6, 0x00A7, 0x25AC, 0x21A8, 0x2191, 0x2193, 0x2192, 0x2190, 0x221F, 0x2194, 0x25B2, 0x25BC,
   0x0020, 0x043B, 0x0022, 0x0023, 0x0024, 0x0025, 0x0026, 0x0027, 0x0028, 0x0029, 0x002A, 0x002B, 0x002C, 0x002D, 0x002E, 0x002F,
   0x0030, 0x0031, 0x0032, 0x0033, 0x0034, 0x0035, 0x0036, 0x0037, 0x0038, 0x0039, 0x003A, 0x003B, 0x003C, 0x003D, 0x003E, 0x0435,
   0x0040, 0x0041, 0x0042, 0x0043, 0x0044, 0x0045, 0x0046, 0x0047, 0x0048, 0x0049, 0x004A, 0x004B, 0x004C, 0x004D, 0x004E, 0x004F,
   0x0050, 0x0051, 0x0052, 0x0053, 0x0054, 0x0055, 0x0056, 0x0057, 0x0058, 0x0059, 0x005A, 0x005B, 0x005C, 0x005D, 0x005E, 0x005F,
   0x0060, 0x0441, 0x0062, 0x0063, 0x0064, 0x0065, 0x0066, 0x0067, 0x0435, 0x0069, 0x006A, 0x006B, 0x006C, 0x006D, 0x006E, 0x043A,
   0x0070, 0x0071, 0x0442, 0x0073, 0x043B, 0x0435, 0x0076, 0x0077, 0x0078, 0x0079, 0x007A, 0x007B, 0x007C, 0x007D, 0x007E, 0x2302,
   0x00C7, 0x00FC, 0x00E9, 0x00E2, 0x00E4, 0x00E0, 0x00E5, 0x00E7, 0x00EA, 0x00EB, 0x00E8, 0x00EF, 0x00EE, 0x00EC, 0x00C4, 0x00C5,
   0x00C9, 0x00E6, 0x00C6, 0x00F4, 0x00F6, 0x00F2, 0x00FB, 0x00F9, 0x00FF, 0x00D6, 0x00DC, 0x00A2, 0x00A3, 0x00A5, 0x20A7, 0x0192,
   0x00E1, 0x00ED, 0x00F3, 0x00FA, 0x00F1, 0x00D1, 0x00AA, 0x00BA, 0x00BF, 0x2310, 0x00AC, 0x00BD, 0x00BC, 0x00A1, 0x00AB, 0x00BB,
   0x2591, 0x2592, 0x2593, 0x2502, 0x2524, 0x2561, 0x2562, 0x2556, 0x2555, 0x2563, 0x2551, 0x2557, 0x255D, 0x255C, 0x255B, 0x2510,
   0x2514, 0x2534, 0x252C, 0x251C, 0x2500, 0x253C, 0x255E, 0x255F, 0x255A, 0x2554, 0x2569, 0x2566, 0x2560, 0x2550, 0x256C, 0x2567,
   0x2568, 0x2564, 0x2565, 0x2559, 0x2558, 0x2552, 0x2553, 0x256B, 0x256A, 0x2518, 0x250C, 0x2588, 0x2584, 0x258C, 0x2590, 0x2580,
   0x03B1, 0x00DF, 0x0393, 0x03C0, 0x03A3, 0x03C3, 0x00B5, 0x03C4, 0x03A6, 0x0398, 0x03A9, 0x03B4, 0x221E, 0x03C6, 0x03B5, 0x2229,
   0x2261, 0x00B1, 0x2265, 0x2264, 0x2320, 0x2321, 0x00F7, 0x2248, 0x00B0, 0x2219, 0x00B7, 0x221A, 0x207F, 0x00B2, 0x25A0, 0x00A0]"

definition charsetMaps :: "string \<Rightarrow> rune list option" where
  "charsetMaps = map_of [(''B'', charsetLat1), (''0'', charsetVT100), (''U'', charsetIBMPC),
                         (''V'', charsetVAX42)]"

lemma length_charsets [simp]:
  "length charsetLat1 = 256" "length charsetVT100 = 256" "length charsetIBMPC = 256"
  "length charsetVAX42 = 256"
  by (simp_all add: charsetLat1_def charsetVT100_def charsetIBMPC_def charsetVAX42_def)

lemma charsetMaps_length: "charsetMaps code = Some m \<Longrightarrow> length m = 256"
  by (auto simp: charsetMaps_def split: if_splits)

section \<open>SGR tables\<close>

text \<open>A lookup \<open>m[k]\<close> in a Go map of strings gives the empty string for an absent key.\<close>

definition str_lookup :: "(int \<times> string) list \<Rightarrow> int \<Rightarrow> string" where
  "str_lookup m k = (case map_of m k of None \<Rightarrow> [] | Some v \<Rightarrow> v)"

definition textAttributes :: "int \<Rightarrow> string" where
  "textAttributes = str_lookup [
   (1, ''+bold''), (2, ''+faint''), (3, ''+italics''), (4, ''+underline''), (5, ''+blink''),
   (7, ''+reverse''), (8, ''+conceal''), (9, ''+strikethrough''), (22, ''-intensity''),
   (23, ''-italics''), (24, ''-underline''), (25, ''-blink''), (27, ''-reverse''),
   (28, ''-conceal''), (29, ''-strikethrough''), (53, ''+overline''), (55, ''-overline'')]"

definition fgANSI :: "int \<Rightarrow> string" where
  "fgANSI = str_lookup [
   (30, ''black''), (31, ''red''), (32, ''green''), (33, ''brown''), (34, ''blue''),
   (35, ''magenta''), (36, ''cyan''), (37, ''white''), (39, ''default'')]"

definition fgAixterm :: "int \<Rightarrow> string" where
  "fgAixterm = str_lookup [
   (90, ''brightblack''), (91, ''brightred''), (92, ''brightgreen''), (93, ''brightbrown''),
   (94, ''brightblue''), (95, ''brightmagenta''), (96, ''brightcyan''), (97, ''brightwhite'')]"

definition bgANSI :: "int \<Rightarrow> string" where
  "bgANSI = str_lookup [
   (40, ''black''), (41, ''red''), (42, ''green''), (43, ''brown''), (44, ''blue''),
   (45, ''magenta''), (46, ''cyan''), (47, ''white''), (49, ''default'')]"

definition bgAixterm :: "int \<Rightarrow> string" where
  "bgAixterm = str_lookup [
   (100, ''brightblack''), (101, ''brightred''), (102, ''brightgreen''),
   (103, ''brightbrown''), (104, ''brightblue''), (105, ''brightmagenta''),
   (106, ''brightcyan''), (107, ''brightwhite'')]"

definition SgrFg256 :: int where [simp]: "SgrFg256 = 38"
definition SgrBg256 :: int where [simp]: "SgrBg256 = 48"
definition SgrUnderlineColor :: int where [simp]: "SgrUnderlineColor = 58"
definition SgrDefaultUnderlineColor :: int where [simp]: "SgrDefaultUnderlineColor = 59"
definition sgrUnderlineStyleBase :: int where [simp]: "sgrUnderlineStyleBase = 10000"

text \<open>
  \<open>toHex\<close> indexes a 16-character table with \<open>v >> 4\<close>: it panics outside \<open>0 .. 255\<close>.
\<close>

definition toHex :: "int \<Rightarrow> string option" where
  "toHex v =
    do { hi \<leftarrow> idx ''0123456789abcdef'' (drop_bit 4 v);
         lo \<leftarrow> idx ''0123456789abcdef'' (v mod 16);
         Some [hi, lo] }"

definition rgbHex :: "int \<Rightarrow> int \<Rightarrow> int \<Rightarrow> string option" where
  "rgbHex r g b = do { x \<leftarrow> toHex r; y \<leftarrow> toHex g; z \<leftarrow> toHex b; Some (x @ y @ z) }"

definition valuerange :: "int list" where
  "valuerange = [0x00, 0x5f, 0x87, 0xaf, 0xd7, 0xff]"

definition buildColorTable :: "string list option" where
  "buildColorTable =
    do { colors \<leftarrow> for_each
           (\<lambda>i colors. do { r \<leftarrow> idx valuerange ((i div 36) mod 6);
                            g \<leftarrow> idx valuerange ((i div 6) mod 6);
                            b \<leftarrow> idx valuerange (i mod 6);
                            h \<leftarrow> rgbHex r g b; Some (colors @ [h]) })
           [0..215]
           [''000000'', ''cd0000'', ''00cd00'', ''cdcd00'', ''0000ee'', ''cd00cd'', ''00cdcd'', ''e5e5e5'',
     ''7f7f7f'', ''ff0000'', ''00ff00'', ''ffff00'', ''5c5cff'', ''ff00ff'', ''00ffff'', ''ffffff''];
         for_each (\<lambda>i colors. do { h \<leftarrow> rgbHex (8 + i * 10) (8 + i * 10) (8 + i * 10);
                                   Some (colors @ [h]) }) [0..23] colors }"

definition fgBg256 :: "string list" where
  "fgBg256 = (case buildColorTable of None \<Rightarrow> [] | Some t \<Rightarrow> t)"

lemma toHex_range: "(\<exists>h. toHex v = Some h) \<longleftrightarrow> 0 \<le> v \<and> v \<le> 255"
proof -
  have "drop_bit 4 v = v div 16" by (simp add: drop_bit_eq_div)
  moreover have "0 \<le> v div 16 \<and> v div 16 < 16 \<longleftrightarrow> 0 \<le> v \<and> v \<le> 255" by linarith
  ultimately show ?thesis by (auto simp: toHex_def idx_def split: bind_splits)
qed

lemma toHex_in: "0 \<le> v \<Longrightarrow> v \<le> 255 \<Longrightarrow> \<exists>h. toHex v = Some h"
  by (simp add: toHex_range)

lemma rgbHex_range:
  "(\<exists>h. rgbHex r g b = Some h) \<longleftrightarrow> (0 \<le> r \<and> r \<le> 255) \<and> (0 \<le> g \<and> g \<le> 255) \<and> (0 \<le> b \<and> b \<le> 255)"
  unfolding rgbHex_def toHex_range [symmetric] by (auto split: bind_splits)

lemma idx_valuerange:
  "\<exists>v. idx valuerange (k mod 6) = Some v \<and> 0 \<le> v \<and> v \<le> 255"
proof -
  have "nat (k mod 6) \<in> {0, 1, 2, 3, 4, 5}" by (auto simp: nat_eq_iff)
  then show ?thesis by (auto simp: idx_def valuerange_def)
qed

lemma cube_entry:
  "\<exists>h. do { r \<leftarrow> idx valuerange (i mod 6); g \<leftarrow> idx valuerange (j mod 6);
            b \<leftarrow> idx valuerange (k mod 6); h \<leftarrow> rgbHex r g b; Some (colors @ [h]) }
       = Some (colors @ [h])"
proof -
  obtain r g b where "idx valuerange (i mod 6) = Some r" "idx valuerange (j mod 6) = Some g"
    "idx valuerange (k mod 6) = Some b" and "(0 \<le> r \<and> r \<le> 255) \<and> (0 \<le> g \<and> g \<le> 255) \<and> (0 \<le> b \<and> b \<le> 255)"
    using idx_valuerange by metis
  then show ?thesis unfolding rgbHex_range [symmetric] by auto
qed

lemma grey_entry:
  assumes "0 \<le> i" "i \<le> 23"
  shows "\<exists>h. do { h \<leftarrow> rgbHex (8 + i * 10) (8 + i * 10) (8 + i * 10); Some (colors @ [h]) }
             = Some (colors @ [h])"
proof -
  have "\<exists>h. rgbHex (8 + i * 10) (8 + i * 10) (8 + i * 10) = Some h"
    unfolding rgbHex_range using assms by simp
  then show ?thesis by auto
qed

lemma returns_collect:
  assumes "length t = n" and "\<And>x s. x \<in> set xs \<Longrightarrow> \<exists>h. f x s = Some (s @ [h])"
  shows "returns (\<lambda>t. length t = n + length xs) (for_each f xs t)"
  using assms
proof (induction xs arbitrary: t n)
  case (Cons x xs)
  obtain h where "f x t = Some (t @ [h])" using Cons.prems(2) by fastforce
  then show ?case using Cons.IH [of "t @ [h]" "Suc n"] Cons.prems by simp
qed simp

lemma buildColorTable_length: "returns (\<lambda>t. length t = 256) buildColorTable"
  unfolding buildColorTable_def
  by (rule returns_bind, rule returns_collect [where n = 16], simp, rule cube_entry,
      rule returns_mono, rule returns_collect, assumption, rule grey_entry) auto

lemma length_fgBg256 [simp]: "length fgBg256 = 256"
proof -
  obtain t where t: "buildColorTable = Some t" "length t = 256"
    using buildColorTable_length unfolding returns_ex by blast
  show ?thesis unfolding fgBg256_def t(1) using t(2) by simp
qed

section \<open>Text helpers\<close>

definition isCombiningCluster :: "textlib \<Rightarrow> string \<Rightarrow> bool" where
  "isCombiningCluster E cluster \<longleftrightarrow> cluster \<noteq> [] \<and> list_all (is_mark E) (runes cluster)"

end
