(* ===== verification/TeScreen.thy ===== *)
theory TeScreen
  imports Grid TeTypes
begin

text \<open>
  The state of \<open>Screen\<close> (\<open>pkg/te/screen.go\<close>), its invariant, margins and cursor movement.

  \<^item> A nil slice is the empty list; the code's \<open>== nil\<close> tests on \<open>Buffer\<close> and \<open>altBuffer\<close> only
    ever see nil or a grid with at least one row.
  \<^item> A map that is written without a nil check (\<open>lineWrapped\<close>, \<open>altLineWrapped\<close>, \<open>TabStops\<close>)
    is an option: \<open>None\<close> is the nil map, which reads as empty and panics on a write. The other
    maps are created on demand by the code, so their nil is the empty map.
  \<^item> \<open>processInput\<close> is the sequence of strings handed to the callback \<open>WriteProcessInput\<close>.
\<close>

section \<open>State\<close>

record MarginsT =
  Top :: int
  Bottom :: int

record Savepoint =
  SpCursor :: CursorT
  SpG0 :: "rune list"
  SpG1 :: "rune list"
  SpCharset :: int
  SpOrigin :: bool
  SpWrap :: bool
  SpWrapNext :: bool
  SpSavedCol :: "int option"

record Screen =
  Columns :: int
  Lines :: int
  Buffer :: "Cell grid"
  Dirty :: "int set"
  Cursor :: CursorT
  Mode :: "int set"
  Margins :: "MarginsT option"
  Charset :: int
  G0 :: "rune list"
  G1 :: "rune list"
  TabStops :: "int set option"
  Title :: string
  IconName :: string
  cursorStyle :: int
  charProtectionMode :: int
  statusDisplay :: int
  Savepoints :: "Savepoint list"
  SavedColumns :: "int option"
  processInput :: "string list"
  TerminalName :: string
  lastDrawn :: string
  leftMargin :: int
  rightMargin :: int
  lineWrapped :: "(int \<rightharpoonup> bool) option"
  wrapNext :: bool
  savedModes :: "int \<rightharpoonup> bool"
  selectionData :: "string \<rightharpoonup> string"
  colorPalette :: "int \<rightharpoonup> string"
  dynamicColors :: "int \<rightharpoonup> string"
  specialColors :: "int \<rightharpoonup> string"
  titleHexInput :: bool
  titleHexOutput :: bool
  conformanceLevel :: int
  conformanceExplicit :: bool
  titleStack :: "string list"
  iconStack :: "string list"
  windowPosX :: int
  windowPosY :: int
  windowPixelWidth :: int
  windowPixelHeight :: int
  screenPixelWidth :: int
  screenPixelHeight :: int
  charPixelWidth :: int
  charPixelHeight :: int
  windowIconified :: bool
  indexedColors :: int
  altBuffer :: "Cell grid"
  altSavepoints :: "Savepoint list"
  altLineWrapped :: "(int \<rightharpoonup> bool) option"
  altWrapNext :: bool
  altActive :: bool
  altSavedCursor :: "CursorT option"

abbreviation row :: "Screen \<Rightarrow> int" where
  "row s \<equiv> Row (Cursor s)"

abbreviation col :: "Screen \<Rightarrow> int" where
  "col s \<equiv> Col (Cursor s)"

definition atRow :: "int \<Rightarrow> Screen \<Rightarrow> Screen" where
  "atRow r s = s\<lparr>Cursor := (Cursor s)\<lparr>Row := r\<rparr>\<rparr>"

definition atCol :: "int \<Rightarrow> Screen \<Rightarrow> Screen" where
  "atCol c s = s\<lparr>Cursor := (Cursor s)\<lparr>Col := c\<rparr>\<rparr>"

text \<open>A read of a bool map: an absent key, like a nil map, is false.\<close>

definition wrapped_at :: "(int \<rightharpoonup> bool) option \<Rightarrow> int \<Rightarrow> bool" where
  "wrapped_at m r = (case m of None \<Rightarrow> False | Some f \<Rightarrow> (case f r of None \<Rightarrow> False | Some b \<Rightarrow> b))"

text \<open>\<open>s.lineWrapped[r] = true\<close>: a write to a nil map panics.\<close>

definition markWrapped :: "int \<Rightarrow> Screen \<Rightarrow> Screen option" where
  "markWrapped r s = (case lineWrapped s of None \<Rightarrow> None
                      | Some m \<Rightarrow> Some (s\<lparr>lineWrapped := Some (m(r \<mapsto> True))\<rparr>))"

definition IsAltScreenActive :: "Screen \<Rightarrow> bool" where
  "IsAltScreenActive s = altActive s"

section \<open>Invariant\<close>

definition savepoint_ok :: "Savepoint \<Rightarrow> bool" where
  "savepoint_ok p \<longleftrightarrow> length (SpG0 p) = 256 \<and> length (SpG1 p) = 256"

definition wf_screen :: "Screen \<Rightarrow> bool" where
  "wf_screen s \<longleftrightarrow>
     1 \<le> Lines s \<and> 1 \<le> Columns s \<and> grid_ok (Lines s) (Columns s) (Buffer s) \<and>
     0 \<le> row s \<and> row s < Lines s \<and> 0 \<le> col s \<and> col s \<le> Columns s \<and>
     (\<forall>m. Margins s = Some m \<longrightarrow> 0 \<le> Top m \<and> Top m < Bottom m \<and> Bottom m < Lines s) \<and>
     (ModeDECLRMM \<in> Mode s \<longrightarrow>
        0 \<le> leftMargin s \<and> leftMargin s \<le> rightMargin s \<and> rightMargin s < Columns s) \<and>
     length (G0 s) = 256 \<and> length (G1 s) = 256 \<and>
     (\<forall>p \<in> set (Savepoints s). savepoint_ok p) \<and> (\<forall>p \<in> set (altSavepoints s). savepoint_ok p) \<and>
     lineWrapped s \<noteq> None \<and> (\<exists>t. TabStops s = Some t \<and> finite t) \<and>
     (altBuffer s \<noteq> [] \<longrightarrow>
        grid_ok (Lines s) (Columns s) (altBuffer s) \<and> altLineWrapped s \<noteq> None) \<and>
     (altActive s \<longrightarrow> altBuffer s \<noteq> []) \<and>
     (\<forall>c. altSavedCursor s = Some c \<longrightarrow> 0 \<le> Row c \<and> 0 \<le> Col c)"

text \<open>The fields the invariant does not read.\<close>

lemma wf_irrelevant [simp]:
  "wf_screen (s\<lparr>Dirty := x1\<rparr>) = wf_screen s"
  "wf_screen (s\<lparr>Charset := x2\<rparr>) = wf_screen s"
  "wf_screen (s\<lparr>Title := x3\<rparr>) = wf_screen s"
  "wf_screen (s\<lparr>IconName := x3\<rparr>) = wf_screen s"
  "wf_screen (s\<lparr>cursorStyle := x2\<rparr>) = wf_screen s"
  "wf_screen (s\<lparr>charProtectionMode := x2\<rparr>) = wf_screen s"
  "wf_screen (s\<lparr>statusDisplay := x2\<rparr>) = wf_screen s"
  "wf_screen (s\<lparr>SavedColumns := x4\<rparr>) = wf_screen s"
  "wf_screen (s\<lparr>processInput := x5\<rparr>) = wf_screen s"
  "wf_screen (s\<lparr>TerminalName := x3\<rparr>) = wf_screen s"
  "wf_screen (s\<lparr>lastDrawn := x3\<rparr>) = wf_screen s"
  "wf_screen (s\<lparr>wrapNext := x7\<rparr>) = wf_screen s"
  "wf_screen (s\<lparr>savedModes := x6\<rparr>) = wf_screen s"
  "wf_screen (s\<lparr>selectionData := x8\<rparr>) = wf_screen s"
  "wf_screen (s\<lparr>colorPalette := x9\<rparr>) = wf_screen s"
  "wf_screen (s\<lparr>dynamicColors := x9\<rparr>) = wf_screen s"
  "wf_screen (s\<lparr>specialColors := x9\<rparr>) = wf_screen s"
  "wf_screen (s\<lparr>titleHexInput := x7\<rparr>) = wf_screen s"
  "wf_screen (s\<lparr>titleHexOutput := x7\<rparr>) = wf_screen s"
  "wf_screen (s\<lparr>conformanceLevel := x2\<rparr>) = wf_screen s"
  "wf_screen (s\<lparr>conformanceExplicit := x7\<rparr>) = wf_screen s"
  "wf_screen (s\<lparr>titleStack := x5\<rparr>) = wf_screen s"
  "wf_screen (s\<lparr>iconStack := x5\<rparr>) = wf_screen s"
  "wf_screen (s\<lparr>windowPosX := x2\<rparr>) = wf_screen s"
  "wf_screen (s\<lparr>windowPosY := x2\<rparr>) = wf_screen s"
  "wf_screen (s\<lparr>windowPixelWidth := x2\<rparr>) = wf_screen s"
  "wf_screen (s\<lparr>windowPixelHeight := x2\<rparr>) = wf_screen s"
  "wf_screen (s\<lparr>screenPixelWidth := x2\<rparr>) = wf_screen s"
  "wf_screen (s\<lparr>screenPixelHeight := x2\<rparr>) = wf_screen s"
  "wf_screen (s\<lparr>charPixelWidth := x2\<rparr>) = wf_screen s"
  "wf_screen (s\<lparr>charPixelHeight := x2\<rparr>) = wf_screen s"
  "wf_screen (s\<lparr>windowIconified := x7\<rparr>) = wf_screen s"
  "wf_screen (s\<lparr>indexedColors := x2\<rparr>) = wf_screen s"
  "wf_screen (s\<lparr>altWrapNext := x7\<rparr>) = wf_screen s"
  by (simp_all add: wf_screen_def)

lemma wf_lineWrapped [simp, intro]: "wf_screen s \<Longrightarrow> wf_screen (s\<lparr>lineWrapped := Some m\<rparr>)"
  by (simp add: wf_screen_def)

lemma wf_Cursor [intro]:
  "wf_screen s \<Longrightarrow> 0 \<le> Row c \<Longrightarrow> Row c < Lines s \<Longrightarrow> 0 \<le> Col c \<Longrightarrow> Col c \<le> Columns s \<Longrightarrow>
   wf_screen (s\<lparr>Cursor := c\<rparr>)"
  by (simp add: wf_screen_def)

lemma wf_Buffer [intro]:
  "wf_screen s \<Longrightarrow> grid_ok (Lines s) (Columns s) b \<Longrightarrow> wf_screen (s\<lparr>Buffer := b\<rparr>)"
  by (simp add: wf_screen_def)

lemma wf_atRow [intro]: "wf_screen s \<Longrightarrow> 0 \<le> r \<Longrightarrow> r < Lines s \<Longrightarrow> wf_screen (atRow r s)"
  by (simp add: wf_screen_def atRow_def)

lemma wf_atCol [intro]: "wf_screen s \<Longrightarrow> 0 \<le> c \<Longrightarrow> c \<le> Columns s \<Longrightarrow> wf_screen (atCol c s)"
  by (simp add: wf_screen_def atCol_def)

lemma wfD:
  assumes "wf_screen s"
  shows wf_Lines: "1 \<le> Lines s" and wf_Columns: "1 \<le> Columns s"
    and wf_grid: "grid_ok (Lines s) (Columns s) (Buffer s)"
    and wf_row: "0 \<le> row s" "row s < Lines s" and wf_col: "0 \<le> col s" "col s \<le> Columns s"
    and wf_margins: "Margins s = Some m \<Longrightarrow> 0 \<le> Top m \<and> Top m < Bottom m \<and> Bottom m < Lines s"
    and wf_lrmm: "ModeDECLRMM \<in> Mode s \<Longrightarrow>
      0 \<le> leftMargin s \<and> leftMargin s \<le> rightMargin s \<and> rightMargin s < Columns s"
    and wf_wrapped: "\<exists>m. lineWrapped s = Some m"
  using assms by (auto simp: wf_screen_def)

section \<open>Modes, margins, attributes\<close>

definition isModeSet :: "Screen \<Rightarrow> int \<Rightarrow> bool" where
  "isModeSet s mode \<longleftrightarrow> mode \<in> Mode s"

definition defaultAttr :: "Screen \<Rightarrow> Attr" where
  "defaultAttr s = plainAttr (isModeSet s ModeDECSCNM)"

definition defaultCell :: "Screen \<Rightarrow> Cell" where
  "defaultCell s = \<lparr>Data = '' '', CellAttr = defaultAttr s\<rparr>"

definition bceAttr :: "Screen \<Rightarrow> Attr" where
  "bceAttr s = (defaultAttr s)\<lparr>Bg := Bg (CurAttr (Cursor s))\<rparr>"

definition scrollRegion :: "Screen \<Rightarrow> int \<times> int" where
  "scrollRegion s = (case Margins s of Some m \<Rightarrow> (Top m, Bottom m) | None \<Rightarrow> (0, Lines s - 1))"

definition horizontalMargins :: "Screen \<Rightarrow> int \<times> int" where
  "horizontalMargins s =
    (if isModeSet s ModeDECLRMM then (leftMargin s, rightMargin s) else (0, Columns s - 1))"

definition canScrollHorizontal :: "Screen \<Rightarrow> bool" where
  "canScrollHorizontal s =
    (if \<not> isModeSet s ModeDECLRMM then True
     else (case horizontalMargins s of (left, right) \<Rightarrow> left \<le> col s \<and> col s \<le> right))"

definition markDirtyRange :: "int \<Rightarrow> int \<Rightarrow> Screen \<Rightarrow> Screen" where
  "markDirtyRange start fin s =
    (let a = (if start < 0 then 0 else start);
         b = (if fin \<ge> Lines s then Lines s - 1 else fin)
     in s\<lparr>Dirty := Dirty s \<union> {a..b}\<rparr>)"

definition markDirty :: "int \<Rightarrow> Screen \<Rightarrow> Screen" where
  "markDirty r s = s\<lparr>Dirty := insert r (Dirty s)\<rparr>"

lemma wf_markDirty [simp]:
  "wf_screen (markDirtyRange a b s) = wf_screen s" "wf_screen (markDirty r s) = wf_screen s"
  by (simp_all add: markDirtyRange_def markDirty_def)

lemma scrollRegion_bounds:
  assumes "wf_screen s" "scrollRegion s = (tp, bt)"
  shows "0 \<le> tp" "tp \<le> bt" "bt < Lines s"
  using assms by (auto simp: scrollRegion_def wf_screen_def split: option.splits)

lemma horizontalMargins_bounds:
  assumes "wf_screen s" "horizontalMargins s = (left, right)"
  shows "0 \<le> left" "left \<le> right" "right < Columns s"
  using assms by (auto simp: horizontalMargins_def wf_screen_def isModeSet_def split: if_splits)

definition ensureHB :: "Screen \<Rightarrow> Screen" where
  "ensureHB s =
    (if isModeSet s ModeDECLRMM then
       (case horizontalMargins s of (left, right) \<Rightarrow>
          if col s < left then atCol (maxInt 0 (col s)) s
          else if col s > right then atCol (minInt (col s) (Columns s - 1)) s
          else atCol (minInt (maxInt (col s) left) right) s)
     else if col s < 0 then (let s = atCol 0 s in if col s \<ge> Columns s then atCol (Columns s - 1) s else s)
     else if col s \<ge> Columns s then atCol (Columns s - 1) s
     else s)"

definition ensureVB :: "bool \<Rightarrow> Screen \<Rightarrow> Screen" where
  "ensureVB useMargins s =
    (case Margins s of
       Some m \<Rightarrow>
         if useMargins \<or> isModeSet s ModeDECOM then
           (let s = (if row s < Top m then atRow (Top m) s else s)
            in if row s > Bottom m then atRow (Bottom m) s else s)
         else
           (let s = (if row s < 0 then atRow 0 s else s)
            in if row s \<ge> Lines s then atRow (Lines s - 1) s else s)
     | None \<Rightarrow>
         (let s = (if row s < 0 then atRow 0 s else s)
          in if row s \<ge> Lines s then atRow (Lines s - 1) s else s))"

definition EnsureCursor :: "Screen \<Rightarrow> Screen" where
  "EnsureCursor s = ensureVB False (ensureHB s)"

text \<open>What holds of every field of the invariant except the position of the cursor.\<close>

definition wf_but_cursor :: "Screen \<Rightarrow> bool" where
  "wf_but_cursor s \<longleftrightarrow> wf_screen (s\<lparr>Cursor := (Cursor s)\<lparr>Row := 0, Col := 0\<rparr>\<rparr>)"

lemma wf_but_cursorI: "wf_screen s \<Longrightarrow> wf_but_cursor s"
  by (simp add: wf_but_cursor_def wf_screen_def)

lemma wf_but_cursor_Cursor [simp]: "wf_but_cursor (s\<lparr>Cursor := c\<rparr>) = wf_but_cursor s"
  by (simp add: wf_but_cursor_def wf_screen_def)

lemma wf_but_cursor_at [simp]:
  "wf_but_cursor (atRow r s) = wf_but_cursor s" "wf_but_cursor (atCol c s) = wf_but_cursor s"
  by (simp_all add: atRow_def atCol_def)

lemma wf_but_cursor_wf:
  "wf_but_cursor s \<Longrightarrow> 0 \<le> row s \<Longrightarrow> row s < Lines s \<Longrightarrow> 0 \<le> col s \<Longrightarrow> col s \<le> Columns s \<Longrightarrow> wf_screen s"
  by (simp add: wf_but_cursor_def wf_screen_def)

lemma at_simps [simp]:
  "row (atRow r s) = r" "col (atRow r s) = col s" "row (atCol c s) = row s" "col (atCol c s) = c"
  "Lines (atRow r s) = Lines s" "Columns (atRow r s) = Columns s" "Mode (atRow r s) = Mode s"
  "Margins (atRow r s) = Margins s" "leftMargin (atRow r s) = leftMargin s"
  "rightMargin (atRow r s) = rightMargin s" "Buffer (atRow r s) = Buffer s"
  "Lines (atCol c s) = Lines s" "Columns (atCol c s) = Columns s" "Mode (atCol c s) = Mode s"
  "Margins (atCol c s) = Margins s" "leftMargin (atCol c s) = leftMargin s"
  "rightMargin (atCol c s) = rightMargin s" "Buffer (atCol c s) = Buffer s"
  "CurAttr (Cursor (atRow r s)) = CurAttr (Cursor s)"
  "CurAttr (Cursor (atCol c s)) = CurAttr (Cursor s)"
  by (simp_all add: atRow_def atCol_def)

lemma isModeSet_at [simp]:
  "isModeSet (atRow r s) m = isModeSet s m" "isModeSet (atCol c s) m = isModeSet s m"
  by (simp_all add: isModeSet_def)

lemma ensureHB_frame [simp]:
  "row (ensureHB s) = row s" "Lines (ensureHB s) = Lines s" "Columns (ensureHB s) = Columns s"
  "Mode (ensureHB s) = Mode s" "Margins (ensureHB s) = Margins s"
  "Buffer (ensureHB s) = Buffer s" "wf_but_cursor (ensureHB s) = wf_but_cursor s"
  by (simp_all add: ensureHB_def Let_def split: prod.splits)

lemma ensureVB_frame [simp]:
  "col (ensureVB b s) = col s" "Lines (ensureVB b s) = Lines s" "Columns (ensureVB b s) = Columns s"
  "Mode (ensureVB b s) = Mode s" "Margins (ensureVB b s) = Margins s"
  "Buffer (ensureVB b s) = Buffer s" "wf_but_cursor (ensureVB b s) = wf_but_cursor s"
  by (simp_all add: ensureVB_def Let_def split: option.splits)

lemma wf_but_cursorD:
  assumes "wf_but_cursor s"
  shows "1 \<le> Lines s" "1 \<le> Columns s"
    "Margins s = Some m \<Longrightarrow> 0 \<le> Top m \<and> Top m < Bottom m \<and> Bottom m < Lines s"
    "ModeDECLRMM \<in> Mode s \<Longrightarrow>
      0 \<le> leftMargin s \<and> leftMargin s \<le> rightMargin s \<and> rightMargin s < Columns s"
  using assms by (auto simp: wf_but_cursor_def wf_screen_def)

lemma ensureHB_col:
  assumes "wf_but_cursor s"
  shows "0 \<le> col (ensureHB s)" "col (ensureHB s) < Columns s"
  using wf_but_cursorD [OF assms]
  by (auto simp: ensureHB_def horizontalMargins_def isModeSet_def Let_def)

lemma ensureVB_row:
  assumes "wf_but_cursor s"
  shows "0 \<le> row (ensureVB b s)" "row (ensureVB b s) < Lines s"
  using wf_but_cursorD [OF assms] by (auto simp: ensureVB_def Let_def split: option.splits)

lemma ensure_wf: "wf_but_cursor s \<Longrightarrow> wf_screen (ensureVB b (ensureHB s))"
  using ensureHB_col [of s] ensureVB_row [of "ensureHB s" b] by (intro wf_but_cursor_wf) auto

lemma EnsureCursor_wf: "wf_but_cursor s \<Longrightarrow> wf_screen (EnsureCursor s)"
  by (simp add: EnsureCursor_def ensure_wf)

end
