(* ===== verification/TeCursor.thy ===== *)
theory TeCursor
  imports TeScreen "HOL-Library.Multiset"
begin

text \<open>
  Cursor movement, margins, tab stops and the saved-cursor stack of \<open>pkg/te/screen.go\<close>. None of
  these operations touches the cell buffer; each keeps \<open>wf_screen\<close> (collection \<open>wf_intro\<close>).
  A Go variadic argument list is a list.
\<close>

named_theorems wf_intro \<open>operations of the screen keep its invariant\<close>

text \<open>\<open>count := 1; if len(params) > 0 { count = params[0] }; if count <= 0 { count = 1 }\<close>\<close>

definition first_param :: "int \<Rightarrow> int list \<Rightarrow> int" where
  "first_param d params = (case params of [] \<Rightarrow> d | p # _ \<Rightarrow> p)"

definition second_param :: "int \<Rightarrow> int list \<Rightarrow> int" where
  "second_param d params = (case params of _ # p # _ \<Rightarrow> p | _ \<Rightarrow> d)"

definition at_least_1 :: "int \<Rightarrow> int" where
  "at_least_1 n = (if n \<le> 0 then 1 else n)"

lemma at_least_1_pos: "1 \<le> at_least_1 n"
  by (simp add: at_least_1_def)

section \<open>Carriage return and vertical moves\<close>

definition CarriageReturn :: "Screen \<Rightarrow> Screen" where
  "CarriageReturn s0 =
    (let s = s0\<lparr>wrapNext := False\<rparr>
     in if isModeSet s ModeDECLRMM then
          if isModeSet s ModeDECOM then atCol (leftMargin s) s
          else if col s < leftMargin s then atCol 0 s
          else atCol (leftMargin s) s
        else atCol 0 s)"

definition CursorUp :: "int list \<Rightarrow> Screen \<Rightarrow> Screen" where
  "CursorUp params s0 =
    (let s = s0\<lparr>wrapNext := False\<rparr>;
         count = at_least_1 (first_param 1 params)
     in case scrollRegion s of (tp, bt) \<Rightarrow>
          let limitTop = (if row s \<ge> tp \<and> row s \<le> bt then tp else 0)
          in atRow (maxInt (row s - count) limitTop) s)"

definition CursorUp1 :: "int list \<Rightarrow> Screen \<Rightarrow> Screen" where
  "CursorUp1 params s = CarriageReturn (CursorUp params (s\<lparr>wrapNext := False\<rparr>))"

definition CursorDown :: "int list \<Rightarrow> Screen \<Rightarrow> Screen" where
  "CursorDown params s0 =
    (let s = s0\<lparr>wrapNext := False\<rparr>;
         count = at_least_1 (first_param 1 params)
     in case scrollRegion s of (tp, bt) \<Rightarrow>
          let limitBottom = (if row s \<ge> tp \<and> row s \<le> bt then bt else Lines s - 1)
          in atRow (minInt (row s + count) limitBottom) s)"

definition CursorDown1 :: "int list \<Rightarrow> Screen \<Rightarrow> Screen" where
  "CursorDown1 params s = CarriageReturn (CursorDown params (s\<lparr>wrapNext := False\<rparr>))"

section \<open>Moving left, with reverse wrap\<close>

definition reverseWrapToPreviousLine :: "int \<Rightarrow> int \<Rightarrow> bool \<Rightarrow> bool \<Rightarrow> Screen \<Rightarrow> Screen" where
  "reverseWrapToPreviousLine left right reverseInline reverseExtend s =
    (case scrollRegion s of (tp, bt) \<Rightarrow>
      let targetRow = (if reverseExtend \<and> row s = tp then bt else row s - 1)
      in if targetRow < 0 \<or> targetRow \<ge> Lines s then s
         else if reverseInline \<and> \<not> reverseExtend \<and> \<not> wrapped_at (lineWrapped s) targetRow then s
         else atCol right (atRow targetRow s))"

text \<open>One iteration of the loop of \<open>moveLeft\<close>.\<close>

definition moveLeft_step :: "int \<Rightarrow> int \<Rightarrow> bool \<Rightarrow> bool \<Rightarrow> bool \<Rightarrow> Screen \<Rightarrow> Screen" where
  "moveLeft_step left right reverseInline reverseExtend reverseWrap s0 =
    (if wrapNext s0 then
       (let s = s0\<lparr>wrapNext := False\<rparr>
        in if reverseWrap \<and> isModeSet s ModeDECAWM \<and> (reverseInline \<or> reverseExtend) then
             (if col s = right + 1 then atCol right s else s)
           else if col s = right + 1 then atCol (maxInt left (right - 1)) s
           else if col s > 0 then atCol (col s - 1) s
           else s)
     else
       (let s = s0
        in if col s = right + 1 then atCol right s
           else if col s = 0 then
             (if reverseWrap \<and> isModeSet s ModeDECAWM \<and> (reverseInline \<or> reverseExtend)
              then reverseWrapToPreviousLine left right reverseInline reverseExtend s else s)
           else if isModeSet s ModeDECLRMM \<and> col s < left then atCol (col s - 1) s
           else if col s > left then atCol (col s - 1) s
           else if col s < left then atCol (col s - 1) s
           else if \<not> reverseWrap \<or> \<not> isModeSet s ModeDECAWM \<or> (\<not> reverseInline \<and> \<not> reverseExtend)
                then s
           else reverseWrapToPreviousLine left right reverseInline reverseExtend s))"

definition moveLeft :: "int \<Rightarrow> bool \<Rightarrow> Screen \<Rightarrow> Screen" where
  "moveLeft count0 reverseWrap s =
    (case horizontalMargins s of (left, right) \<Rightarrow>
      (moveLeft_step left right (isModeSet s ModeReverseWrapInline)
         (isModeSet s ModeReverseWrapExtend) reverseWrap ^^ nat (at_least_1 count0)) s)"

definition Backspace :: "Screen \<Rightarrow> Screen" where
  "Backspace s = moveLeft 1 True s"

definition CursorBack :: "int list \<Rightarrow> Screen \<Rightarrow> Screen" where
  "CursorBack params s = moveLeft (first_param 1 params) True s"

section \<open>Moving right and absolute positions\<close>

definition CursorForward :: "int list \<Rightarrow> Screen \<Rightarrow> Screen" where
  "CursorForward params s0 =
    (let s = s0\<lparr>wrapNext := False\<rparr>;
         count = at_least_1 (first_param 1 params)
     in case horizontalMargins s of (left, right) \<Rightarrow>
          if isModeSet s ModeDECLRMM \<and> col s \<ge> left \<and> col s \<le> right
          then atCol (minInt (col s + count) right) s
          else atCol (minInt (col s + count) (Columns s - 1)) s)"

definition CursorPosition :: "int list \<Rightarrow> Screen \<Rightarrow> Screen" where
  "CursorPosition params s0 =
    (let s = s0\<lparr>wrapNext := False\<rparr>;
         line = at_least_1 (first_param 0 params);
         column = at_least_1 (second_param 0 params);
         dom = isModeSet s ModeDECOM;
         (r, rbad) = (case Margins s of
            Some m \<Rightarrow> if dom then (line - 1 + Top m, line - 1 + Top m < Top m \<or> line - 1 + Top m > Bottom m)
                      else (line - 1, False)
          | None \<Rightarrow> (line - 1, False));
         (c, cbad) =
           (if dom \<and> isModeSet s ModeDECLRMM
            then (column - 1 + leftMargin s,
                  column - 1 + leftMargin s < leftMargin s \<or> column - 1 + leftMargin s > rightMargin s)
            else (column - 1, False))
     in if rbad \<or> cbad then s
        else ensureVB False (ensureHB (atCol c (atRow r s))))"

definition CursorToColumn :: "int list \<Rightarrow> Screen \<Rightarrow> Screen" where
  "CursorToColumn column s0 =
    (let s = s0\<lparr>wrapNext := False\<rparr>;
         c = at_least_1 (first_param 1 column) - 1;
         c = (if isModeSet s ModeDECOM \<and> isModeSet s ModeDECLRMM then c + leftMargin s else c)
     in ensureHB (atCol c s))"

definition CursorToColumnAbsolute :: "int list \<Rightarrow> Screen \<Rightarrow> Screen" where
  "CursorToColumnAbsolute column s0 =
    (let s = s0\<lparr>wrapNext := False\<rparr>;
         c = at_least_1 (first_param 1 column) - 1;
         c = (if c < 0 then 0 else c);
         c = (if c \<ge> Columns s then Columns s - 1 else c)
     in atCol c s)"

definition CursorToLine :: "int list \<Rightarrow> Screen \<Rightarrow> Screen" where
  "CursorToLine params s0 =
    (let s = s0\<lparr>wrapNext := False\<rparr>;
         r = at_least_1 (first_param 1 params) - 1;
         r = (case Margins s of Some m \<Rightarrow> if isModeSet s ModeDECOM then r + Top m else r | None \<Rightarrow> r)
     in ensureVB False (atRow r s))"

section \<open>Margins\<close>

definition SetMargins :: "int list \<Rightarrow> Screen \<Rightarrow> Screen" where
  "SetMargins params s =
    (let tp = first_param 0 params; bt = second_param 0 params
     in if (tp = 0 \<or> tp = -1) \<and> bt = 0 then s\<lparr>Margins := None\<rparr>
        else
          (let margins = (case Margins s of None \<Rightarrow> \<lparr>Top = 0, Bottom = Lines s - 1\<rparr> | Some m \<Rightarrow> m);
               tp = (if tp = 0 then Top margins + 1 else tp);
               bt = (if bt = 0 then Bottom margins + 1 else bt);
               tp = maxInt 0 (minInt (tp - 1) (Lines s - 1));
               bt = maxInt 0 (minInt (bt - 1) (Lines s - 1))
           in if bt - tp \<ge> 1
              then CursorPosition [0, 0] (s\<lparr>Margins := Some \<lparr>Top = tp, Bottom = bt\<rparr>\<rparr>)
              else s))"

definition SetLeftRightMargins :: "int \<Rightarrow> int \<Rightarrow> Screen \<Rightarrow> Screen" where
  "SetLeftRightMargins left right s =
    (if \<not> isModeSet s ModeDECLRMM then s
     else if (left = 0 \<or> left = -1) \<and> right = 0 then
       CursorPosition [0, 0] (s\<lparr>leftMargin := 0, rightMargin := Columns s - 1\<rparr>)
     else
       (let left = (if left = 0 then 1 else left);
            right = (if right = 0 then Columns s else right);
            left = maxInt 1 (minInt left (Columns s));
            right = maxInt 1 (minInt right (Columns s))
        in if right - left \<ge> 1
           then CursorPosition [0, 0] (s\<lparr>leftMargin := left - 1, rightMargin := right - 1\<rparr>)
           else s))"

section \<open>Tab stops\<close>

definition SetTabStop :: "Screen \<Rightarrow> Screen option" where
  "SetTabStop s = (case TabStops s of None \<Rightarrow> None
                   | Some t \<Rightarrow> Some (s\<lparr>TabStops := Some (insert (col s) t)\<rparr>))"

definition ClearTabStop :: "int list \<Rightarrow> Screen \<Rightarrow> Screen" where
  "ClearTabStop how s =
    (let value = first_param 0 how
     in if value = 0 then s\<lparr>TabStops := map_option (\<lambda>t. t - {col s}) (TabStops s)\<rparr>
        else if value = 3 then s\<lparr>TabStops := Some {}\<rparr>
        else s)"

text \<open>The keys of \<open>TabStops\<close>; a nil map has none.\<close>

definition stops :: "Screen \<Rightarrow> int list" where
  "stops s = (case TabStops s of None \<Rightarrow> [] | Some t \<Rightarrow> sorted_list_of_set t)"

text \<open>
  \<open>sortedStops\<close> sorts the keys, which Go's map iteration delivers in any order, by exchanging
  every later smaller element into place.
\<close>

fun sortedStops_loop :: "nat \<Rightarrow> nat \<Rightarrow> nat \<Rightarrow> int list \<Rightarrow> int list" where
  "sortedStops_loop 0 i j values = values"
| "sortedStops_loop (Suc k) i j values =
     sortedStops_loop k i (Suc j)
       (if values ! j < values ! i then values[i := values ! j, j := values ! i] else values)"

fun sortedStops_outer :: "nat \<Rightarrow> nat \<Rightarrow> int list \<Rightarrow> int list" where
  "sortedStops_outer 0 i values = values"
| "sortedStops_outer (Suc k) i values =
     sortedStops_outer k (Suc i) (sortedStops_loop (length values - Suc i) i (Suc i) values)"

definition sortedStops :: "int list \<Rightarrow> int list" where
  "sortedStops values = sortedStops_outer (length values - 1) 0 values"

definition previous_stop :: "int list \<Rightarrow> int \<Rightarrow> int" where
  "previous_stop vs c = fold (\<lambda>stop prev. if stop < c \<and> stop > prev then stop else prev) vs 0"

definition CursorBackTab :: "int list \<Rightarrow> Screen \<Rightarrow> Screen" where
  "CursorBackTab params s0 =
    (let s = s0\<lparr>wrapNext := False\<rparr>
     in ((\<lambda>s. atCol (previous_stop (stops s) (col s)) s)
           ^^ nat (at_least_1 (first_param 1 params))) s)"

section \<open>Saving the cursor\<close>

definition saveCursorState :: "bool \<Rightarrow> Screen \<Rightarrow> Screen" where
  "saveCursorState saveMode s =
    (let modeOrigin = isModeSet s ModeDECOM;
         modeWrap = (if \<not> saveMode then False else isModeSet s ModeDECAWM)
     in s\<lparr>Savepoints := Savepoints s @
          [\<lparr>SpCursor = Cursor s, SpG0 = G0 s, SpG1 = G1 s, SpCharset = Charset s,
            SpOrigin = modeOrigin, SpWrap = modeWrap, SpWrapNext = wrapNext s,
            SpSavedCol = SavedColumns s\<rparr>]\<rparr>)"

definition SaveCursor :: "Screen \<Rightarrow> Screen" where
  "SaveCursor s = saveCursorState True s"

definition SaveCursorDEC :: "Screen \<Rightarrow> Screen" where
  "SaveCursorDEC s = saveCursorState False s"

section \<open>The invariant\<close>

lemma isModeSet_wrapNext [simp]: "isModeSet (s\<lparr>wrapNext := w\<rparr>) m = isModeSet s m"
  by (simp add: isModeSet_def)

lemma wf_if: "(b \<Longrightarrow> wf_screen x) \<Longrightarrow> (\<not> b \<Longrightarrow> wf_screen y) \<Longrightarrow> wf_screen (if b then x else y)"
  by simp

lemma CarriageReturn_wf [wf_intro]: "wf_screen s \<Longrightarrow> wf_screen (CarriageReturn s)"
  using wf_lrmm [of s] wf_Columns [of s]
  by (auto simp: CarriageReturn_def isModeSet_def Let_def intro!: wf_atCol)

lemma CursorUp_wf [wf_intro]:
  assumes wf: "wf_screen s"
  shows "wf_screen (CursorUp params s)"
proof -
  obtain tp bt where sr: "scrollRegion (s\<lparr>wrapNext := False\<rparr>) = (tp, bt)" by force
  have wf': "wf_screen (s\<lparr>wrapNext := False\<rparr>)" using wf by simp
  show ?thesis
    unfolding CursorUp_def Let_def sr prod.case
    using scrollRegion_bounds [OF wf' sr] wf_row [OF wf] at_least_1_pos [of "first_param 1 params"]
    by (intro wf_atRow wf') auto
qed

lemma CursorDown_wf [wf_intro]:
  assumes wf: "wf_screen s"
  shows "wf_screen (CursorDown params s)"
proof -
  obtain tp bt where sr: "scrollRegion (s\<lparr>wrapNext := False\<rparr>) = (tp, bt)" by force
  have wf': "wf_screen (s\<lparr>wrapNext := False\<rparr>)" using wf by simp
  show ?thesis
    unfolding CursorDown_def Let_def sr prod.case
    using scrollRegion_bounds [OF wf' sr] wf_row [OF wf] at_least_1_pos [of "first_param 1 params"]
    by (intro wf_atRow wf') auto
qed

lemma CursorUp1_wf [wf_intro]: "wf_screen s \<Longrightarrow> wf_screen (CursorUp1 params s)"
  by (simp add: CursorUp1_def CarriageReturn_wf CursorUp_wf)

lemma CursorDown1_wf [wf_intro]: "wf_screen s \<Longrightarrow> wf_screen (CursorDown1 params s)"
  by (simp add: CursorDown1_def CarriageReturn_wf CursorDown_wf)

lemma reverseWrap_wf:
  "wf_screen s \<Longrightarrow> 0 \<le> right \<Longrightarrow> right < Columns s \<Longrightarrow>
   wf_screen (reverseWrapToPreviousLine left right a b s)"
  by (auto simp: reverseWrapToPreviousLine_def Let_def split: prod.splits intro!: wf_atRow wf_atCol)

lemma moveLeft_step_wf:
  assumes "wf_screen s" "0 \<le> left" "left \<le> right" "right < Columns s"
  shows "wf_screen (moveLeft_step left right a b rw s)"
proof -
  have wf': "wf_screen (s\<lparr>wrapNext := False\<rparr>)" using assms(1) by simp
  show ?thesis
    unfolding moveLeft_step_def Let_def
    using assms wf' wf_col [OF assms(1)]
    by (intro wf_if wf_atCol reverseWrap_wf) simp_all
qed

lemma moveLeft_step_Columns [simp]: "Columns (moveLeft_step left right a b rw s) = Columns s"
  by (simp add: moveLeft_step_def reverseWrapToPreviousLine_def Let_def case_prod_unfold
      if_distrib [where f = Columns] cong: if_cong)

lemma moveLeft_wf: "wf_screen s \<Longrightarrow> wf_screen (moveLeft n rw s)"
proof -
  assume wf: "wf_screen s"
  obtain left right where lr: "horizontalMargins s = (left, right)" by force
  have "wf_screen ((moveLeft_step left right a b rw ^^ k) s) \<and>
        Columns ((moveLeft_step left right a b rw ^^ k) s) = Columns s" for k a b
    using wf horizontalMargins_bounds [OF wf lr] by (induction k) (auto intro!: moveLeft_step_wf)
  then show ?thesis by (simp add: moveLeft_def lr)
qed

lemma Backspace_wf [wf_intro]: "wf_screen s \<Longrightarrow> wf_screen (Backspace s)"
  by (simp add: Backspace_def moveLeft_wf)

lemma CursorBack_wf [wf_intro]: "wf_screen s \<Longrightarrow> wf_screen (CursorBack params s)"
  by (simp add: CursorBack_def moveLeft_wf)

lemma CursorForward_wf [wf_intro]:
  assumes wf: "wf_screen s"
  shows "wf_screen (CursorForward params s)"
proof -
  have wf': "wf_screen (s\<lparr>wrapNext := False\<rparr>)" using wf by simp
  obtain left right where lr: "horizontalMargins (s\<lparr>wrapNext := False\<rparr>) = (left, right)" by force
  note b = horizontalMargins_bounds [OF wf' lr]
  show ?thesis
    using wf b wf_col [OF wf] wf_Columns [OF wf] at_least_1_pos [of "first_param 1 params"]
    by (auto simp: CursorForward_def lr Let_def intro!: wf_atCol)
qed

lemma wf_but_cursor_wrapNext [simp]: "wf_but_cursor (s\<lparr>wrapNext := w\<rparr>) = wf_but_cursor s"
  by (simp add: wf_but_cursor_def wf_screen_def)

lemma CursorPosition_wf [wf_intro]: "wf_screen s \<Longrightarrow> wf_screen (CursorPosition params s)"
  by (auto simp: CursorPosition_def Let_def wf_but_cursorI intro!: ensure_wf split: option.splits)

lemma CursorToColumn_wf [wf_intro]: "wf_screen s \<Longrightarrow> wf_screen (CursorToColumn params s)"
proof -
  assume wf: "wf_screen s"
  have "wf_screen (ensureHB (atCol c (s\<lparr>wrapNext := False\<rparr>)))" for c
  proof (rule wf_but_cursor_wf)
    show "wf_but_cursor (ensureHB (atCol c (s\<lparr>wrapNext := False\<rparr>)))"
      using wf by (simp add: wf_but_cursorI)
  qed (use wf wf_row [OF wf] ensureHB_col [of "atCol c (s\<lparr>wrapNext := False\<rparr>)"] in
       \<open>simp_all add: wf_but_cursorI less_imp_le\<close>)
  then show ?thesis by (simp add: CursorToColumn_def Let_def)
qed

lemma CursorToColumnAbsolute_wf [wf_intro]:
  "wf_screen s \<Longrightarrow> wf_screen (CursorToColumnAbsolute params s)"
  using wf_Columns [of s] at_least_1_pos [of "first_param 1 params"]
  by (auto simp: CursorToColumnAbsolute_def Let_def intro!: wf_atCol)

lemma CursorToLine_wf [wf_intro]: "wf_screen s \<Longrightarrow> wf_screen (CursorToLine params s)"
proof -
  assume wf: "wf_screen s"
  have "wf_screen (ensureVB False (atRow r (s\<lparr>wrapNext := False\<rparr>)))" for r
  proof (rule wf_but_cursor_wf)
    show "wf_but_cursor (ensureVB False (atRow r (s\<lparr>wrapNext := False\<rparr>)))"
      using wf by (simp add: wf_but_cursorI)
  qed (use wf wf_col [OF wf] ensureVB_row [of "atRow r (s\<lparr>wrapNext := False\<rparr>)"] in
       \<open>simp_all add: wf_but_cursorI\<close>)
  then show ?thesis by (simp add: CursorToLine_def Let_def)
qed

lemma wf_Margins [simp, intro]:
  "wf_screen s \<Longrightarrow> (\<And>m. ms = Some m \<Longrightarrow> 0 \<le> Top m \<and> Top m < Bottom m \<and> Bottom m < Lines s) \<Longrightarrow>
   wf_screen (s\<lparr>Margins := ms\<rparr>)"
  by (simp add: wf_screen_def)

lemma wf_lr_margins [intro]:
  "wf_screen s \<Longrightarrow> 0 \<le> l \<Longrightarrow> l \<le> r \<Longrightarrow> r < Columns s \<Longrightarrow>
   wf_screen (s\<lparr>leftMargin := l, rightMargin := r\<rparr>)"
  by (simp add: wf_screen_def)

lemma clamp0: "1 \<le> (n::int) \<Longrightarrow> 0 \<le> maxInt 0 (minInt x (n - 1)) \<and> maxInt 0 (minInt x (n - 1)) < n"
  by (simp add: minInt_def maxInt_def)

lemma clamp1: "1 \<le> (n::int) \<Longrightarrow> 1 \<le> maxInt 1 (minInt x n) \<and> maxInt 1 (minInt x n) \<le> n"
  by (simp add: minInt_def maxInt_def)

lemma SetMargins_wf [wf_intro]:
  assumes wf: "wf_screen s"
  shows "wf_screen (SetMargins params s)"
proof -
  have "0 \<le> a \<Longrightarrow> 1 \<le> b - a \<Longrightarrow> b < Lines s \<Longrightarrow>
      wf_screen (CursorPosition [0, 0] (s\<lparr>Margins := Some \<lparr>Top = a, Bottom = b\<rparr>\<rparr>))" for a b
    using wf by (intro CursorPosition_wf wf_Margins) auto
  then show ?thesis
    unfolding SetMargins_def Let_def using wf clamp0 [OF wf_Lines [OF wf]]
    by (intro wf_if wf_Margins) (simp_all only: option.distinct simp_thms)
qed

lemma SetLeftRightMargins_wf [wf_intro]:
  assumes wf: "wf_screen s"
  shows "wf_screen (SetLeftRightMargins l r s)"
proof -
  have m: "1 \<le> a \<Longrightarrow> 1 \<le> b - a \<Longrightarrow> b \<le> Columns s \<Longrightarrow>
      wf_screen (CursorPosition [0, 0] (s\<lparr>leftMargin := a - 1, rightMargin := b - 1\<rparr>))" for a b
    using wf by (intro CursorPosition_wf wf_lr_margins) auto
  have full: "wf_screen (CursorPosition [0, 0] (s\<lparr>leftMargin := 0, rightMargin := Columns s - 1\<rparr>))"
    using wf wf_Columns [OF wf] by (intro CursorPosition_wf wf_lr_margins) auto
  show ?thesis
    unfolding SetLeftRightMargins_def Let_def using wf clamp1 [OF wf_Columns [OF wf]]
    by (intro wf_if m full) (simp_all only: simp_thms)
qed

lemma SetTabStop_wf: "wf_screen s \<Longrightarrow> returns wf_screen (SetTabStop s)"
  by (auto simp: SetTabStop_def wf_screen_def)

lemma ClearTabStop_wf [wf_intro]: "wf_screen s \<Longrightarrow> wf_screen (ClearTabStop how s)"
  by (auto simp: ClearTabStop_def wf_screen_def Let_def)

lemma previous_stop_bounds: "0 \<le> c \<Longrightarrow> 0 \<le> previous_stop vs c \<and> previous_stop vs c \<le> c"
proof -
  assume c: "0 \<le> c"
  have "0 \<le> p \<Longrightarrow> p \<le> c \<Longrightarrow>
    0 \<le> fold (\<lambda>stop prev. if stop < c \<and> stop > prev then stop else prev) vs p \<and>
    fold (\<lambda>stop prev. if stop < c \<and> stop > prev then stop else prev) vs p \<le> c" for p
    by (induction vs arbitrary: p) auto
  then show ?thesis using c by (simp add: previous_stop_def)
qed

lemma CursorBackTab_wf [wf_intro]: "wf_screen s \<Longrightarrow> wf_screen (CursorBackTab params s)"
proof -
  assume "wf_screen s"
  then have wf: "wf_screen (s\<lparr>wrapNext := False\<rparr>)" by simp
  have "wf_screen (((\<lambda>s. atCol (previous_stop (stops s) (col s)) s) ^^ k) (s\<lparr>wrapNext := False\<rparr>))" for k
  proof (induction k)
    case (Suc k)
    then show ?case
      using previous_stop_bounds [OF wf_col(1) [OF Suc]] wf_col(2) [OF Suc] order_trans
      by (auto intro!: wf_atCol)
  qed (use wf in simp)
  then show ?thesis by (simp add: CursorBackTab_def Let_def)
qed

lemma saveCursorState_wf [wf_intro]: "wf_screen s \<Longrightarrow> wf_screen (saveCursorState b s)"
  by (auto simp: saveCursorState_def wf_screen_def savepoint_ok_def)

lemma SaveCursor_wf [wf_intro]: "wf_screen s \<Longrightarrow> wf_screen (SaveCursor s)"
  by (simp add: SaveCursor_def saveCursorState_wf)

lemma SaveCursorDEC_wf [wf_intro]: "wf_screen s \<Longrightarrow> wf_screen (SaveCursorDEC s)"
  by (simp add: SaveCursorDEC_def saveCursorState_wf)

section \<open>What the cursor operations leave alone\<close>

text \<open>\<open>moves_cursor s t\<close>: \<open>t\<close> differs from \<open>s\<close> at most in the cursor and the pending-wrap flag.\<close>

definition moves_cursor :: "Screen \<Rightarrow> Screen \<Rightarrow> bool" where
  "moves_cursor s t \<longleftrightarrow> (\<exists>c w. t = s\<lparr>Cursor := c, wrapNext := w\<rparr>)"

named_theorems moves \<open>operations that only move the cursor\<close>

lemma moves_cursor_refl [moves]: "moves_cursor s s"
  unfolding moves_cursor_def by (intro exI [of _ "Cursor s"] exI [of _ "wrapNext s"]) simp

lemma moves_Cursor [moves]: "moves_cursor s t \<Longrightarrow> moves_cursor s (t\<lparr>Cursor := c\<rparr>)"
  unfolding moves_cursor_def by (elim exE, rule_tac x = c in exI, rule_tac x = w in exI) simp

lemma moves_wrapNext [moves]: "moves_cursor s t \<Longrightarrow> moves_cursor s (t\<lparr>wrapNext := w\<rparr>)"
  unfolding moves_cursor_def by (elim exE, rule_tac x = c in exI, rule_tac x = w in exI) simp

lemma moves_at [moves]:
  "moves_cursor s t \<Longrightarrow> moves_cursor s (atRow r t)" "moves_cursor s t \<Longrightarrow> moves_cursor s (atCol r t)"
  by (simp_all add: atRow_def atCol_def moves_Cursor)

lemma moves_if [moves]:
  "moves_cursor s t \<Longrightarrow> moves_cursor s u \<Longrightarrow> moves_cursor s (if b then t else u)"
  by simp

lemma moves_trans:
  assumes "moves_cursor s t" "moves_cursor t u"
  shows "moves_cursor s u"
proof -
  obtain c w c' w' where "t = s\<lparr>Cursor := c, wrapNext := w\<rparr>" "u = t\<lparr>Cursor := c', wrapNext := w'\<rparr>"
    using assms by (auto simp: moves_cursor_def)
  then have "u = s\<lparr>Cursor := c', wrapNext := w'\<rparr>" by simp
  then show ?thesis unfolding moves_cursor_def by blast
qed

lemma moves_funpow: "(\<And>t. moves_cursor s t \<Longrightarrow> moves_cursor s (f t)) \<Longrightarrow> moves_cursor s t \<Longrightarrow> moves_cursor s ((f ^^ n) t)"
  by (induction n) simp_all

lemma moves_ensure [moves]:
  "moves_cursor s t \<Longrightarrow> moves_cursor s (ensureHB t)" "moves_cursor s t \<Longrightarrow> moves_cursor s (ensureVB b t)"
  by (auto simp: ensureHB_def ensureVB_def Let_def intro!: moves split: prod.split option.split)

lemma moves_CursorPosition [moves]: "moves_cursor s t \<Longrightarrow> moves_cursor s (CursorPosition ps t)"
  by (auto simp: CursorPosition_def Let_def intro!: moves split: prod.split option.split)

lemma moves_CarriageReturn [moves]: "moves_cursor s t \<Longrightarrow> moves_cursor s (CarriageReturn t)"
  by (auto simp: CarriageReturn_def Let_def intro!: moves)

lemma CursorPosition_shape: "\<exists>c w. CursorPosition ps s = s\<lparr>Cursor := c, wrapNext := w\<rparr>"
  using moves_CursorPosition [OF moves_cursor_refl] by (simp add: moves_cursor_def)

lemma ensure_shape: "\<exists>c w. ensureVB b (ensureHB s) = s\<lparr>Cursor := c, wrapNext := w\<rparr>"
  using moves_ensure [OF moves_ensure(1) [OF moves_cursor_refl]] by (simp add: moves_cursor_def)

lemma CarriageReturn_shape: "\<exists>c w. CarriageReturn s = s\<lparr>Cursor := c, wrapNext := w\<rparr>"
  using moves_CarriageReturn [OF moves_cursor_refl] by (simp add: moves_cursor_def)

lemma moves_vertical [moves]:
  "moves_cursor s t \<Longrightarrow> moves_cursor s (CursorUp ps t)" "moves_cursor s t \<Longrightarrow> moves_cursor s (CursorDown ps t)"
  "moves_cursor s t \<Longrightarrow> moves_cursor s (CursorForward ps t)"
  "moves_cursor s t \<Longrightarrow> moves_cursor s (CursorToColumn ps t)"
  "moves_cursor s t \<Longrightarrow> moves_cursor s (CursorToColumnAbsolute ps t)"
  "moves_cursor s t \<Longrightarrow> moves_cursor s (CursorToLine ps t)"
  by (auto simp: CursorUp_def CursorDown_def CursorForward_def CursorToColumn_def
      CursorToColumnAbsolute_def CursorToLine_def Let_def intro!: moves split: prod.split option.split)

lemma moves_lines [moves]:
  "moves_cursor s t \<Longrightarrow> moves_cursor s (CursorUp1 ps t)" "moves_cursor s t \<Longrightarrow> moves_cursor s (CursorDown1 ps t)"
  by (simp_all add: CursorUp1_def CursorDown1_def moves)

lemma moves_moveLeft_step [moves]:
  "moves_cursor s t \<Longrightarrow> moves_cursor s (moveLeft_step left right a b rw t)"
  unfolding moveLeft_step_def Let_def reverseWrapToPreviousLine_def case_prod_unfold
  by (intro moves_if moves)

lemma moves_left [moves]:
  "moves_cursor s t \<Longrightarrow> moves_cursor s (moveLeft n rw t)" "moves_cursor s t \<Longrightarrow> moves_cursor s (Backspace t)"
  "moves_cursor s t \<Longrightarrow> moves_cursor s (CursorBack ps t)"
  by (auto simp: Backspace_def CursorBack_def moveLeft_def intro!: moves_funpow moves split: prod.split)

lemma moves_CursorBackTab [moves]: "moves_cursor s t \<Longrightarrow> moves_cursor s (CursorBackTab ps t)"
  by (simp add: CursorBackTab_def Let_def moves_funpow moves)

section \<open>The tab stop list is sorted\<close>

lemma sortedStops_loop_inv:
  "i < j \<Longrightarrow> j + k = length vs \<Longrightarrow>
   mset (sortedStops_loop k i j vs) = mset vs \<and>
   take i (sortedStops_loop k i j vs) = take i vs \<and>
   sortedStops_loop k i j vs ! i \<le> vs ! i \<and>
   (\<forall>m. i < m \<and> m < j \<longrightarrow> sortedStops_loop k i j vs ! m = vs ! m) \<and>
   (\<forall>m. j \<le> m \<and> m < length vs \<longrightarrow> sortedStops_loop k i j vs ! i \<le> sortedStops_loop k i j vs ! m)"
proof (induction k arbitrary: j vs)
  case 0
  then show ?case by simp
next
  case (Suc k)
  define ws where "ws = (if vs ! j < vs ! i then vs[i := vs ! j, j := vs ! i] else vs)"
  have len: "length ws = length vs" by (simp add: ws_def)
  have ms: "mset ws = mset vs"
    using Suc.prems by (simp add: ws_def mset_swap)
  have tk: "take i ws = take i vs"
    using Suc.prems by (simp add: ws_def)
  have wi: "ws ! i \<le> vs ! i" "ws ! i \<le> ws ! j"
    using Suc.prems by (auto simp: ws_def)
  have other: "ws ! m = vs ! m" if "m \<noteq> i" "m \<noteq> j" for m
    using that by (simp add: ws_def)
  let ?r = "sortedStops_loop k i (Suc j) ws"
  have IH: "mset ?r = mset ws \<and> take i ?r = take i ws \<and> ?r ! i \<le> ws ! i \<and>
    (\<forall>m. i < m \<and> m < Suc j \<longrightarrow> ?r ! m = ws ! m) \<and>
    (\<forall>m. Suc j \<le> m \<and> m < length ws \<longrightarrow> ?r ! i \<le> ?r ! m)"
    using Suc.prems len by (intro Suc.IH) auto
  have eq: "sortedStops_loop (Suc k) i j vs = ?r" by (simp add: ws_def)
  have "?r ! i \<le> ?r ! m" if "j \<le> m" "m < length vs" for m
  proof (cases "m = j")
    case True
    then have "?r ! m = ws ! j" using IH Suc.prems by simp
    then show ?thesis using IH wi by linarith
  next
    case False
    then show ?thesis using IH that len by simp
  qed
  moreover have "?r ! m = vs ! m" if "i < m" "m < j" for m
    using IH that other [of m] by simp
  ultimately show ?case unfolding eq using IH ms tk wi by auto
qed

lemma sortedStops_loop_length:
  "i < j \<Longrightarrow> j + k = length vs \<Longrightarrow> length (sortedStops_loop k i j vs) = length vs"
  using sortedStops_loop_inv mset_eq_length by blast

lemma sortedStops_outer_inv:
  "i + Suc k = length vs \<Longrightarrow> sorted (take i vs) \<Longrightarrow>
   \<forall>x \<in> set (take i vs). \<forall>y \<in> set (drop i vs). x \<le> y \<Longrightarrow>
   sorted (sortedStops_outer k i vs) \<and> mset (sortedStops_outer k i vs) = mset vs"
proof (induction k arbitrary: i vs)
  case 0
  then have "vs = take i vs @ [vs ! i]"
    by (metis Suc_eq_plus1 lessI take_Suc_conv_app_nth take_all_iff add.right_neutral add_Suc_right
        order_refl)
  moreover have "sorted (take i vs @ [vs ! i])"
    using 0 by (simp add: sorted_append Cons_nth_drop_Suc [symmetric])
  ultimately show ?case by simp
next
  case (Suc k)
  let ?w = "sortedStops_loop (length vs - Suc i) i (Suc i) vs"
  have i: "i < length vs" using Suc.prems by simp
  have inv: "mset ?w = mset vs" "take i ?w = take i vs"
    "\<And>m. Suc i \<le> m \<Longrightarrow> m < length vs \<Longrightarrow> ?w ! i \<le> ?w ! m"
    using sortedStops_loop_inv [of i "Suc i" "length vs - Suc i" vs] i by simp_all
  have len: "length ?w = length vs" using inv(1) mset_eq_length by blast
  have "mset (take i ?w) + mset (drop i ?w) = mset (take i vs) + mset (drop i vs)"
    using inv(1) by (simp only: mset_append [symmetric] append_take_drop_id)
  then have dr: "set (drop i ?w) = set (drop i vs)"
    using inv(2) by (metis add_left_cancel mset_eq_setD)
  have split: "drop i ?w = ?w ! i # drop (Suc i) ?w" "take (Suc i) ?w = take i ?w @ [?w ! i]"
    using i len by (simp_all add: Cons_nth_drop_Suc take_Suc_conv_app_nth)
  have min: "\<forall>y \<in> set (drop (Suc i) ?w). ?w ! i \<le> y"
    using inv(3) len by (auto simp: in_set_conv_nth)
  have old: "\<forall>x \<in> set (take i ?w). \<forall>y \<in> set (drop i ?w). x \<le> y"
    using Suc.prems(3) dr inv(2) by simp
  have "sorted (take (Suc i) ?w)"
    using Suc.prems(2) inv(2) old split by (simp add: sorted_append)
  moreover have "\<forall>x \<in> set (take (Suc i) ?w). \<forall>y \<in> set (drop (Suc i) ?w). x \<le> y"
    using min old split by auto
  ultimately have "sorted (sortedStops_outer k (Suc i) ?w) \<and>
      mset (sortedStops_outer k (Suc i) ?w) = mset ?w"
    using Suc.prems(1) len by (intro Suc.IH) auto
  then show ?case using inv(1) by simp
qed

lemma sortedStops_sorts: "sorted (sortedStops vs) \<and> mset (sortedStops vs) = mset vs"
proof (cases vs)
  case Nil
  then show ?thesis by (simp add: sortedStops_def)
next
  case (Cons v ws)
  then show ?thesis
    unfolding sortedStops_def by (intro sortedStops_outer_inv) auto
qed

lemma sortedStops_sort: "sortedStops vs = sort vs"
  using sortedStops_sorts [of vs] by (metis properties_for_sort)

end
