(* ===== verification/TeEdit.thy ===== *)
theory TeEdit
  imports TeCursor
begin

text \<open>
  The operations of \<open>pkg/te/screen.go\<close> that move cells: index and line feed, scrolling, insertion
  and deletion of lines, characters and columns, and the horizontal shifts. Every one is a loop of
  bounds-checked single-cell writes (\<open>get\<close>, \<open>put\<close>), as in the code; \<open>None\<close> is the panic of an index
  out of range.

  The lemmas \<open>*_paints\<close> give each operation on a well-formed screen a closed form: which cells
  change (\<open>paints D F\<close>), to what, and that it does not panic.
\<close>

section \<open>Writing the buffer\<close>

definition on_buffer :: "(Cell grid \<Rightarrow> Cell grid option) \<Rightarrow> Screen \<Rightarrow> Screen option" where
  "on_buffer f s = map_option (\<lambda>b. s\<lparr>Buffer := b\<rparr>) (f (Buffer s))"

definition blankLine :: "int \<Rightarrow> Cell \<Rightarrow> Cell list" where
  "blankLine cols cell = replicate (nat cols) cell"

definition makeBlankCells :: "int \<Rightarrow> int \<Rightarrow> Cell grid" where
  "makeBlankCells lines cols =
     replicate (nat lines) (blankLine cols \<lparr>Data = '' '', CellAttr = plainAttr False\<rparr>)"

text \<open>The loops of the row helpers; \<open>L\<close> and \<open>C\<close> are \<open>s.Lines\<close> and \<open>s.Columns\<close>.\<close>

definition copyRowSegment ::
  "int \<Rightarrow> int \<Rightarrow> int \<Rightarrow> int \<Rightarrow> int \<Rightarrow> int \<Rightarrow> Cell grid \<Rightarrow> Cell grid option" where
  "copyRowSegment L C srcRow dstRow left right g =
    (if srcRow < 0 \<or> srcRow \<ge> L \<or> dstRow < 0 \<or> dstRow \<ge> L then Some g
     else for_each (\<lambda>c g. if c < 0 then Some g else do { v \<leftarrow> get g srcRow c; put dstRow c v g })
            [left..minInt right (C - 1)] g)"

definition clearRowSegment ::
  "int \<Rightarrow> int \<Rightarrow> Cell \<Rightarrow> int \<Rightarrow> int \<Rightarrow> int \<Rightarrow> Cell grid \<Rightarrow> Cell grid option" where
  "clearRowSegment L C blank r left right g =
    (if r < 0 \<or> r \<ge> L then Some g
     else for_each (\<lambda>c g. if c < 0 then Some g else put r c blank g) [left..minInt right (C - 1)] g)"

text \<open>\<open>s.Buffer[row] = s.Buffer[src]\<close>\<close>

definition copyRow :: "int \<Rightarrow> int \<Rightarrow> Cell grid \<Rightarrow> Cell grid option" where
  "copyRow src dst g = do { x \<leftarrow> idx g src; upd g dst x }"

section \<open>Index and line feed\<close>

definition Index :: "Screen \<Rightarrow> Screen option" where
  "Index s0 =
    (let s = s0\<lparr>wrapNext := False\<rparr> in
     case scrollRegion s of (tp, bt) \<Rightarrow>
     if row s = bt then
       (if \<not> canScrollHorizontal s then Some s
        else
          (let s = markDirtyRange 0 (Lines s - 1) s in
           case horizontalMargins s of (left, right) \<Rightarrow>
           if left = 0 \<and> right = Columns s - 1 then
             on_buffer (\<lambda>g. do {
               g \<leftarrow> for_each (\<lambda>r. copyRow (r + 1) r) [tp..bt - 1] g;
               upd g bt (blankLine (Columns s) (defaultCell s)) }) s
           else
             on_buffer (\<lambda>g. do {
               g \<leftarrow> for_each (\<lambda>r. copyRowSegment (Lines s) (Columns s) (r + 1) r left right)
                     [tp..bt - 1] g;
               clearRowSegment (Lines s) (Columns s) (defaultCell s) bt left right g }) s))
     else if row s < bt then Some (atRow (row s + 1) s)
     else if row s < Lines s - 1 then Some (atRow (row s + 1) s)
     else Some s)"

definition ReverseIndex :: "Screen \<Rightarrow> Screen option" where
  "ReverseIndex s0 =
    (let s = s0\<lparr>wrapNext := False\<rparr> in
     case scrollRegion s of (tp, bt) \<Rightarrow>
     if row s = tp then
       (if \<not> canScrollHorizontal s then Some s
        else
          (let s = markDirtyRange 0 (Lines s - 1) s in
           case horizontalMargins s of (left, right) \<Rightarrow>
           if left = 0 \<and> right = Columns s - 1 then
             on_buffer (\<lambda>g. do {
               g \<leftarrow> for_each (\<lambda>r. copyRow (r - 1) r) (rev [tp + 1..bt]) g;
               upd g tp (blankLine (Columns s) (defaultCell s)) }) s
           else
             on_buffer (\<lambda>g. do {
               g \<leftarrow> for_each (\<lambda>r. copyRowSegment (Lines s) (Columns s) (r - 1) r left right)
                     (rev [tp + 1..bt]) g;
               clearRowSegment (Lines s) (Columns s) (defaultCell s) tp left right g }) s))
     else if row s > tp then Some (atRow (row s - 1) s)
     else if row s > 0 then Some (atRow (row s - 1) s)
     else Some s)"

text \<open>The vertical move of a cursor that may not scroll, shared by \<open>LineFeed\<close> and \<open>NextLine\<close>.\<close>

definition down_no_scroll :: "Screen \<Rightarrow> Screen" where
  "down_no_scroll s =
    (case scrollRegion s of (_, bt) \<Rightarrow>
       if row s < bt then atRow (row s + 1) s
       else if row s > bt \<and> row s < Lines s - 1 then atRow (row s + 1) s
       else s)"

definition LineFeed :: "Screen \<Rightarrow> Screen option" where
  "LineFeed s0 =
    (let s = s0\<lparr>wrapNext := False\<rparr> in do {
       s \<leftarrow> (if \<not> canScrollHorizontal s then Some (down_no_scroll s) else Index s);
       Some (if isModeSet s ModeLNM then CarriageReturn s else s) })"

definition next_stop :: "int list \<Rightarrow> int \<Rightarrow> int \<Rightarrow> int" where
  "next_stop vs c limit = (case find (\<lambda>stop. c < stop) vs of Some stop \<Rightarrow> stop | None \<Rightarrow> limit)"

definition Tab :: "Screen \<Rightarrow> Screen option" where
  "Tab s0 =
    (let keepWrap = wrapNext s0 \<and> \<not> isModeSet s0 ModeMoreFix in do {
       s \<leftarrow> (if wrapNext s0 \<and> isModeSet s0 ModeMoreFix
             then map_option CarriageReturn (LineFeed (s0\<lparr>wrapNext := False\<rparr>)) else Some s0);
       let limit = (if isModeSet s ModeDECLRMM then rightMargin s else Columns s - 1);
       let column = next_stop (sortedStops (stops s)) (col s) limit;
       let column = (if column > limit then limit else column);
       let s = atCol column s;
       Some (if \<not> keepWrap then s\<lparr>wrapNext := False\<rparr> else s) })"

definition CursorForwardTab :: "int list \<Rightarrow> Screen \<Rightarrow> Screen option" where
  "CursorForwardTab params s =
    for_each (\<lambda>_. Tab) [1..at_least_1 (first_param 1 params)] (s\<lparr>wrapNext := False\<rparr>)"

definition NextLine :: "Screen \<Rightarrow> Screen option" where
  "NextLine s0 =
    (let s = s0\<lparr>wrapNext := False\<rparr>;
         origCol = col s;
         s = CarriageReturn s
     in case horizontalMargins s of (left, right) \<Rightarrow>
        if isModeSet s ModeDECLRMM \<and> (origCol < left \<or> origCol > right)
        then Some (down_no_scroll s)
        else Index s)"

section \<open>Scrolling\<close>

definition ScrollUp :: "int list \<Rightarrow> Screen \<Rightarrow> Screen option" where
  "ScrollUp params s =
    (let count = at_least_1 (first_param 1 params) in
     case scrollRegion s of (tp, bt) \<Rightarrow>
     let count = (if count > bt - tp + 1 then bt - tp + 1 else count) in
     case horizontalMargins s of (left, right) \<Rightarrow>
     let s = markDirtyRange tp bt s in
     on_buffer (for_each (\<lambda>_ g. do {
         g \<leftarrow> for_each (\<lambda>r. copyRowSegment (Lines s) (Columns s) (r + 1) r left right) [tp..bt - 1] g;
         clearRowSegment (Lines s) (Columns s) (defaultCell s) bt left right g })
       [1..count]) s)"

definition ScrollDown :: "int list \<Rightarrow> Screen \<Rightarrow> Screen option" where
  "ScrollDown params s =
    (let count = at_least_1 (first_param 1 params) in
     case scrollRegion s of (tp, bt) \<Rightarrow>
     let count = (if count > bt - tp + 1 then bt - tp + 1 else count) in
     case horizontalMargins s of (left, right) \<Rightarrow>
     let s = markDirtyRange tp bt s in
     on_buffer (for_each (\<lambda>_ g. do {
         g \<leftarrow> for_each (\<lambda>r. copyRowSegment (Lines s) (Columns s) (r - 1) r left right)
               (rev [tp + 1..bt]) g;
         clearRowSegment (Lines s) (Columns s) (defaultCell s) tp left right g })
       [1..count]) s)"

section \<open>Lines\<close>

definition InsertLines :: "int list \<Rightarrow> Screen \<Rightarrow> Screen option" where
  "InsertLines params s =
    (let count = at_least_1 (first_param 1 params) in
     case scrollRegion s of (tp, bt) \<Rightarrow>
     if row s < tp \<or> row s > bt then Some s
     else case horizontalMargins s of (left, right) \<Rightarrow>
     if isModeSet s ModeDECLRMM \<and> (col s < left \<or> col s > right) then Some s
     else
       (let s = markDirtyRange (row s) (Lines s - 1) s;
            count = (if count > bt - row s + 1 then bt - row s + 1 else count) in do {
          s \<leftarrow> on_buffer (for_each (\<lambda>r g. do {
                 g \<leftarrow> (if r + count \<le> bt
                       then copyRowSegment (Lines s) (Columns s) r (r + count) left right g
                       else Some g);
                 clearRowSegment (Lines s) (Columns s) (defaultCell s) r left right g })
               (rev [row s..bt])) s;
          Some (CarriageReturn s) }))"

definition DeleteLines :: "int list \<Rightarrow> Screen \<Rightarrow> Screen option" where
  "DeleteLines params s =
    (let count = at_least_1 (first_param 1 params) in
     case scrollRegion s of (tp, bt) \<Rightarrow>
     if row s < tp \<or> row s > bt then Some s
     else case horizontalMargins s of (left, right) \<Rightarrow>
     if isModeSet s ModeDECLRMM \<and> (col s < left \<or> col s > right) then Some s
     else
       (let s = markDirtyRange (row s) (Lines s - 1) s;
            count = (if count > bt - row s + 1 then bt - row s + 1 else count) in do {
          s \<leftarrow> on_buffer (for_each (\<lambda>r g.
                 if r + count \<le> bt
                 then copyRowSegment (Lines s) (Columns s) (r + count) r left right g
                 else clearRowSegment (Lines s) (Columns s) (defaultCell s) r left right g)
               [row s..bt]) s;
          Some (CarriageReturn s) }))"

section \<open>Characters and columns\<close>

text \<open>The two loops over one row that open or close a gap of \<open>count\<close> cells at \<open>c0\<close>.\<close>

definition openGap :: "int \<Rightarrow> int \<Rightarrow> int \<Rightarrow> Cell \<Rightarrow> int \<Rightarrow> Cell grid \<Rightarrow> Cell grid option" where
  "openGap c0 right n blank r g = do {
     g \<leftarrow> for_each (\<lambda>c g. do { v \<leftarrow> get g r (c - n); put r c v g }) (rev [c0 + n..right]) g;
     for_each (\<lambda>c. put r c blank) [c0..minInt (c0 + n - 1) right] g }"

definition closeGap :: "int \<Rightarrow> int \<Rightarrow> int \<Rightarrow> Cell \<Rightarrow> int \<Rightarrow> Cell grid \<Rightarrow> Cell grid option" where
  "closeGap c0 right n blank r g = do {
     g \<leftarrow> for_each (\<lambda>c g. do { v \<leftarrow> get g r (c + n); put r c v g }) [c0..right - n] g;
     for_each (\<lambda>c. put r c blank) [right - n + 1..right] g }"

definition InsertCharacters :: "int list \<Rightarrow> Screen \<Rightarrow> Screen option" where
  "InsertCharacters params s =
    (let count = at_least_1 (first_param 1 params) in
     case horizontalMargins s of (left, right) \<Rightarrow>
     if col s < left \<or> col s > right then Some s
     else case scrollRegion s of (tp, bt) \<Rightarrow>
     if isModeSet s ModeDECLRMM \<and> (row s < tp \<or> row s > bt) then Some s
     else
       (let maxCount = right - col s + 1;
            count = (if count > maxCount then maxCount else count) in
        if count \<le> 0 then Some s
        else on_buffer (openGap (col s) right count (defaultCell s) (row s)) (markDirty (row s) s)))"

definition DeleteCharacters :: "int list \<Rightarrow> Screen \<Rightarrow> Screen option" where
  "DeleteCharacters params s =
    (let count = at_least_1 (first_param 1 params) in
     case horizontalMargins s of (left, right) \<Rightarrow>
     if col s < left \<or> col s > right then Some s
     else case scrollRegion s of (tp, bt) \<Rightarrow>
     if isModeSet s ModeDECLRMM \<and> (row s < tp \<or> row s > bt) then Some s
     else
       (let maxCount = right - col s + 1;
            count = (if count > maxCount then maxCount else count) in
        if count \<le> 0 then Some s
        else on_buffer (closeGap (col s) right count (defaultCell s) (row s)) (markDirty (row s) s)))"

definition InsertColumns :: "int \<Rightarrow> Screen \<Rightarrow> Screen option" where
  "InsertColumns count0 s =
    (let count = at_least_1 count0 in
     case scrollRegion s of (tp, bt) \<Rightarrow>
     case horizontalMargins s of (left, right) \<Rightarrow>
     if row s < tp \<or> row s > bt then Some s
     else if isModeSet s ModeDECLRMM \<and> (col s < left \<or> col s > right) then Some s
     else if right < left then Some s
     else
       (let count = (if count > right - col s + 1 then right - col s + 1 else count);
            s = markDirtyRange tp bt s in
        on_buffer (for_each (openGap (col s) right count (defaultCell s)) [tp..bt]) s))"

definition DeleteColumns :: "int \<Rightarrow> Screen \<Rightarrow> Screen option" where
  "DeleteColumns count0 s =
    (let count = at_least_1 count0 in
     case scrollRegion s of (tp, bt) \<Rightarrow>
     case horizontalMargins s of (left, right) \<Rightarrow>
     if row s < tp \<or> row s > bt then Some s
     else if isModeSet s ModeDECLRMM \<and> (col s < left \<or> col s > right) then Some s
     else if right < left then Some s
     else
       (let count = (if count > right - col s + 1 then right - col s + 1 else count);
            s = markDirtyRange tp bt s in
        on_buffer (for_each (closeGap (col s) right count (defaultCell s)) [tp..bt]) s))"

definition shiftHorizontal :: "int \<Rightarrow> int \<Rightarrow> int \<Rightarrow> int \<Rightarrow> int \<Rightarrow> Screen \<Rightarrow> Screen option" where
  "shiftHorizontal left0 right0 tp bt direction s =
    (let left = (if left0 < 0 then 0 else left0);
         right = (if right0 \<ge> Columns s then Columns s - 1 else right0) in
     if left > right then Some s
     else on_buffer (for_each (\<lambda>r g.
         if r < 0 then Some g
         else if direction < 0 then do {
           g \<leftarrow> for_each (\<lambda>c g. do { v \<leftarrow> get g r (c + 1); put r c v g }) [left..right - 1] g;
           put r right (defaultCell s) g }
         else do {
           g \<leftarrow> for_each (\<lambda>c g. do { v \<leftarrow> get g r (c - 1); put r c v g }) (rev [left + 1..right]) g;
           put r left (defaultCell s) g })
       [tp..minInt bt (Lines s - 1)]) s)"

definition ForwardIndex :: "Screen \<Rightarrow> Screen option" where
  "ForwardIndex s =
    (case horizontalMargins s of (left, right) \<Rightarrow>
     case scrollRegion s of (tp, bt) \<Rightarrow>
     if isModeSet s ModeDECLRMM \<and> (col s < left \<or> col s > right)
     then Some (if col s < Columns s - 1 then atCol (col s + 1) s else s)
     else if col s < right then Some (atCol (col s + 1) s)
     else shiftHorizontal left right tp bt (-1) s)"

definition BackIndex :: "Screen \<Rightarrow> Screen option" where
  "BackIndex s =
    (case horizontalMargins s of (left, right) \<Rightarrow>
     case scrollRegion s of (tp, bt) \<Rightarrow>
     if isModeSet s ModeDECLRMM \<and> (col s < left \<or> col s > right)
     then Some (if col s > 0 then atCol (col s - 1) s else s)
     else if col s > left then Some (atCol (col s - 1) s)
     else shiftHorizontal left right tp bt 1 s)"

section \<open>Closed forms of the loops\<close>

lemma copyRowSegment_painted:
  assumes g: "grid_ok L C g" and src: "0 \<le> src" "src < L" and dst: "0 \<le> dst" "dst < L"
    and k: "0 \<le> left" "right < C"
  shows "returns (painted L C ({dst} \<times> {left..right}) (\<lambda>r c. cell_at g (src + (r - dst)) c) g)
           (copyRowSegment L C src dst left right g)"
proof -
  have "returns (painted L C (\<Union>c \<in> set [left..right]. {(dst, c)}) (\<lambda>r c. cell_at g (src + (r - dst)) c) g)
     (for_each (\<lambda>c g. if c < 0 then Some g else do { v \<leftarrow> get g src c; put dst c v g })
       [left..right] g)"
  proof (rule for_each_painted [OF g])
    fix pre x post and h :: "Cell grid"
    assume xs: "[left..right] = pre @ x # post" and h: "grid_ok L C h"
      and p: "painted L C (\<Union>y \<in> set pre. {(dst, y)}) (\<lambda>r c. cell_at g (src + (r - dst)) c) g h"
    have x: "left \<le> x" "x \<le> right" and pre: "set pre = {left..x - 1}"
      using sorted_prefix_upto [OF xs] by auto
    have ins: "inside L C src x" "inside L C dst x" using src dst k x by (auto simp: inside_def)
    have "cell_at h src x = cell_at g src x"
      using painted_cell [OF p ins(1)] pre by auto
    then show "returns (painted L C {(dst, x)} (\<lambda>r c. cell_at g (src + (r - dst)) c) h)
        (if x < 0 then Some h else do { v \<leftarrow> get h src x; put dst x v h })"
      using k x ins h by (simp add: slice_simps painted_gset)
  qed
  moreover have "(\<Union>c \<in> set [left..right]. {(dst, c)}) = {dst} \<times> {left..right}" by auto
  ultimately show ?thesis
    using src dst k by (simp add: copyRowSegment_def min_absorb1)
qed

lemma clearRowSegment_painted:
  fixes blank :: Cell
  assumes g: "grid_ok L C g" and r: "0 \<le> r" "r < L" and k: "0 \<le> left" "right < C"
  shows "returns (painted L C ({r} \<times> {left..right}) (\<lambda>r c. blank) g)
           (clearRowSegment L C blank r left right g)"
proof -
  have "returns (painted L C (\<Union>c \<in> set [left..right]. {(r, c)}) (\<lambda>r c. blank) g)
     (for_each (\<lambda>c g. if c < 0 then Some g else put r c blank g) [left..right] g)"
  proof (rule for_each_painted [OF g])
    fix pre x post and h :: "Cell grid"
    assume xs: "[left..right] = pre @ x # post" and h: "grid_ok L C h"
    have "left \<le> x" "x \<le> right" using sorted_prefix_upto [OF xs] by auto
    then show "returns (painted L C {(r, x)} (\<lambda>r c. blank) h) (if x < 0 then Some h else put r x blank h)"
      using r k h by (simp add: slice_simps painted_gset inside_def)
  qed
  moreover have "(\<Union>c \<in> set [left..right]. {(r, c)}) = {r} \<times> {left..right}" by auto
  ultimately show ?thesis
    using r k by (simp add: clearRowSegment_def min_absorb1)
qed

text \<open>Rows moved up or down by \<open>n\<close>, in the order that reads a row before it is overwritten.\<close>

lemma rows_up_painted:
  assumes g: "grid_ok L C g" and n: "0 < n" "0 \<le> a" "b + n < L"
    and f: "\<And>r h. a \<le> r \<Longrightarrow> r \<le> b \<Longrightarrow> grid_ok L C h \<Longrightarrow>
        returns (painted L C ({r} \<times> K) (\<lambda>r' c. cell_at h (r + n + (r' - r)) c) h) (f r h)"
  shows "returns (painted L C ({a..b} \<times> K) (\<lambda>r c. cell_at g (r + n) c) g) (for_each f [a..b] g)"
proof -
  have "returns (painted L C (\<Union>r \<in> set [a..b]. {r} \<times> K) (\<lambda>r c. cell_at g (r + n) c) g)
     (for_each f [a..b] g)"
  proof (rule for_each_painted [OF g])
    fix pre x post and h :: "'a grid"
    assume xs: "[a..b] = pre @ x # post" and h: "grid_ok L C h"
      and p: "painted L C (\<Union>y \<in> set pre. {y} \<times> K) (\<lambda>r c. cell_at g (r + n) c) g h"
    have x: "a \<le> x" "x \<le> b" and pre: "set pre = {a..x - 1}"
      using sorted_prefix_upto [OF xs] by auto
    have "cell_at h (x + n) c = cell_at g (x + n) c" if "0 \<le> c" "c < C" for c
      using painted_cell [OF p, of "x + n" c] that pre x n by (auto simp: inside_def)
    then show "returns (painted L C ({x} \<times> K) (\<lambda>r c. cell_at g (r + n) c) h) (f x h)"
      using x h by (intro returns_mono [OF f [of x h]])
        (auto elim!: painted_cong simp: inside_def add.commute [of n x])
  qed
  moreover have "(\<Union>r \<in> set [a..b]. {r} \<times> K) = {a..b} \<times> K" by auto
  ultimately show ?thesis by simp
qed

lemma rows_down_painted:
  assumes g: "grid_ok L C g" and n: "0 < n" "n \<le> a" "b < L"
    and f: "\<And>r h. a \<le> r \<Longrightarrow> r \<le> b \<Longrightarrow> grid_ok L C h \<Longrightarrow>
        returns (painted L C ({r} \<times> K) (\<lambda>r' c. cell_at h (r - n + (r' - r)) c) h) (f r h)"
  shows "returns (painted L C ({a..b} \<times> K) (\<lambda>r c. cell_at g (r - n) c) g) (for_each f (rev [a..b]) g)"
proof -
  have "returns (painted L C (\<Union>r \<in> set (rev [a..b]). {r} \<times> K) (\<lambda>r c. cell_at g (r - n) c) g)
     (for_each f (rev [a..b]) g)"
  proof (rule for_each_painted [OF g])
    fix pre x post and h :: "'a grid"
    assume xs: "rev [a..b] = pre @ x # post" and h: "grid_ok L C h"
      and p: "painted L C (\<Union>y \<in> set pre. {y} \<times> K) (\<lambda>r c. cell_at g (r - n) c) g h"
    have x: "a \<le> x" "x \<le> b" and pre: "set pre = {x + 1..b}"
      using sorted_prefix_rev_upto [OF xs] by auto
    have "cell_at h (x - n) c = cell_at g (x - n) c" if "0 \<le> c" "c < C" for c
      using painted_cell [OF p, of "x - n" c] that pre x n by (auto simp: inside_def)
    then show "returns (painted L C ({x} \<times> K) (\<lambda>r c. cell_at g (r - n) c) h) (f x h)"
      using x h by (intro returns_mono [OF f [of x h]]) (auto elim!: painted_cong simp: inside_def)
  qed
  moreover have "(\<Union>r \<in> set (rev [a..b]). {r} \<times> K) = {a..b} \<times> K" by auto
  ultimately show ?thesis by simp
qed

lemma copyRow_painted:
  assumes g: "grid_ok L C g" and src: "0 \<le> src" "src < L" and dst: "0 \<le> dst" "dst < L"
  shows "returns (painted L C ({dst} \<times> {0..C - 1}) (\<lambda>r c. cell_at g (src + (r - dst)) c) g)
           (copyRow src dst g)"
proof -
  have "painted L C ({dst} \<times> {0..<C}) (\<lambda>r c. cell_at g (src + (r - dst)) c) g (g[nat dst := g ! nat src])"
    using assms grid_ok_row [OF g src] by (intro painted_row) (auto simp: cell_at_def)
  moreover have "{0..<C} = {0..C - 1}" by auto
  ultimately show ?thesis
    using g src dst by (simp add: copyRow_def slice_simps)
qed

lemma blankLine_painted:
  assumes g: "grid_ok L C g" and r: "0 \<le> r" "r < L" "0 \<le> C"
  shows "returns (painted L C ({r} \<times> {0..C - 1}) (\<lambda>r c. blank) g) (upd g r (blankLine C blank))"
proof -
  have "painted L C ({r} \<times> {0..<C}) (\<lambda>r c. blank) g (g[nat r := blankLine C blank])"
    using assms by (intro painted_row) (auto simp: blankLine_def)
  moreover have "{0..<C} = {0..C - 1}" by auto
  ultimately show ?thesis
    using g r by (simp add: slice_simps)
qed

text \<open>One line up and one line down, over either way of copying a row and blanking the last.\<close>

definition up_by :: "int \<Rightarrow> int \<Rightarrow> 'c \<Rightarrow> 'c grid \<Rightarrow> int \<Rightarrow> int \<Rightarrow> 'c" where
  "up_by n bt blank g r c = (if r + n \<le> bt then cell_at g (r + n) c else blank)"

definition down_by :: "int \<Rightarrow> int \<Rightarrow> 'c \<Rightarrow> 'c grid \<Rightarrow> int \<Rightarrow> int \<Rightarrow> 'c" where
  "down_by n tp blank g r c = (if tp \<le> r - n then cell_at g (r - n) c else blank)"

lemma one_up_painted:
  assumes g: "grid_ok L C g" and reg: "0 \<le> tp" "tp \<le> bt" "bt < L"
    and cp: "\<And>r h. tp \<le> r \<Longrightarrow> r < bt \<Longrightarrow> grid_ok L C h \<Longrightarrow>
        returns (painted L C ({r} \<times> K) (\<lambda>r' c. cell_at h (r + 1 + (r' - r)) c) h) (cp r h)"
    and cl: "\<And>h. grid_ok L C h \<Longrightarrow> returns (painted L C ({bt} \<times> K) (\<lambda>r c. blank) h) (cl h)"
  shows "returns (painted L C ({tp..bt} \<times> K) (up_by 1 bt blank g) g)
           (for_each cp [tp..bt - 1] g \<bind> cl)"
proof (rule returns_bind)
  show "returns (painted L C ({tp..bt - 1} \<times> K) (\<lambda>r c. cell_at g (r + 1) c) g) (for_each cp [tp..bt - 1] g)"
    using reg g cp by (intro rows_up_painted) auto
next
  fix h assume h: "painted L C ({tp..bt - 1} \<times> K) (\<lambda>r c. cell_at g (r + 1) c) g h"
  show "returns (painted L C ({tp..bt} \<times> K) (up_by 1 bt blank g) g) (cl h)"
    using reg h by (intro returns_mono [OF cl [OF painted_grid [OF h]]])
      (auto simp: painted_def up_by_def)
qed

lemma one_down_painted:
  assumes g: "grid_ok L C g" and reg: "0 \<le> tp" "tp \<le> bt" "bt < L"
    and cp: "\<And>r h. tp < r \<Longrightarrow> r \<le> bt \<Longrightarrow> grid_ok L C h \<Longrightarrow>
        returns (painted L C ({r} \<times> K) (\<lambda>r' c. cell_at h (r - 1 + (r' - r)) c) h) (cp r h)"
    and cl: "\<And>h. grid_ok L C h \<Longrightarrow> returns (painted L C ({tp} \<times> K) (\<lambda>r c. blank) h) (cl h)"
  shows "returns (painted L C ({tp..bt} \<times> K) (down_by 1 tp blank g) g)
           (for_each cp (rev [tp + 1..bt]) g \<bind> cl)"
proof (rule returns_bind)
  show "returns (painted L C ({tp + 1..bt} \<times> K) (\<lambda>r c. cell_at g (r - 1) c) g)
          (for_each cp (rev [tp + 1..bt]) g)"
    using reg g cp by (intro rows_down_painted) auto
next
  fix h assume h: "painted L C ({tp + 1..bt} \<times> K) (\<lambda>r c. cell_at g (r - 1) c) g h"
  show "returns (painted L C ({tp..bt} \<times> K) (down_by 1 tp blank g) g) (cl h)"
    using reg h by (intro returns_mono [OF cl [OF painted_grid [OF h]]])
      (auto simp: painted_def down_by_def)
qed

text \<open>Repeating the one-line scroll \<open>n\<close> times scrolls by \<open>n\<close>.\<close>

lemma scroll_up_painted:
  assumes g: "grid_ok L C g" and reg: "0 \<le> tp" "bt < L" and K: "K \<subseteq> {0..<C}"
    and one: "\<And>h. grid_ok L C h \<Longrightarrow>
        returns (painted L C ({tp..bt} \<times> K) (up_by 1 bt blank h) h) (one h)"
  shows "returns (painted L C ({tp..bt} \<times> K) (up_by (max 0 n) bt blank g) g) (for_each (\<lambda>_. one) [1..n] g)"
proof -
  have "returns (painted L C ({tp..bt} \<times> K) (up_by (int (length [1..n])) bt blank g) g)
          (for_each (\<lambda>_. one) [1..n] g)"
  proof (rule returns_for_each_prefix
      [where I = "\<lambda>pre. painted L C ({tp..bt} \<times> K) (up_by (int (length pre)) bt blank g) g"])
    show "painted L C ({tp..bt} \<times> K) (up_by (int (length [])) bt blank g) g g"
      using g by (auto simp: painted_def up_by_def)
  next
    fix pre x post and h :: "'a grid"
    assume h: "painted L C ({tp..bt} \<times> K) (up_by (int (length pre)) bt blank g) g h"
    show "returns (painted L C ({tp..bt} \<times> K) (up_by (int (length (pre @ [x]))) bt blank g) g) (one h)"
      using h reg K by (intro returns_mono [OF one [OF painted_grid [OF h]]])
        (auto simp: painted_def up_by_def inside_def ac_simps)
  qed
  then show ?thesis by (simp add: max_def split: if_split_asm)
qed

lemma scroll_down_painted:
  assumes g: "grid_ok L C g" and reg: "0 \<le> tp" "bt < L" and K: "K \<subseteq> {0..<C}"
    and one: "\<And>h. grid_ok L C h \<Longrightarrow>
        returns (painted L C ({tp..bt} \<times> K) (down_by 1 tp blank h) h) (one h)"
  shows "returns (painted L C ({tp..bt} \<times> K) (down_by (max 0 n) tp blank g) g) (for_each (\<lambda>_. one) [1..n] g)"
proof -
  have "returns (painted L C ({tp..bt} \<times> K) (down_by (int (length [1..n])) tp blank g) g)
          (for_each (\<lambda>_. one) [1..n] g)"
  proof (rule returns_for_each_prefix
      [where I = "\<lambda>pre. painted L C ({tp..bt} \<times> K) (down_by (int (length pre)) tp blank g) g"])
    show "painted L C ({tp..bt} \<times> K) (down_by (int (length [])) tp blank g) g g"
      using g by (auto simp: painted_def down_by_def)
  next
    fix pre x post and h :: "'a grid"
    assume h: "painted L C ({tp..bt} \<times> K) (down_by (int (length pre)) tp blank g) g h"
    show "returns (painted L C ({tp..bt} \<times> K) (down_by (int (length (pre @ [x]))) tp blank g) g) (one h)"
      using h reg K by (intro returns_mono [OF one [OF painted_grid [OF h]]])
        (auto simp: painted_def down_by_def inside_def diff_diff_eq)
  qed
  then show ?thesis by (simp add: max_def split: if_split_asm)
qed

lemma delete_lines_painted:
  assumes g: "grid_ok L C g" and n: "1 \<le> n" and reg: "0 \<le> a" "bt < L" and k: "0 \<le> left" "right < C"
  shows "returns (painted L C ({a..bt} \<times> {left..right}) (up_by n bt blank g) g)
     (for_each (\<lambda>r g. if r + n \<le> bt then copyRowSegment L C (r + n) r left right g
                    else clearRowSegment L C blank r left right g) [a..bt] g)"
proof -
  let ?f = "\<lambda>r g. if r + n \<le> bt then copyRowSegment L C (r + n) r left right g
                 else clearRowSegment L C blank r left right g"
  let ?K = "{left..right}"
  have "returns (painted L C (\<Union>r \<in> set [a..bt]. {r} \<times> ?K) (up_by n bt blank g) g) (for_each ?f [a..bt] g)"
  proof (rule for_each_painted [OF g])
    fix pre x post and h :: "Cell grid"
    assume xs: "[a..bt] = pre @ x # post" and h: "grid_ok L C h"
      and p: "painted L C (\<Union>r \<in> set pre. {r} \<times> ?K) (up_by n bt blank g) g h"
    have x: "a \<le> x" "x \<le> bt" and pre: "set pre = {a..x - 1}"
      using sorted_prefix_upto [OF xs] by auto
    show "returns (painted L C ({x} \<times> ?K) (up_by n bt blank g) h) (?f x h)"
    proof (cases "x + n \<le> bt")
      case True
      have old: "cell_at h (x + n) c = cell_at g (x + n) c" if "0 \<le> c" "c < C" for c
        using painted_cell [OF p, of "x + n" c] that pre x n reg True by (auto simp: inside_def)
      have "0 \<le> x + n" "x + n < L" "0 \<le> x" "x < L" using True x n reg by auto
      from copyRowSegment_painted [OF h this k] show ?thesis
        using True old
        by (auto elim!: returns_mono painted_cong simp: inside_def up_by_def add.commute [of n x])
    next
      case False
      have "0 \<le> x" "x < L" using x reg by auto
      from clearRowSegment_painted [OF h this k, of blank] show ?thesis
        using False by (auto elim!: returns_mono painted_cong simp: up_by_def)
    qed
  qed
  moreover have "(\<Union>r \<in> set [a..bt]. {r} \<times> ?K) = {a..bt} \<times> ?K" by auto
  ultimately show ?thesis by simp
qed

lemma insert_lines_painted:
  assumes g: "grid_ok L C g" and n: "1 \<le> n" and reg: "0 \<le> a" "a \<le> bt" "bt < L"
    and k: "0 \<le> left" "right < C"
  shows "returns (painted L C ({a..bt} \<times> {left..right}) (down_by n a blank g) g)
     (for_each (\<lambda>r g. do {
        g \<leftarrow> (if r + n \<le> bt then copyRowSegment L C r (r + n) left right g else Some g);
        clearRowSegment L C blank r left right g }) (rev [a..bt]) g)"
proof -
  let ?K = "{left..right}"
  let ?F = "\<lambda>x r c. if x < r - n then cell_at g (r - n) c else blank"
  let ?I = "\<lambda>pre. painted L C ({bt - int (length pre) + 1..bt} \<times> ?K) (?F (bt - int (length pre))) g"
  have "returns (?I (rev [a..bt])) (for_each (\<lambda>r g. do {
        g \<leftarrow> (if r + n \<le> bt then copyRowSegment L C r (r + n) left right g else Some g);
        clearRowSegment L C blank r left right g }) (rev [a..bt]) g)"
  proof (rule returns_for_each_prefix)
    show "?I [] g" using g by (auto simp: painted_def)
  next
    fix pre x post and h :: "Cell grid"
    assume xs: "rev [a..bt] = pre @ x # post" and h: "?I pre h"
    have x: "a \<le> x" "x \<le> bt" and len: "bt - int (length pre) = x"
      using sorted_prefix_rev_upto [OF xs] rev_upto_prefix_length [OF xs] by auto
    have hok: "grid_ok L C h" and old: "\<And>c. 0 \<le> c \<Longrightarrow> c < C \<Longrightarrow> cell_at h x c = cell_at g x c"
      using painted_grid [OF h] painted_cell [OF h, of x] x reg len by (auto simp: inside_def)
    have copied: "returns (painted L C ({x + 1..bt} \<times> ?K) (?F (x - 1)) g)
        (if x + n \<le> bt then copyRowSegment L C x (x + n) left right h else Some h)"
    proof (cases "x + n \<le> bt")
      case True
      have "0 \<le> x" "x < L" "0 \<le> x + n" "x + n < L" using True x n reg by auto
      from copyRowSegment_painted [OF hok this k] show ?thesis
        using True old h n by (auto simp: painted_def inside_def len elim!: returns_mono)
    next
      case False
      then show ?thesis using h n by (auto simp: painted_def len)
    qed
    have "returns (painted L C ({x..bt} \<times> ?K) (?F (x - 1)) g)
        (clearRowSegment L C blank x left right h1)"
      if h1: "painted L C ({x + 1..bt} \<times> ?K) (?F (x - 1)) g h1" for h1
    proof -
      have "0 \<le> x" "x < L" using x reg by auto
      from clearRowSegment_painted [OF painted_grid [OF h1] this k, of blank] show ?thesis
        using h1 n x by (auto simp: painted_def elim!: returns_mono)
    qed
    then have "returns (painted L C ({x..bt} \<times> ?K) (?F (x - 1)) g)
       ((if x + n \<le> bt then copyRowSegment L C x (x + n) left right h else Some h)
         \<bind> clearRowSegment L C blank x left right)"
      by (rule returns_bind [OF copied])
    moreover have "bt - int (length (pre @ [x])) = x - 1" using len by simp
    then have "?I (pre @ [x]) = painted L C ({x..bt} \<times> ?K) (?F (x - 1)) g"
      by (simp only: diff_add_cancel)
    ultimately show "returns (?I (pre @ [x]))
       ((if x + n \<le> bt then copyRowSegment L C x (x + n) left right h else Some h)
         \<bind> clearRowSegment L C blank x left right)"
      by (simp only:)
  qed
  moreover have "bt - int (length (rev [a..bt])) = a - 1" using reg by simp
  ultimately show ?thesis
    by (auto simp: painted_def down_by_def elim!: returns_mono)
qed

text \<open>Gaps within one row.\<close>

lemma fill_painted:
  fixes g :: "Cell grid"
  assumes g: "grid_ok L C g" and r: "0 \<le> r" "r < L" and k: "0 \<le> a" "b < C"
  shows "returns (painted L C ({r} \<times> {a..b}) (\<lambda>r c. v) g) (for_each (\<lambda>c. put r c v) [a..b] g)"
proof -
  have "returns (painted L C (\<Union>c \<in> set [a..b]. {(r, c)}) (\<lambda>r c. v) g) (for_each (\<lambda>c. put r c v) [a..b] g)"
  proof (rule for_each_painted [OF g])
    fix pre x post and h :: "Cell grid"
    assume xs: "[a..b] = pre @ x # post" and h: "grid_ok L C h"
    then show "returns (painted L C {(r, x)} (\<lambda>r c. v) h) (put r x v h)"
      using r k sorted_prefix_upto [OF xs] by (simp add: slice_simps painted_gset inside_def)
  qed
  moreover have "(\<Union>c \<in> set [a..b]. {(r, c)}) = {r} \<times> {a..b}" by auto
  ultimately show ?thesis by simp
qed

lemma shift_right_painted:
  fixes g :: "Cell grid"
  assumes g: "grid_ok L C g" and r: "0 \<le> r" "r < L" and k: "0 \<le> n" "n \<le> a" "b < C"
  shows "returns (painted L C ({r} \<times> {a..b}) (\<lambda>r c. cell_at g r (c - n)) g)
    (for_each (\<lambda>c g. do { v \<leftarrow> get g r (c - n); put r c v g }) (rev [a..b]) g)"
proof -
  have "returns (painted L C (\<Union>c \<in> set (rev [a..b]). {(r, c)}) (\<lambda>r c. cell_at g r (c - n)) g)
     (for_each (\<lambda>c g. do { v \<leftarrow> get g r (c - n); put r c v g }) (rev [a..b]) g)"
  proof (rule for_each_painted [OF g])
    fix pre x post and h :: "Cell grid"
    assume xs: "rev [a..b] = pre @ x # post" and h: "grid_ok L C h"
      and p: "painted L C (\<Union>y \<in> set pre. {(r, y)}) (\<lambda>r c. cell_at g r (c - n)) g h"
    have x: "a \<le> x" "x \<le> b" and pre: "set pre = {x + 1..b}"
      using sorted_prefix_rev_upto [OF xs] by auto
    have ins: "inside L C r (x - n)" "inside L C r x" using x r k by (auto simp: inside_def)
    have "cell_at h r (x - n) = cell_at g r (x - n)"
      using painted_cell [OF p ins(1)] pre k by auto
    then show "returns (painted L C {(r, x)} (\<lambda>r c. cell_at g r (c - n)) h)
        (do { v \<leftarrow> get h r (x - n); put r x v h })"
      using ins h by (simp add: slice_simps painted_gset)
  qed
  moreover have "(\<Union>c \<in> set (rev [a..b]). {(r, c)}) = {r} \<times> {a..b}" by auto
  ultimately show ?thesis by simp
qed

lemma shift_left_painted:
  fixes g :: "Cell grid"
  assumes g: "grid_ok L C g" and r: "0 \<le> r" "r < L" and k: "0 \<le> n" "0 \<le> a" "b + n < C"
  shows "returns (painted L C ({r} \<times> {a..b}) (\<lambda>r c. cell_at g r (c + n)) g)
    (for_each (\<lambda>c g. do { v \<leftarrow> get g r (c + n); put r c v g }) [a..b] g)"
proof -
  have "returns (painted L C (\<Union>c \<in> set [a..b]. {(r, c)}) (\<lambda>r c. cell_at g r (c + n)) g)
     (for_each (\<lambda>c g. do { v \<leftarrow> get g r (c + n); put r c v g }) [a..b] g)"
  proof (rule for_each_painted [OF g])
    fix pre x post and h :: "Cell grid"
    assume xs: "[a..b] = pre @ x # post" and h: "grid_ok L C h"
      and p: "painted L C (\<Union>y \<in> set pre. {(r, y)}) (\<lambda>r c. cell_at g r (c + n)) g h"
    have x: "a \<le> x" "x \<le> b" and pre: "set pre = {a..x - 1}"
      using sorted_prefix_upto [OF xs] by auto
    have ins: "inside L C r (x + n)" "inside L C r x" using x r k by (auto simp: inside_def)
    have "cell_at h r (x + n) = cell_at g r (x + n)"
      using painted_cell [OF p ins(1)] pre k by auto
    then show "returns (painted L C {(r, x)} (\<lambda>r c. cell_at g r (c + n)) h)
        (do { v \<leftarrow> get h r (x + n); put r x v h })"
      using ins h by (simp add: slice_simps painted_gset)
  qed
  moreover have "(\<Union>c \<in> set [a..b]. {(r, c)}) = {r} \<times> {a..b}" by auto
  ultimately show ?thesis by simp
qed

definition gap_opened :: "int \<Rightarrow> int \<Rightarrow> 'c \<Rightarrow> 'c grid \<Rightarrow> int \<Rightarrow> int \<Rightarrow> 'c" where
  "gap_opened c0 n blank g r c = (if c0 \<le> c - n then cell_at g r (c - n) else blank)"

definition gap_closed :: "int \<Rightarrow> int \<Rightarrow> 'c \<Rightarrow> 'c grid \<Rightarrow> int \<Rightarrow> int \<Rightarrow> 'c" where
  "gap_closed right n blank g r c = (if c + n \<le> right then cell_at g r (c + n) else blank)"

lemma openGap_painted:
  assumes g: "grid_ok L C g" and r: "0 \<le> r" "r < L"
    and k: "0 \<le> c0" "right < C" "0 \<le> n" "n \<le> right - c0 + 1"
  shows "returns (painted L C ({r} \<times> {c0..right}) (gap_opened c0 n blank g) g) (openGap c0 right n blank r g)"
  unfolding openGap_def
proof (rule returns_bind)
  show "returns (painted L C ({r} \<times> {c0 + n..right}) (\<lambda>r c. cell_at g r (c - n)) g)
     (for_each (\<lambda>c g. do { v \<leftarrow> get g r (c - n); put r c v g }) (rev [c0 + n..right]) g)"
    using g r k by (intro shift_right_painted) auto
next
  fix h assume h: "painted L C ({r} \<times> {c0 + n..right}) (\<lambda>r c. cell_at g r (c - n)) g h"
  have eq: "minInt (c0 + n - 1) right = c0 + n - 1" using k by simp
  show "returns (painted L C ({r} \<times> {c0..right}) (gap_opened c0 n blank g) g)
     (for_each (\<lambda>c. put r c blank) [c0..minInt (c0 + n - 1) right] h)"
    unfolding eq using r k h
    by (intro returns_mono [OF fill_painted [OF painted_grid [OF h]]])
      (auto simp: painted_def gap_opened_def)
qed

lemma closeGap_painted:
  assumes g: "grid_ok L C g" and r: "0 \<le> r" "r < L"
    and k: "0 \<le> c0" "right < C" "0 \<le> n" "n \<le> right - c0 + 1"
  shows "returns (painted L C ({r} \<times> {c0..right}) (gap_closed right n blank g) g) (closeGap c0 right n blank r g)"
  unfolding closeGap_def
proof (rule returns_bind)
  show "returns (painted L C ({r} \<times> {c0..right - n}) (\<lambda>r c. cell_at g r (c + n)) g)
     (for_each (\<lambda>c g. do { v \<leftarrow> get g r (c + n); put r c v g }) [c0..right - n] g)"
    using g r k by (intro shift_left_painted) auto
next
  fix h assume h: "painted L C ({r} \<times> {c0..right - n}) (\<lambda>r c. cell_at g r (c + n)) g h"
  show "returns (painted L C ({r} \<times> {c0..right}) (gap_closed right n blank g) g)
     (for_each (\<lambda>c. put r c blank) [right - n + 1..right] h)"
    using r k h
    by (intro returns_mono [OF fill_painted [OF painted_grid [OF h]]])
      (auto simp: painted_def gap_closed_def)
qed

text \<open>The same operation on each row of a block.\<close>

lemma block_painted:
  assumes g: "grid_ok L C g"
    and F: "\<And>r h. a \<le> r \<Longrightarrow> r \<le> b \<Longrightarrow> grid_ok L C h \<Longrightarrow>
      returns (painted L C ({r} \<times> K) (F h) h) (f r h)"
    and loc: "\<And>r c h. inside L C r c \<Longrightarrow> (\<And>c. 0 \<le> c \<Longrightarrow> c < C \<Longrightarrow> cell_at h r c = cell_at g r c) \<Longrightarrow>
      c \<in> K \<Longrightarrow> F h r c = F g r c"
  shows "returns (painted L C ({a..b} \<times> K) (F g) g) (for_each f [a..b] g)"
proof -
  have "returns (painted L C (\<Union>r \<in> set [a..b]. {r} \<times> K) (F g) g) (for_each f [a..b] g)"
  proof (rule for_each_painted [OF g])
    fix pre x post and h :: "'a grid"
    assume xs: "[a..b] = pre @ x # post" and h: "grid_ok L C h"
      and p: "painted L C (\<Union>y \<in> set pre. {y} \<times> K) (F g) g h"
    have x: "a \<le> x" "x \<le> b" and pre: "set pre = {a..x - 1}"
      using sorted_prefix_upto [OF xs] by auto
    have "F h x c = F g x c" if "inside L C x c" "c \<in> K" for c
    proof (rule loc [OF that(1) _ that(2)])
      fix c' :: int assume "0 \<le> c'" "c' < C"
      then show "cell_at h x c' = cell_at g x c'"
        using painted_cell [OF p, of x c'] pre that(1) by (auto simp: inside_def)
    qed
    then show "returns (painted L C ({x} \<times> K) (F g) h) (f x h)"
      using x h by (intro returns_mono [OF F [of x h]]) (auto elim!: painted_cong)
  qed
  moreover have "(\<Union>r \<in> set [a..b]. {r} \<times> K) = {a..b} \<times> K" by auto
  ultimately show ?thesis by simp
qed

section \<open>The operations on a well-formed screen\<close>

text \<open>
  \<open>paints D F s s'\<close>: \<open>s'\<close> is \<open>s\<close> except for the cells of \<open>D\<close>, which have become \<open>F\<close>.
\<close>

definition paints :: "(int \<times> int) set \<Rightarrow> (int \<Rightarrow> int \<Rightarrow> Cell) \<Rightarrow> Screen \<Rightarrow> Screen \<Rightarrow> bool" where
  "paints D F s s' \<longleftrightarrow>
     painted (Lines s) (Columns s) D F (Buffer s) (Buffer s') \<and> s' = s\<lparr>Buffer := Buffer s'\<rparr>"

lemma on_buffer_paints:
  "returns (painted (Lines s) (Columns s) D F (Buffer s)) (f (Buffer s)) \<Longrightarrow>
   returns (paints D F s) (on_buffer f s)"
  by (cases "f (Buffer s)") (simp_all add: on_buffer_def paints_def)

lemma paints_wf: "paints D F s s' \<Longrightarrow> wf_screen s \<Longrightarrow> wf_screen s'"
  unfolding paints_def by (metis painted_grid wf_Buffer)

lemma paints_cell:
  "paints D F s s' \<Longrightarrow> inside (Lines s) (Columns s) r c \<Longrightarrow>
   cell_at (Buffer s') r c = (if (r, c) \<in> D then F r c else cell_at (Buffer s) r c)"
  by (simp add: paints_def painted_def)

lemma paints_frame: "paints D F s s' \<Longrightarrow> \<exists>b. s' = s\<lparr>Buffer := b\<rparr>"
  by (auto simp: paints_def)

lemma markDirtyRange_eq [simp]:
  "markDirtyRange a b s = s\<lparr>Dirty := Dirty s \<union> {max 0 a..min b (Lines s - 1)}\<rparr>"
  by (auto simp: markDirtyRange_def Let_def)

lemma screen_reads [simp]:
  "isModeSet (s\<lparr>Dirty := d\<rparr>) m = isModeSet s m" "isModeSet (s\<lparr>Buffer := b\<rparr>) m = isModeSet s m"
  "scrollRegion (s\<lparr>wrapNext := w\<rparr>) = scrollRegion s" "scrollRegion (s\<lparr>Dirty := d\<rparr>) = scrollRegion s"
  "scrollRegion (s\<lparr>Buffer := b\<rparr>) = scrollRegion s"
  "horizontalMargins (s\<lparr>wrapNext := w\<rparr>) = horizontalMargins s"
  "horizontalMargins (s\<lparr>Dirty := d\<rparr>) = horizontalMargins s"
  "horizontalMargins (s\<lparr>Buffer := b\<rparr>) = horizontalMargins s"
  "canScrollHorizontal (s\<lparr>wrapNext := w\<rparr>) = canScrollHorizontal s"
  "canScrollHorizontal (s\<lparr>Dirty := d\<rparr>) = canScrollHorizontal s"
  "defaultAttr (s\<lparr>wrapNext := w\<rparr>) = defaultAttr s" "defaultAttr (s\<lparr>Dirty := d\<rparr>) = defaultAttr s"
  "defaultAttr (s\<lparr>Buffer := b\<rparr>) = defaultAttr s"
  "defaultCell (s\<lparr>wrapNext := w\<rparr>) = defaultCell s" "defaultCell (s\<lparr>Dirty := d\<rparr>) = defaultCell s"
  "defaultCell (s\<lparr>Buffer := b\<rparr>) = defaultCell s"
  by (simp_all add: isModeSet_def scrollRegion_def horizontalMargins_def canScrollHorizontal_def
      defaultCell_def defaultAttr_def split: option.splits)

text \<open>The region and margins of a well-formed screen are inside the buffer.\<close>

lemma region_facts:
  assumes "wf_screen s" "scrollRegion s = (tp, bt)" "horizontalMargins s = (left, right)"
  shows "grid_ok (Lines s) (Columns s) (Buffer s)" "0 \<le> tp" "tp \<le> bt" "bt < Lines s"
    "0 \<le> left" "left \<le> right" "right < Columns s"
  using assms wf_grid scrollRegion_bounds horizontalMargins_bounds by auto

lemma seg_up1:
  assumes "grid_ok L C g" "0 \<le> tp" "tp \<le> bt" "bt < L" "0 \<le> left" "right < C"
  shows "returns (painted L C ({tp..bt} \<times> {left..right}) (up_by 1 bt blank g) g)
    (for_each (\<lambda>r. copyRowSegment L C (r + 1) r left right) [tp..bt - 1] g \<bind>
     clearRowSegment L C blank bt left right)"
  using assms by (intro one_up_painted copyRowSegment_painted clearRowSegment_painted) auto

lemma seg_down1:
  assumes "grid_ok L C g" "0 \<le> tp" "tp \<le> bt" "bt < L" "0 \<le> left" "right < C"
  shows "returns (painted L C ({tp..bt} \<times> {left..right}) (down_by 1 tp blank g) g)
    (for_each (\<lambda>r. copyRowSegment L C (r - 1) r left right) (rev [tp + 1..bt]) g \<bind>
     clearRowSegment L C blank tp left right)"
  using assms by (intro one_down_painted copyRowSegment_painted clearRowSegment_painted) auto

lemma line_up1:
  assumes "grid_ok L C g" "0 \<le> tp" "tp \<le> bt" "bt < L" "0 \<le> C"
  shows "returns (painted L C ({tp..bt} \<times> {0..C - 1}) (up_by 1 bt blank g) g)
    (for_each (\<lambda>r. copyRow (r + 1) r) [tp..bt - 1] g \<bind> (\<lambda>g. upd g bt (blankLine C blank)))"
  using assms by (intro one_up_painted copyRow_painted blankLine_painted) auto

lemma line_down1:
  assumes "grid_ok L C g" "0 \<le> tp" "tp \<le> bt" "bt < L" "0 \<le> C"
  shows "returns (painted L C ({tp..bt} \<times> {0..C - 1}) (down_by 1 tp blank g) g)
    (for_each (\<lambda>r. copyRow (r - 1) r) (rev [tp + 1..bt]) g \<bind> (\<lambda>g. upd g tp (blankLine C blank)))"
  using assms by (intro one_down_painted copyRow_painted blankLine_painted) auto

lemma Index_paints:
  assumes wf: "wf_screen s" and reg: "scrollRegion s = (tp, bt)" "horizontalMargins s = (left, right)"
    and at: "row s = bt" "canScrollHorizontal s"
  shows "returns (paints ({tp..bt} \<times> {left..right}) (up_by 1 bt (defaultCell s) (Buffer s))
           (markDirtyRange 0 (Lines s - 1) (s\<lparr>wrapNext := False\<rparr>))) (Index s)"
proof -
  note f = region_facts [OF wf reg]
  show ?thesis
  proof (cases "left = 0 \<and> right = Columns s - 1")
    case True
    then show ?thesis
      using f at line_up1 [OF f(1-4), of "defaultCell s"] wf_Columns [OF wf]
      by (simp add: Index_def Let_def reg on_buffer_paints)
  next
    case False
    then show ?thesis
      using f at seg_up1 [OF f(1-5) f(7), of "defaultCell s"]
      by (auto simp: Index_def Let_def reg intro!: on_buffer_paints)
  qed
qed

lemma ReverseIndex_paints:
  assumes wf: "wf_screen s" and reg: "scrollRegion s = (tp, bt)" "horizontalMargins s = (left, right)"
    and at: "row s = tp" "canScrollHorizontal s"
  shows "returns (paints ({tp..bt} \<times> {left..right}) (down_by 1 tp (defaultCell s) (Buffer s))
           (markDirtyRange 0 (Lines s - 1) (s\<lparr>wrapNext := False\<rparr>))) (ReverseIndex s)"
proof -
  note f = region_facts [OF wf reg]
  show ?thesis
  proof (cases "left = 0 \<and> right = Columns s - 1")
    case True
    then show ?thesis
      using f at line_down1 [OF f(1-4), of "defaultCell s"] wf_Columns [OF wf]
      by (simp add: ReverseIndex_def Let_def reg on_buffer_paints)
  next
    case False
    then show ?thesis
      using f at seg_down1 [OF f(1-5) f(7), of "defaultCell s"]
      by (auto simp: ReverseIndex_def Let_def reg intro!: on_buffer_paints)
  qed
qed

lemma ScrollUp_paints:
  assumes wf: "wf_screen s" and reg: "scrollRegion s = (tp, bt)" "horizontalMargins s = (left, right)"
  shows "returns (paints ({tp..bt} \<times> {left..right})
             (up_by (min (at_least_1 (first_param 1 params)) (bt - tp + 1)) bt (defaultCell s) (Buffer s))
             (markDirtyRange tp bt s)) (ScrollUp params s)"
proof -
  note f = region_facts [OF wf reg]
  define n where "n = min (at_least_1 (first_param 1 params)) (bt - tp + 1)"
  have n: "max 0 n = n" using f at_least_1_pos [of "first_param 1 params"] by (simp add: n_def)
  have eq: "(if at_least_1 (first_param 1 params) > bt - tp + 1 then bt - tp + 1
             else at_least_1 (first_param 1 params)) = n" by (simp add: n_def)
  have "returns (painted (Lines s) (Columns s) ({tp..bt} \<times> {left..right})
      (up_by (max 0 n) bt (defaultCell s) (Buffer s)) (Buffer s))
    (for_each (\<lambda>_ g. for_each (\<lambda>r. copyRowSegment (Lines s) (Columns s) (r + 1) r left right) [tp..bt - 1] g \<bind>
         clearRowSegment (Lines s) (Columns s) (defaultCell s) bt left right) [1..n] (Buffer s))"
    using f by (intro scroll_up_painted seg_up1) auto
  then show ?thesis
    unfolding ScrollUp_def Let_def reg prod.case eq n_def [symmetric]
    by (simp add: reg n on_buffer_paints)
qed

lemma ScrollDown_paints:
  assumes wf: "wf_screen s" and reg: "scrollRegion s = (tp, bt)" "horizontalMargins s = (left, right)"
  shows "returns (paints ({tp..bt} \<times> {left..right})
             (down_by (min (at_least_1 (first_param 1 params)) (bt - tp + 1)) tp (defaultCell s) (Buffer s))
             (markDirtyRange tp bt s)) (ScrollDown params s)"
proof -
  note f = region_facts [OF wf reg]
  define n where "n = min (at_least_1 (first_param 1 params)) (bt - tp + 1)"
  have n: "max 0 n = n" using f at_least_1_pos [of "first_param 1 params"] by (simp add: n_def)
  have eq: "(if at_least_1 (first_param 1 params) > bt - tp + 1 then bt - tp + 1
             else at_least_1 (first_param 1 params)) = n" by (simp add: n_def)
  have "returns (painted (Lines s) (Columns s) ({tp..bt} \<times> {left..right})
      (down_by (max 0 n) tp (defaultCell s) (Buffer s)) (Buffer s))
    (for_each (\<lambda>_ g. for_each (\<lambda>r. copyRowSegment (Lines s) (Columns s) (r - 1) r left right) (rev [tp + 1..bt]) g \<bind>
         clearRowSegment (Lines s) (Columns s) (defaultCell s) tp left right) [1..n] (Buffer s))"
    using f by (intro scroll_down_painted seg_down1) auto
  then show ?thesis
    unfolding ScrollDown_def Let_def reg prod.case eq n_def [symmetric]
    by (simp add: reg n on_buffer_paints)
qed

lemma CarriageReturn_Buffer [simp]:
  "Buffer (CarriageReturn s) = Buffer s" "row (CarriageReturn s) = row s"
  by (simp_all add: CarriageReturn_def Let_def)

lemma InsertLines_paints:
  assumes wf: "wf_screen s" and reg: "scrollRegion s = (tp, bt)" "horizontalMargins s = (left, right)"
    and at: "tp \<le> row s" "row s \<le> bt" "isModeSet s ModeDECLRMM \<Longrightarrow> left \<le> col s \<and> col s \<le> right"
  shows "returns (\<lambda>s'. \<exists>t. s' = CarriageReturn t \<and>
      paints ({row s..bt} \<times> {left..right})
        (down_by (min (at_least_1 (first_param 1 params)) (bt - row s + 1)) (row s) (defaultCell s) (Buffer s))
        (markDirtyRange (row s) (Lines s - 1) s) t) (InsertLines params s)"
proof -
  note f = region_facts [OF wf reg]
  define n where "n = min (at_least_1 (first_param 1 params)) (bt - row s + 1)"
  have n: "1 \<le> n" using at at_least_1_pos [of "first_param 1 params"] by (simp add: n_def)
  have g: "\<not> (row s < tp \<or> row s > bt)" "\<not> (isModeSet s ModeDECLRMM \<and> (col s < left \<or> col s > right))"
    using at by auto
  let ?t = "markDirtyRange (row s) (Lines s - 1) s"
  have eq: "(if at_least_1 (first_param 1 params) > bt - row ?t + 1 then bt - row ?t + 1
             else at_least_1 (first_param 1 params)) = n" by (simp add: n_def)
  have "returns (paints ({row s..bt} \<times> {left..right}) (down_by n (row s) (defaultCell s) (Buffer s)) ?t)
    (on_buffer (for_each (\<lambda>r g. do {
                 g \<leftarrow> (if r + n \<le> bt
                       then copyRowSegment (Lines ?t) (Columns ?t) r (r + n) left right g
                       else Some g);
                 clearRowSegment (Lines ?t) (Columns ?t) (defaultCell ?t) r left right g })
               (rev [row ?t..bt])) ?t)"
    using insert_lines_painted [OF f(1) n wf_row(1) [OF wf] at(2) f(4,5) f(7), of "defaultCell s"]
    by (intro on_buffer_paints) (simp cong: if_cong)
  then show ?thesis
    unfolding InsertLines_def Let_def reg prod.case
    by (simp only: g if_False eq n_def [symmetric] returns_bind_iff returns_Some) (auto elim!: returns_mono)
qed

lemma DeleteLines_paints:
  assumes wf: "wf_screen s" and reg: "scrollRegion s = (tp, bt)" "horizontalMargins s = (left, right)"
    and at: "tp \<le> row s" "row s \<le> bt" "isModeSet s ModeDECLRMM \<Longrightarrow> left \<le> col s \<and> col s \<le> right"
  shows "returns (\<lambda>s'. \<exists>t. s' = CarriageReturn t \<and>
      paints ({row s..bt} \<times> {left..right})
        (up_by (min (at_least_1 (first_param 1 params)) (bt - row s + 1)) bt (defaultCell s) (Buffer s))
        (markDirtyRange (row s) (Lines s - 1) s) t) (DeleteLines params s)"
proof -
  note f = region_facts [OF wf reg]
  define n where "n = min (at_least_1 (first_param 1 params)) (bt - row s + 1)"
  have n: "1 \<le> n" using at at_least_1_pos [of "first_param 1 params"] by (simp add: n_def)
  have g: "\<not> (row s < tp \<or> row s > bt)" "\<not> (isModeSet s ModeDECLRMM \<and> (col s < left \<or> col s > right))"
    using at by auto
  let ?t = "markDirtyRange (row s) (Lines s - 1) s"
  have eq: "(if at_least_1 (first_param 1 params) > bt - row ?t + 1 then bt - row ?t + 1
             else at_least_1 (first_param 1 params)) = n" by (simp add: n_def)
  have "returns (paints ({row s..bt} \<times> {left..right}) (up_by n bt (defaultCell s) (Buffer s)) ?t)
    (on_buffer (for_each (\<lambda>r g.
                 if r + n \<le> bt
                 then copyRowSegment (Lines ?t) (Columns ?t) (r + n) r left right g
                 else clearRowSegment (Lines ?t) (Columns ?t) (defaultCell ?t) r left right g)
               [row ?t..bt]) ?t)"
    using delete_lines_painted [OF f(1) n wf_row(1) [OF wf] f(4,5) f(7), of "defaultCell s"]
    by (intro on_buffer_paints) (simp cong: if_cong)
  then show ?thesis
    unfolding DeleteLines_def Let_def reg prod.case
    by (simp only: g if_False eq n_def [symmetric] returns_bind_iff returns_Some) (auto elim!: returns_mono)
qed

lemma InsertCharacters_paints:
  assumes wf: "wf_screen s" and reg: "scrollRegion s = (tp, bt)" "horizontalMargins s = (left, right)"
    and at: "left \<le> col s" "col s \<le> right" "isModeSet s ModeDECLRMM \<Longrightarrow> tp \<le> row s \<and> row s \<le> bt"
  shows "returns (paints ({row s} \<times> {col s..right})
      (gap_opened (col s) (min (at_least_1 (first_param 1 params)) (right - col s + 1)) (defaultCell s) (Buffer s))
      (markDirty (row s) s)) (InsertCharacters params s)"
proof -
  note f = region_facts [OF wf reg]
  define n where "n = min (at_least_1 (first_param 1 params)) (right - col s + 1)"
  have n: "0 \<le> n" "n \<le> right - col s + 1" "\<not> n \<le> 0"
    using at at_least_1_pos [of "first_param 1 params"] by (auto simp: n_def)
  have eq: "(if at_least_1 (first_param 1 params) > right - col s + 1 then right - col s + 1
             else at_least_1 (first_param 1 params)) = n" by (simp add: n_def)
  have g: "\<not> (col s < left \<or> col s > right)" "\<not> (isModeSet s ModeDECLRMM \<and> (row s < tp \<or> row s > bt))"
    using at by auto
  show ?thesis
    unfolding InsertCharacters_def Let_def reg prod.case eq n_def [symmetric]
    using openGap_painted [OF f(1) wf_row [OF wf] wf_col(1) [OF wf] f(7) n(1,2), of "defaultCell s"]
    by (simp only: g n if_False) (auto simp: markDirty_def intro!: on_buffer_paints)
qed

lemma DeleteCharacters_paints:
  assumes wf: "wf_screen s" and reg: "scrollRegion s = (tp, bt)" "horizontalMargins s = (left, right)"
    and at: "left \<le> col s" "col s \<le> right" "isModeSet s ModeDECLRMM \<Longrightarrow> tp \<le> row s \<and> row s \<le> bt"
  shows "returns (paints ({row s} \<times> {col s..right})
      (gap_closed right (min (at_least_1 (first_param 1 params)) (right - col s + 1)) (defaultCell s) (Buffer s))
      (markDirty (row s) s)) (DeleteCharacters params s)"
proof -
  note f = region_facts [OF wf reg]
  define n where "n = min (at_least_1 (first_param 1 params)) (right - col s + 1)"
  have n: "0 \<le> n" "n \<le> right - col s + 1" "\<not> n \<le> 0"
    using at at_least_1_pos [of "first_param 1 params"] by (auto simp: n_def)
  have eq: "(if at_least_1 (first_param 1 params) > right - col s + 1 then right - col s + 1
             else at_least_1 (first_param 1 params)) = n" by (simp add: n_def)
  have g: "\<not> (col s < left \<or> col s > right)" "\<not> (isModeSet s ModeDECLRMM \<and> (row s < tp \<or> row s > bt))"
    using at by auto
  show ?thesis
    unfolding DeleteCharacters_def Let_def reg prod.case eq n_def [symmetric]
    using closeGap_painted [OF f(1) wf_row [OF wf] wf_col(1) [OF wf] f(7) n(1,2), of "defaultCell s"]
    by (simp only: g n if_False) (auto simp: markDirty_def intro!: on_buffer_paints)
qed

lemma openGap_block:
  assumes "grid_ok L C g" "0 \<le> tp" "bt < L" "0 \<le> c0" "right < C" "0 \<le> n" "n \<le> right - c0 + 1"
  shows "returns (painted L C ({tp..bt} \<times> {c0..right}) (gap_opened c0 n blank g) g)
    (for_each (openGap c0 right n blank) [tp..bt] g)"
proof (rule block_painted [OF assms(1)])
  fix r and h :: "Cell grid" assume "tp \<le> r" "r \<le> bt" "grid_ok L C h"
  then show "returns (painted L C ({r} \<times> {c0..right}) (gap_opened c0 n blank h) h) (openGap c0 right n blank r h)"
    using assms by (intro openGap_painted) auto
qed (use assms in \<open>auto simp: gap_opened_def inside_def\<close>)

lemma closeGap_block:
  assumes "grid_ok L C g" "0 \<le> tp" "bt < L" "0 \<le> c0" "right < C" "0 \<le> n" "n \<le> right - c0 + 1"
  shows "returns (painted L C ({tp..bt} \<times> {c0..right}) (gap_closed right n blank g) g)
    (for_each (closeGap c0 right n blank) [tp..bt] g)"
proof (rule block_painted [OF assms(1)])
  fix r and h :: "Cell grid" assume "tp \<le> r" "r \<le> bt" "grid_ok L C h"
  then show "returns (painted L C ({r} \<times> {c0..right}) (gap_closed right n blank h) h) (closeGap c0 right n blank r h)"
    using assms by (intro closeGap_painted) auto
qed (use assms in \<open>auto simp: gap_closed_def inside_def\<close>)

text \<open>Without left and right margins the cursor may stand one column past the right margin; then
  the columns operations clamp their count to zero and change nothing but the dirty set.\<close>

lemma columns_count:
  assumes "wf_screen s" "horizontalMargins s = (left, right)"
    "\<not> (isModeSet s ModeDECLRMM \<and> (col s < left \<or> col s > right))"
  shows "0 \<le> min (at_least_1 k) (right - col s + 1)"
  using assms wf_col [OF assms(1)] at_least_1_pos [of k]
  by (auto simp: horizontalMargins_def split: if_splits)

lemma InsertColumns_paints:
  assumes wf: "wf_screen s" and reg: "scrollRegion s = (tp, bt)" "horizontalMargins s = (left, right)"
    and at: "tp \<le> row s" "row s \<le> bt" "isModeSet s ModeDECLRMM \<Longrightarrow> left \<le> col s \<and> col s \<le> right"
  shows "returns (paints ({tp..bt} \<times> {col s..right})
      (gap_opened (col s) (min (at_least_1 k) (right - col s + 1)) (defaultCell s) (Buffer s))
      (markDirtyRange tp bt s)) (InsertColumns k s)"
proof -
  note f = region_facts [OF wf reg]
  define n where "n = min (at_least_1 k) (right - col s + 1)"
  have g: "\<not> (row s < tp \<or> row s > bt)" "\<not> (isModeSet s ModeDECLRMM \<and> (col s < left \<or> col s > right))"
    "\<not> right < left"
    using at f by auto
  have n: "0 \<le> n" "n \<le> right - col s + 1"
    using columns_count [OF wf reg(2) g(2), of k] by (auto simp: n_def)
  have eq: "(if at_least_1 k > right - col s + 1 then right - col s + 1 else at_least_1 k) = n"
    by (simp add: n_def)
  show ?thesis
    unfolding InsertColumns_def Let_def reg prod.case eq n_def [symmetric]
    using openGap_block [OF f(1,2,4) wf_col(1) [OF wf] f(7) n, of "defaultCell s"]
    by (simp only: g if_False) (auto intro!: on_buffer_paints)
qed

lemma DeleteColumns_paints:
  assumes wf: "wf_screen s" and reg: "scrollRegion s = (tp, bt)" "horizontalMargins s = (left, right)"
    and at: "tp \<le> row s" "row s \<le> bt" "isModeSet s ModeDECLRMM \<Longrightarrow> left \<le> col s \<and> col s \<le> right"
  shows "returns (paints ({tp..bt} \<times> {col s..right})
      (gap_closed right (min (at_least_1 k) (right - col s + 1)) (defaultCell s) (Buffer s))
      (markDirtyRange tp bt s)) (DeleteColumns k s)"
proof -
  note f = region_facts [OF wf reg]
  define n where "n = min (at_least_1 k) (right - col s + 1)"
  have g: "\<not> (row s < tp \<or> row s > bt)" "\<not> (isModeSet s ModeDECLRMM \<and> (col s < left \<or> col s > right))"
    "\<not> right < left"
    using at f by auto
  have n: "0 \<le> n" "n \<le> right - col s + 1"
    using columns_count [OF wf reg(2) g(2), of k] by (auto simp: n_def)
  have eq: "(if at_least_1 k > right - col s + 1 then right - col s + 1 else at_least_1 k) = n"
    by (simp add: n_def)
  show ?thesis
    unfolding DeleteColumns_def Let_def reg prod.case eq n_def [symmetric]
    using closeGap_block [OF f(1,2,4) wf_col(1) [OF wf] f(7) n, of "defaultCell s"]
    by (simp only: g if_False) (auto intro!: on_buffer_paints)
qed

text \<open>A horizontal shift is a gap of one cell closed at the left or opened at the left margin.\<close>

lemma shift_is_gap:
  "for_each f [a..b - 1] g \<bind> put r b v =
   for_each f [a..b - 1] g \<bind> for_each (\<lambda>c. put r c v) [b - 1 + 1..b]"
  by (auto split: bind_splits)

lemma shiftHorizontal_paints:
  assumes wf: "wf_screen s" and reg: "scrollRegion s = (tp, bt)" "horizontalMargins s = (left, right)"
  shows "returns (paints ({tp..bt} \<times> {left..right})
      (if dir < 0 then gap_closed right 1 (defaultCell s) (Buffer s)
       else gap_opened left 1 (defaultCell s) (Buffer s)) s) (shiftHorizontal left right tp bt dir s)"
proof -
  note f = region_facts [OF wf reg]
  have l: "(if left < 0 then 0 else left) = left" "(if right \<ge> Columns s then Columns s - 1 else right) = right"
    "\<not> left > right" "minInt bt (Lines s - 1) = bt" using f by auto
  let ?body = "\<lambda>r g. if r < 0 then Some g
         else if dir < 0 then do {
           g \<leftarrow> for_each (\<lambda>c g. do { v \<leftarrow> get g r (c + 1); put r c v g }) [left..right - 1] g;
           put r right (defaultCell s) g }
         else do {
           g \<leftarrow> for_each (\<lambda>c g. do { v \<leftarrow> get g r (c - 1); put r c v g }) (rev [left + 1..right]) g;
           put r left (defaultCell s) g }"
  have body: "?body r h = (if r < 0 then Some h else if dir < 0 then closeGap left right 1 (defaultCell s) r h
                         else openGap left right 1 (defaultCell s) r h)" for r h
    using f by (auto simp: closeGap_def openGap_def min_def split: bind_splits)
  have "returns (painted (Lines s) (Columns s) ({tp..bt} \<times> {left..right})
      (if dir < 0 then gap_closed right 1 (defaultCell s) (Buffer s)
       else gap_opened left 1 (defaultCell s) (Buffer s)) (Buffer s)) (for_each ?body [tp..bt] (Buffer s))"
  proof (rule block_painted [where F = "\<lambda>h. if dir < 0 then gap_closed right 1 (defaultCell s) h
       else gap_opened left 1 (defaultCell s) h", OF f(1)])
    fix r and h :: "Cell grid"
    assume "tp \<le> r" "r \<le> bt" and h: "grid_ok (Lines s) (Columns s) h"
    then have "0 \<le> r" "r < Lines s" using f by auto
    then show "returns (painted (Lines s) (Columns s) ({r} \<times> {left..right})
      (if dir < 0 then gap_closed right 1 (defaultCell s) h
       else gap_opened left 1 (defaultCell s) h) h) (?body r h)"
      unfolding body
      using openGap_painted [OF h, of r left right 1] closeGap_painted [OF h, of r left right 1] f by simp
  qed (use f in \<open>auto simp: gap_closed_def gap_opened_def inside_def\<close>)
  then show ?thesis
    unfolding shiftHorizontal_def Let_def l(1,2,4)
    by (simp only: l(3) if_False) (rule on_buffer_paints)
qed

section \<open>The invariant\<close>

named_theorems wf_returns \<open>operations that return and keep the invariant\<close>

lemma returns_paints_wf:
  "returns (paints D F t) r \<Longrightarrow> wf_screen t \<Longrightarrow> returns wf_screen r"
  by (auto elim!: returns_mono intro: paints_wf)

lemma wf_atRow_returns: "wf_screen s \<Longrightarrow> 0 \<le> r \<Longrightarrow> r < Lines s \<Longrightarrow> returns wf_screen (Some (atRow r s))"
  by auto

lemma Index_wf [wf_returns]:
  assumes wf: "wf_screen s"
  shows "returns wf_screen (Index s)"
proof -
  obtain tp bt left right where reg: "scrollRegion s = (tp, bt)" "horizontalMargins s = (left, right)"
    by fastforce
  have wf': "wf_screen (s\<lparr>wrapNext := False\<rparr>)" using wf by simp
  show ?thesis
  proof (cases "row s = bt \<and> canScrollHorizontal s")
    case True
    then show ?thesis using Index_paints [OF wf reg] wf' by (auto intro: returns_paints_wf)
  next
    case False
    then show ?thesis
      using wf' wf_row [OF wf] region_facts [OF wf reg]
      by (auto simp: Index_def Let_def reg intro!: wf_atRow)
  qed
qed

lemma ReverseIndex_wf [wf_returns]:
  assumes wf: "wf_screen s"
  shows "returns wf_screen (ReverseIndex s)"
proof -
  obtain tp bt left right where reg: "scrollRegion s = (tp, bt)" "horizontalMargins s = (left, right)"
    by fastforce
  have wf': "wf_screen (s\<lparr>wrapNext := False\<rparr>)" using wf by simp
  show ?thesis
  proof (cases "row s = tp \<and> canScrollHorizontal s")
    case True
    then show ?thesis using ReverseIndex_paints [OF wf reg] wf' by (auto intro: returns_paints_wf)
  next
    case False
    then show ?thesis
      using wf' wf_row [OF wf] region_facts [OF wf reg]
      by (auto simp: ReverseIndex_def Let_def reg intro!: wf_atRow)
  qed
qed

lemma down_no_scroll_wf [wf_intro]:
  assumes wf: "wf_screen s"
  shows "wf_screen (down_no_scroll s)"
proof -
  obtain tp bt where reg: "scrollRegion s = (tp, bt)" by fastforce
  show ?thesis
    using wf wf_row [OF wf] scrollRegion_bounds [OF wf reg]
    by (auto simp: down_no_scroll_def reg intro!: wf_atRow)
qed

lemma LineFeed_wf [wf_returns]:
  assumes wf: "wf_screen s"
  shows "returns wf_screen (LineFeed s)"
proof -
  have wf': "wf_screen (s\<lparr>wrapNext := False\<rparr>)" using wf by simp
  then show ?thesis
    unfolding LineFeed_def Let_def
    by (auto simp: returns_bind_iff wf_intro intro!: returns_mono [OF Index_wf])
qed

lemma NextLine_wf [wf_returns]:
  assumes wf: "wf_screen s"
  shows "returns wf_screen (NextLine s)"
proof -
  have wf': "wf_screen (CarriageReturn (s\<lparr>wrapNext := False\<rparr>))" using wf by (simp add: wf_intro)
  then show ?thesis
    unfolding NextLine_def Let_def by (auto simp: wf_intro wf_returns split: prod.splits)
qed

lemma next_stop_ge: "0 \<le> c \<Longrightarrow> 0 \<le> limit \<Longrightarrow> 0 \<le> next_stop vs c limit"
  by (auto simp: next_stop_def find_Some_iff split: option.splits)

lemma Tab_wf [wf_returns]:
  assumes wf: "wf_screen s"
  shows "returns wf_screen (Tab s)"
proof -
  have pre: "returns wf_screen (if wrapNext s \<and> isModeSet s ModeMoreFix
             then map_option CarriageReturn (LineFeed (s\<lparr>wrapNext := False\<rparr>)) else Some s)"
    using LineFeed_wf [of "s\<lparr>wrapNext := False\<rparr>"] wf by (auto simp: wf_intro elim!: returns_mono)
  have "wf_screen (atCol (if next_stop vs (col t) limit > limit then limit else next_stop vs (col t) limit) t)"
    if t: "wf_screen t" and l: "limit = (if isModeSet t ModeDECLRMM then rightMargin t else Columns t - 1)"
    for t limit and vs :: "int list"
  proof -
    have "0 \<le> limit" "limit < Columns t"
      using l wf_Columns [OF t] wf_lrmm [OF t] by (auto simp: isModeSet_def split: if_splits)
    then show ?thesis
      using t next_stop_ge [OF wf_col(1) [OF t], of limit vs] by (auto intro!: wf_atCol)
  qed
  then show ?thesis
    unfolding Tab_def Let_def by (intro returns_bind [OF pre]) (simp split del: if_split, simp)
qed

lemma CursorForwardTab_wf [wf_returns]: "wf_screen s \<Longrightarrow> returns wf_screen (CursorForwardTab params s)"
  unfolding CursorForwardTab_def by (rule returns_for_each) (auto simp: wf_returns)

lemma ScrollUp_wf [wf_returns]:
  assumes wf: "wf_screen s"
  shows "returns wf_screen (ScrollUp params s)"
proof -
  obtain tp bt left right where reg: "scrollRegion s = (tp, bt)" "horizontalMargins s = (left, right)"
    by fastforce
  show ?thesis using wf by (auto intro: returns_paints_wf [OF ScrollUp_paints [OF wf reg]])
qed

lemma ScrollDown_wf [wf_returns]:
  assumes wf: "wf_screen s"
  shows "returns wf_screen (ScrollDown params s)"
proof -
  obtain tp bt left right where reg: "scrollRegion s = (tp, bt)" "horizontalMargins s = (left, right)"
    by fastforce
  show ?thesis using wf by (auto intro: returns_paints_wf [OF ScrollDown_paints [OF wf reg]])
qed

lemma InsertLines_wf [wf_returns]:
  assumes wf: "wf_screen s"
  shows "returns wf_screen (InsertLines params s)"
proof -
  obtain tp bt left right where reg: "scrollRegion s = (tp, bt)" "horizontalMargins s = (left, right)"
    by fastforce
  show ?thesis
  proof (cases "tp \<le> row s \<and> row s \<le> bt \<and> (isModeSet s ModeDECLRMM \<longrightarrow> left \<le> col s \<and> col s \<le> right)")
    case True
    then show ?thesis
      using InsertLines_paints [OF wf reg, of params] wf
      by (auto elim!: returns_mono dest!: paints_wf intro!: CarriageReturn_wf)
  next
    case False
    then show ?thesis using wf by (auto simp: InsertLines_def Let_def reg)
  qed
qed

lemma DeleteLines_wf [wf_returns]:
  assumes wf: "wf_screen s"
  shows "returns wf_screen (DeleteLines params s)"
proof -
  obtain tp bt left right where reg: "scrollRegion s = (tp, bt)" "horizontalMargins s = (left, right)"
    by fastforce
  show ?thesis
  proof (cases "tp \<le> row s \<and> row s \<le> bt \<and> (isModeSet s ModeDECLRMM \<longrightarrow> left \<le> col s \<and> col s \<le> right)")
    case True
    then show ?thesis
      using DeleteLines_paints [OF wf reg, of params] wf
      by (auto elim!: returns_mono dest!: paints_wf intro!: CarriageReturn_wf)
  next
    case False
    then show ?thesis using wf by (auto simp: DeleteLines_def Let_def reg)
  qed
qed

lemma InsertCharacters_wf [wf_returns]:
  assumes wf: "wf_screen s"
  shows "returns wf_screen (InsertCharacters params s)"
proof -
  obtain tp bt left right where reg: "scrollRegion s = (tp, bt)" "horizontalMargins s = (left, right)"
    by fastforce
  show ?thesis
  proof (cases "left \<le> col s \<and> col s \<le> right \<and> (isModeSet s ModeDECLRMM \<longrightarrow> tp \<le> row s \<and> row s \<le> bt)")
    case True
    then show ?thesis
      using wf by (intro returns_paints_wf [OF InsertCharacters_paints [OF wf reg]]) auto
  next
    case False
    then show ?thesis using wf by (auto simp: InsertCharacters_def Let_def reg)
  qed
qed

lemma DeleteCharacters_wf [wf_returns]:
  assumes wf: "wf_screen s"
  shows "returns wf_screen (DeleteCharacters params s)"
proof -
  obtain tp bt left right where reg: "scrollRegion s = (tp, bt)" "horizontalMargins s = (left, right)"
    by fastforce
  show ?thesis
  proof (cases "left \<le> col s \<and> col s \<le> right \<and> (isModeSet s ModeDECLRMM \<longrightarrow> tp \<le> row s \<and> row s \<le> bt)")
    case True
    then show ?thesis
      using wf by (intro returns_paints_wf [OF DeleteCharacters_paints [OF wf reg]]) auto
  next
    case False
    then show ?thesis using wf by (auto simp: DeleteCharacters_def Let_def reg)
  qed
qed

lemma InsertColumns_wf [wf_returns]:
  assumes wf: "wf_screen s"
  shows "returns wf_screen (InsertColumns k s)"
proof -
  obtain tp bt left right where reg: "scrollRegion s = (tp, bt)" "horizontalMargins s = (left, right)"
    by fastforce
  show ?thesis
  proof (cases "tp \<le> row s \<and> row s \<le> bt \<and> (isModeSet s ModeDECLRMM \<longrightarrow> left \<le> col s \<and> col s \<le> right)")
    case True
    then show ?thesis
      using wf by (intro returns_paints_wf [OF InsertColumns_paints [OF wf reg]]) auto
  next
    case False
    then show ?thesis using wf by (auto simp: InsertColumns_def Let_def reg)
  qed
qed

lemma DeleteColumns_wf [wf_returns]:
  assumes wf: "wf_screen s"
  shows "returns wf_screen (DeleteColumns k s)"
proof -
  obtain tp bt left right where reg: "scrollRegion s = (tp, bt)" "horizontalMargins s = (left, right)"
    by fastforce
  show ?thesis
  proof (cases "tp \<le> row s \<and> row s \<le> bt \<and> (isModeSet s ModeDECLRMM \<longrightarrow> left \<le> col s \<and> col s \<le> right)")
    case True
    then show ?thesis
      using wf by (intro returns_paints_wf [OF DeleteColumns_paints [OF wf reg]]) auto
  next
    case False
    then show ?thesis using wf by (auto simp: DeleteColumns_def Let_def reg)
  qed
qed

lemma ForwardIndex_wf [wf_returns]:
  assumes wf: "wf_screen s"
  shows "returns wf_screen (ForwardIndex s)"
proof -
  obtain tp bt left right where reg: "scrollRegion s = (tp, bt)" "horizontalMargins s = (left, right)"
    by fastforce
  show ?thesis
    using wf wf_col [OF wf] region_facts [OF wf reg]
      returns_paints_wf [OF shiftHorizontal_paints [OF wf reg] wf]
    by (auto simp: ForwardIndex_def reg intro!: wf_atCol)
qed

lemma BackIndex_wf [wf_returns]:
  assumes wf: "wf_screen s"
  shows "returns wf_screen (BackIndex s)"
proof -
  obtain tp bt left right where reg: "scrollRegion s = (tp, bt)" "horizontalMargins s = (left, right)"
    by fastforce
  show ?thesis
    using wf wf_col [OF wf] region_facts [OF wf reg]
      returns_paints_wf [OF shiftHorizontal_paints [OF wf reg] wf]
    by (auto simp: BackIndex_def reg intro!: wf_atCol)
qed

section \<open>Frames\<close>

text \<open>
  \<open>edits s t\<close>: \<open>t\<close> differs from \<open>s\<close> at most in the cells, the dirty set, the cursor and the
  pending-wrap flag. Every operation of this theory and of the erasing ones is such an edit.
\<close>

definition edits :: "Screen \<Rightarrow> Screen \<Rightarrow> bool" where
  "edits s t \<longleftrightarrow> (\<exists>b d c w. t = s\<lparr>Buffer := b, Dirty := d, Cursor := c, wrapNext := w\<rparr>)"

named_theorems edits_intro \<open>operations that edit the visible screen\<close>

lemma edits_refl [edits_intro]: "edits s s"
  unfolding edits_def
  by (intro exI [of _ "Buffer s"] exI [of _ "Dirty s"] exI [of _ "Cursor s"] exI [of _ "wrapNext s"]) simp

lemma edits_Buffer [edits_intro]: "edits s t \<Longrightarrow> edits s (t\<lparr>Buffer := x\<rparr>)"
  unfolding edits_def
  by (elim exE, rule_tac x = x in exI, rule_tac x = d in exI, rule_tac x = c in exI, rule_tac x = w in exI) simp

lemma edits_Dirty [edits_intro]: "edits s t \<Longrightarrow> edits s (t\<lparr>Dirty := x\<rparr>)"
  unfolding edits_def
  by (elim exE, rule_tac x = b in exI, rule_tac x = x in exI, rule_tac x = c in exI, rule_tac x = w in exI) simp

lemma edits_Cursor [edits_intro]: "edits s t \<Longrightarrow> edits s (t\<lparr>Cursor := x\<rparr>)"
  unfolding edits_def
  by (elim exE, rule_tac x = b in exI, rule_tac x = d in exI, rule_tac x = x in exI, rule_tac x = w in exI) simp

lemma edits_wrapNext [edits_intro]: "edits s t \<Longrightarrow> edits s (t\<lparr>wrapNext := x\<rparr>)"
  unfolding edits_def
  by (elim exE, rule_tac x = b in exI, rule_tac x = d in exI, rule_tac x = c in exI, rule_tac x = x in exI) simp

lemma edits_trans:
  assumes "edits s t" "edits t u"
  shows "edits s u"
proof -
  obtain b d c w where t: "t = s\<lparr>Buffer := b, Dirty := d, Cursor := c, wrapNext := w\<rparr>"
    using assms(1) by (auto simp: edits_def)
  obtain b d c w where "u = t\<lparr>Buffer := b, Dirty := d, Cursor := c, wrapNext := w\<rparr>"
    using assms(2) by (auto simp: edits_def)
  then have "u = s\<lparr>Buffer := b, Dirty := d, Cursor := c, wrapNext := w\<rparr>" using t by simp
  then show ?thesis unfolding edits_def by blast
qed

lemma edits_fields:
  assumes "edits s t"
  shows "Lines t = Lines s" "Columns t = Columns s" "Mode t = Mode s" "Margins t = Margins s"
    "leftMargin t = leftMargin s" "rightMargin t = rightMargin s" "TabStops t = TabStops s"
    "Savepoints t = Savepoints s" "altBuffer t = altBuffer s" "altActive t = altActive s"
    "G0 t = G0 s" "G1 t = G1 s" "Charset t = Charset s" "lineWrapped t = lineWrapped s"
    "SavedColumns t = SavedColumns s" "altSavepoints t = altSavepoints s"
    "altLineWrapped t = altLineWrapped s" "altSavedCursor t = altSavedCursor s"
    "altWrapNext t = altWrapNext s" "Title t = Title s" "processInput t = processInput s"
  using assms by (auto simp: edits_def)

lemma moves_edits: "moves_cursor s t \<Longrightarrow> edits s t"
proof -
  assume "moves_cursor s t"
  then obtain c w where "t = s\<lparr>Cursor := c, wrapNext := w\<rparr>" by (auto simp: moves_cursor_def)
  then show ?thesis by (simp add: edits_intro)
qed

lemma edits_moves [edits_intro]: "edits s t \<Longrightarrow> edits s (atRow r t)" "edits s t \<Longrightarrow> edits s (atCol r t)"
  "edits s t \<Longrightarrow> edits s (CarriageReturn t)" "edits s t \<Longrightarrow> edits s (CursorPosition ps t)"
  using edits_trans moves_edits moves moves_cursor_refl by meson+

lemma on_buffer_edits: "on_buffer f s = Some t \<Longrightarrow> edits s t"
  by (auto simp: on_buffer_def intro: edits_intro)

lemma markDirty_edits [edits_intro]: "edits s (markDirty r s)" "edits s (markDirtyRange a b s)"
  by (simp_all only: markDirty_def markDirtyRange_eq edits_refl edits_Dirty)

lemma edits_on_buffer:
  "edits s t \<Longrightarrow> on_buffer f t = Some u \<Longrightarrow> edits s u"
  using edits_trans on_buffer_edits by blast

lemma Index_edits: "Index s = Some t \<Longrightarrow> edits s t"
  unfolding Index_def Let_def
  by (auto split: if_splits prod.splits intro: edits_intro simp del: markDirtyRange_eq
      elim!: edits_on_buffer [rotated] intro!: edits_trans [OF edits_wrapNext [OF edits_refl] markDirty_edits(2)])

lemma InsertLines_edits: "InsertLines ps s = Some t \<Longrightarrow> edits s t"
  unfolding InsertLines_def Let_def
  by (auto split: if_splits prod.splits intro: edits_intro simp del: markDirtyRange_eq simp: bind_eq_Some_conv
      elim!: edits_on_buffer [rotated])

lemma DeleteLines_edits: "DeleteLines ps s = Some t \<Longrightarrow> edits s t"
  unfolding DeleteLines_def Let_def
  by (auto split: if_splits prod.splits intro: edits_intro simp del: markDirtyRange_eq simp: bind_eq_Some_conv
      elim!: edits_on_buffer [rotated])

text \<open>An operation that paints, read cell by cell.\<close>

lemma paints_ex:
  assumes "returns (paints D F s') r" "Lines s' = Lines s" "Columns s' = Columns s" "Buffer s' = Buffer s"
    "Cursor s' = Cursor s"
  shows "\<exists>t. r = Some t \<and> Cursor t = Cursor s \<and> (\<forall>y x. inside (Lines s) (Columns s) y x \<longrightarrow>
     cell_at (Buffer t) y x = (if (y, x) \<in> D then F y x else cell_at (Buffer s) y x))"
proof -
  obtain t where t: "r = Some t" "paints D F s' t" using assms(1) by (auto simp: returns_ex)
  have "t = s'\<lparr>Buffer := Buffer t\<rparr>" using t(2) by (simp add: paints_def)
  then have c: "Cursor t = Cursor (s'\<lparr>Buffer := Buffer t\<rparr>)" by (rule arg_cong)
  show ?thesis
  proof (intro exI conjI allI impI)
    show "r = Some t" by fact
    show "Cursor t = Cursor s" unfolding c using assms(5) by simp
    fix y x assume "inside (Lines s) (Columns s) y x"
    then show "cell_at (Buffer t) y x = (if (y, x) \<in> D then F y x else cell_at (Buffer s) y x)"
      using paints_cell [OF t(2), of y x] assms(2-4) by simp
  qed
qed

lemma CarriageReturn_reads:
  "Buffer (CarriageReturn s) = Buffer s" "row (CarriageReturn s) = row s" "CurAttr (Cursor (CarriageReturn s)) = CurAttr (Cursor s)"
  by (simp_all add: CarriageReturn_def atCol_def Let_def)

end
