(* ===== verification/TeErase.thy ===== *)
theory TeErase
  imports TeEdit
begin

text \<open>
  Erasing and the rectangle operations of \<open>pkg/te/screen.go\<close>, with the two protection attributes:
  the ISO attribute (SPA/EPA) guards against the plain erase operations, the DEC attribute
  (DECSCA) against the private ones.
\<close>

section \<open>Erasing\<close>

definition is_protected :: "bool \<Rightarrow> Cell \<Rightarrow> bool" where
  "is_protected private cell =
    (if private then Protected (CellAttr cell) else ISOProtected (CellAttr cell))"

definition eraseCell :: "bool \<Rightarrow> Cell \<Rightarrow> int \<Rightarrow> int \<Rightarrow> Cell grid \<Rightarrow> Cell grid option" where
  "eraseCell private blank r c g = do {
     cell \<leftarrow> get g r c;
     if is_protected private cell then Some g else put r c blank g }"

definition erasedCell :: "Screen \<Rightarrow> Cell" where
  "erasedCell s = \<lparr>Data = '' '', CellAttr = bceAttr s\<rparr>"

definition EraseCharacters :: "int list \<Rightarrow> Screen \<Rightarrow> Screen option" where
  "EraseCharacters params s =
    (let n = at_least_1 (first_param 1 params);
         left = 0;
         right = Columns s - 1 in
     if col s < left \<or> col s > right then Some s
     else
       (let s = markDirty (row s) s in
        on_buffer (\<lambda>g. do {
          line \<leftarrow> idx g (row s);
          for_each (eraseCell False (erasedCell s) (row s)) [col s..minInt (col s + n - 1) right] g }) s))"

definition EraseInLine :: "int \<Rightarrow> bool \<Rightarrow> Screen \<Rightarrow> Screen option" where
  "EraseInLine how private s0 =
    (let s = markDirty (row s0) s0;
         left = 0;
         right = Columns s - 1;
         (start, fin) =
           (if how = 0 then (maxInt (col s) left, right + 1)
            else if how = 1 then (left, minInt (col s) right + 1)
            else if how = 2 then (left, right + 1)
            else (0, 0)) in
     on_buffer (\<lambda>g. do {
       line \<leftarrow> idx g (row s);
       for_each (eraseCell private (erasedCell s) (row s)) [start..fin - 1] g }) s)"

definition eraseInDisplay :: "int \<Rightarrow> bool \<Rightarrow> bool \<Rightarrow> Screen \<Rightarrow> Screen option" where
  "eraseInDisplay how0 private selective s =
    (if how0 = 3 \<and> selective then Some s
     else
       (let how = (if how0 = 3 then 2 else how0);
            (start, fin) =
              (if how = 0 then (row s + 1, Lines s)
               else if how = 1 then (0, row s)
               else if how = 2 then (0, Lines s)
               else (0, 0)) in do {
          s \<leftarrow> (if how = 0 \<or> how = 1 then EraseInLine how private s else Some s);
          s \<leftarrow> on_buffer (for_each (\<lambda>r. for_each (eraseCell private (erasedCell s) r) [0..Columns s - 1])
                 [start..fin - 1]) s;
          let s = s\<lparr>Dirty := Dirty s \<union> {start..fin - 1}\<rparr>;
          Some (if how = 2 then markDirtyRange 0 (Lines s - 1) s else s) }))"

definition EraseInDisplay :: "int \<Rightarrow> bool \<Rightarrow> Screen \<Rightarrow> Screen option" where
  "EraseInDisplay how private s = eraseInDisplay how private False s"

definition EraseInDisplaySelective :: "int \<Rightarrow> Screen \<Rightarrow> Screen option" where
  "EraseInDisplaySelective how s = eraseInDisplay how True True s"

section \<open>Rectangles\<close>

text \<open>
  The argument handling the rectangle operations share: defaults for non-positive arguments, the
  shift into the origin region, and the clip to the screen. \<open>None\<close> is the early return on an
  empty rectangle.
\<close>

definition clipRect :: "Screen \<Rightarrow> int \<Rightarrow> int \<Rightarrow> int \<Rightarrow> int \<Rightarrow> (int \<times> int \<times> int \<times> int) option" where
  "clipRect s top0 left0 bottom0 right0 =
    (let tp = (if top0 \<le> 0 then 1 else top0);
         left = (if left0 \<le> 0 then 1 else left0);
         bt = (if bottom0 \<le> 0 then Lines s else bottom0);
         right = (if right0 \<le> 0 then Columns s else right0);
         (dy, dx) = (case Margins s of
             Some m \<Rightarrow> if isModeSet s ModeDECOM
                       then (Top m, if isModeSet s ModeDECLRMM then leftMargin s else 0) else (0, 0)
           | None \<Rightarrow> (0, 0));
         tp = tp + dy; bt = bt + dy; left = left + dx; right = right + dx in
     if tp > bt \<or> left > right then None
     else Some (if tp < 1 then 1 else tp, if left < 1 then 1 else left,
                if bt > Lines s then Lines s else bt, if right > Columns s then Columns s else right))"

definition SelectiveEraseRectangle :: "int \<Rightarrow> int \<Rightarrow> int \<Rightarrow> int \<Rightarrow> Screen \<Rightarrow> Screen option" where
  "SelectiveEraseRectangle top0 left0 bottom0 right0 s =
    (case clipRect s top0 left0 bottom0 right0 of
       None \<Rightarrow> Some s
     | Some (tp, left, bt, right) \<Rightarrow> do {
         s \<leftarrow> on_buffer (for_each (\<lambda>r. for_each (\<lambda>c g. do {
                cell \<leftarrow> get g r c;
                if Protected (CellAttr cell) then Some g
                else put r c \<lparr>Data = '' '', CellAttr = defaultAttr s\<rparr> g }) [left - 1..right - 1])
              [tp - 1..bt - 1]) s;
         Some (s\<lparr>Dirty := Dirty s \<union> {tp - 1..bt - 1}\<rparr>) })"

definition fillRectangle :: "int \<Rightarrow> int \<Rightarrow> int \<Rightarrow> int \<Rightarrow> string \<Rightarrow> Screen \<Rightarrow> Screen option" where
  "fillRectangle top0 left0 bottom0 right0 data s =
    (case clipRect s top0 left0 bottom0 right0 of
       None \<Rightarrow> Some s
     | Some (tp, left, bt, right) \<Rightarrow> do {
         s \<leftarrow> on_buffer (for_each (\<lambda>r. for_each (\<lambda>c g. do {
                cell \<leftarrow> get g r c;
                if Protected (CellAttr cell) then Some g
                else put r c (cell\<lparr>Data := data\<rparr>) g }) [left - 1..right - 1])
              [tp - 1..bt - 1]) s;
         Some (s\<lparr>Dirty := Dirty s \<union> {tp - 1..bt - 1}\<rparr>) })"

definition EraseRectangle :: "int \<Rightarrow> int \<Rightarrow> int \<Rightarrow> int \<Rightarrow> Screen \<Rightarrow> Screen option" where
  "EraseRectangle tp left bt right s = fillRectangle tp left bt right '' '' s"

definition FillRectangle :: "rune \<Rightarrow> int \<Rightarrow> int \<Rightarrow> int \<Rightarrow> int \<Rightarrow> Screen \<Rightarrow> Screen option" where
  "FillRectangle ch tp left bt right s =
    (if ch = 0 then Some s else fillRectangle tp left bt right (string_of_runes [ch]) s)"

text \<open>\<open>CopyRectangle\<close> copies its source into \<open>temp\<close> first, so the rectangles may overlap.\<close>

definition copyTemp :: "int \<Rightarrow> int \<Rightarrow> int \<Rightarrow> int \<Rightarrow> Cell grid \<Rightarrow> Cell grid option" where
  "copyTemp top0 left0 height width g =
    for_each (\<lambda>r temp. do {
      line \<leftarrow> idx g (top0 + r);
      seg \<leftarrow> slice line left0 (left0 + width);
      Some (temp @ [seg]) }) [0..height - 1] []"

definition pasteRow ::
  "int \<Rightarrow> int \<Rightarrow> Cell grid \<Rightarrow> int \<Rightarrow> int \<Rightarrow> int \<Rightarrow> int \<Rightarrow> Cell grid \<Rightarrow> Cell grid option" where
  "pasteRow L C temp top0 left0 width r g =
    (let dstRow = top0 + r in
     if dstRow < 0 \<or> dstRow \<ge> L then Some g
     else for_each (\<lambda>c g.
       let dstCol = left0 + c in
       if dstCol < 0 \<or> dstCol \<ge> C then Some g
       else do { v \<leftarrow> get temp r c; put dstRow dstCol v g }) [0..width - 1] g)"

definition CopyRectangle :: "int \<Rightarrow> int \<Rightarrow> int \<Rightarrow> int \<Rightarrow> int \<Rightarrow> int \<Rightarrow> Screen \<Rightarrow> Screen option" where
  "CopyRectangle srcTop0 srcLeft0 srcBottom0 srcRight0 dstTop0 dstLeft0 s =
    (case clipRect s srcTop0 srcLeft0 srcBottom0 srcRight0 of
       None \<Rightarrow> Some s
     | Some (srcTop, srcLeft, srcBottom, srcRight) \<Rightarrow>
         let dstTop = (if dstTop0 \<le> 0 then 1 else dstTop0);
             dstLeft = (if dstLeft0 \<le> 0 then 1 else dstLeft0);
             (dy, dx) = (case Margins s of
                 Some m \<Rightarrow> if isModeSet s ModeDECOM
                           then (Top m, if isModeSet s ModeDECLRMM then leftMargin s else 0) else (0, 0)
               | None \<Rightarrow> (0, 0));
             dstTop = dstTop + dy; dstLeft = dstLeft + dx;
             height = srcBottom - srcTop + 1;
             width = srcRight - srcLeft + 1 in
         if height \<le> 0 \<or> width \<le> 0 then Some s
         else do {
           temp \<leftarrow> copyTemp (srcTop - 1) (srcLeft - 1) height width (Buffer s);
           s \<leftarrow> on_buffer (for_each (pasteRow (Lines s) (Columns s) temp (dstTop - 1) (dstLeft - 1) width)
                [0..height - 1]) s;
           Some (s\<lparr>Dirty := Dirty s \<union> ({dstTop - 1..dstTop - 1 + height - 1} \<inter> {0..Lines s - 1})\<rparr>) })"

section \<open>Alignment display\<close>

definition AlignmentDisplay :: "Screen \<Rightarrow> Screen option" where
  "AlignmentDisplay s0 =
    (let s = markDirtyRange 0 (Lines s0 - 1) s0 in do {
       s \<leftarrow> on_buffer (for_each (\<lambda>r. for_each (\<lambda>c g. do {
              cell \<leftarrow> get g r c; put r c (cell\<lparr>Data := ''E''\<rparr>) g }) [0..Columns s - 1])
            [0..Lines s - 1]) s;
       let s = s\<lparr>Margins := None, leftMargin := 0, rightMargin := Columns s - 1,
                 lineWrapped := Some Map.empty, wrapNext := False\<rparr>;
       Some (CursorPosition [0, 0] s) })"

section \<open>Closed forms\<close>

text \<open>A loop that rewrites each cell of a rectangle from its own old value.\<close>

lemma rewrite_row_painted:
  fixes g :: "Cell grid"
  assumes g: "grid_ok L C g" and r: "0 \<le> r" "r < L" and k: "0 \<le> a" "b < C"
    and f: "\<And>c h. a \<le> c \<Longrightarrow> c \<le> b \<Longrightarrow> grid_ok L C h \<Longrightarrow>
      returns (painted L C {(r, c)} (\<lambda>r c. F (cell_at h r c)) h) (f c h)"
  shows "returns (painted L C ({r} \<times> {a..b}) (\<lambda>r c. F (cell_at g r c)) g) (for_each f [a..b] g)"
proof -
  have "returns (painted L C (\<Union>c \<in> set [a..b]. {(r, c)}) (\<lambda>r c. F (cell_at g r c)) g) (for_each f [a..b] g)"
  proof (rule for_each_painted [OF g])
    fix pre x post and h :: "Cell grid"
    assume xs: "[a..b] = pre @ x # post" and h: "grid_ok L C h"
      and p: "painted L C (\<Union>y \<in> set pre. {(r, y)}) (\<lambda>r c. F (cell_at g r c)) g h"
    have x: "a \<le> x" "x \<le> b" and pre: "set pre = {a..x - 1}"
      using sorted_prefix_upto [OF xs] by auto
    have "cell_at h r x = cell_at g r x"
      using painted_cell [OF p, of r x] pre x r k by (auto simp: inside_def)
    then show "returns (painted L C {(r, x)} (\<lambda>r c. F (cell_at g r c)) h) (f x h)"
      using x h by (intro returns_mono [OF f [of x h]]) (auto elim!: painted_cong)
  qed
  moreover have "(\<Union>c \<in> set [a..b]. {(r, c)}) = {r} \<times> {a..b}" by auto
  ultimately show ?thesis by simp
qed

lemma rewrite_block_painted:
  fixes g :: "Cell grid"
  assumes g: "grid_ok L C g" and reg: "0 \<le> tp" "bt < L" "0 \<le> a" "b < C"
    and f: "\<And>r c h. inside L C r c \<Longrightarrow> grid_ok L C h \<Longrightarrow>
      returns (painted L C {(r, c)} (\<lambda>r c. F (cell_at h r c)) h) (f r c h)"
  shows "returns (painted L C ({tp..bt} \<times> {a..b}) (\<lambda>r c. F (cell_at g r c)) g)
    (for_each (\<lambda>r. for_each (f r) [a..b]) [tp..bt] g)"
proof (rule block_painted [where F = "\<lambda>g r c. F (cell_at g r c)", OF g])
  fix r and h :: "Cell grid" assume "tp \<le> r" "r \<le> bt" "grid_ok L C h"
  then show "returns (painted L C ({r} \<times> {a..b}) (\<lambda>r c. F (cell_at h r c)) h) (for_each (f r) [a..b] h)"
    using reg by (intro rewrite_row_painted f) (auto simp: inside_def)
qed (auto simp: inside_def)

definition erased :: "bool \<Rightarrow> Cell \<Rightarrow> Cell \<Rightarrow> Cell" where
  "erased private blank cell = (if is_protected private cell then cell else blank)"

lemma eraseCell_painted:
  "inside L C r c \<Longrightarrow> grid_ok L C h \<Longrightarrow>
   returns (painted L C {(r, c)} (\<lambda>r c. erased private blank (cell_at h r c)) h) (eraseCell private blank r c h)"
  by (auto simp: eraseCell_def erased_def slice_simps intro!: painted_gset painted_same)

lemma erasedCell_frame [simp]:
  "erasedCell (s\<lparr>Dirty := d\<rparr>) = erasedCell s" "erasedCell (s\<lparr>Buffer := b\<rparr>) = erasedCell s"
  by (simp_all add: erasedCell_def bceAttr_def)

lemma markDirty_eq [simp]: "markDirty r s = s\<lparr>Dirty := insert r (Dirty s)\<rparr>"
  by (simp add: markDirty_def)

lemma erase_row_paints:
  assumes wf: "wf_screen s" and k: "0 \<le> a" "b < Columns s" and r: "0 \<le> r" "r < Lines s"
  shows "returns (paints ({r} \<times> {a..b}) (\<lambda>r c. erased private blank (cell_at (Buffer s) r c)) s)
    (on_buffer (\<lambda>g. do { line \<leftarrow> idx g r; for_each (eraseCell private blank r) [a..b] g }) s)"
proof (rule on_buffer_paints)
  have "returns (painted (Lines s) (Columns s) ({r} \<times> {a..b})
      (\<lambda>r c. erased private blank (cell_at (Buffer s) r c)) (Buffer s))
      (for_each (eraseCell private blank r) [a..b] (Buffer s))"
    using k r by (intro rewrite_row_painted [OF wf_grid [OF wf]] eraseCell_painted) (auto simp: inside_def)
  then show "returns (painted (Lines s) (Columns s) ({r} \<times> {a..b})
      (\<lambda>r c. erased private blank (cell_at (Buffer s) r c)) (Buffer s))
      (do { line \<leftarrow> idx (Buffer s) r; for_each (eraseCell private blank r) [a..b] (Buffer s) })"
    using idx_row [OF wf_grid [OF wf] r] by simp
qed

lemma erase_block_paints:
  assumes wf: "wf_screen s" and r: "0 \<le> a" "b < Lines s"
  shows "returns (paints ({a..b} \<times> {0..Columns s - 1}) (\<lambda>r c. erased private blank (cell_at (Buffer s) r c)) s)
    (on_buffer (for_each (\<lambda>r. for_each (eraseCell private blank r) [0..Columns s - 1]) [a..b]) s)"
  using r by (intro on_buffer_paints rewrite_block_painted [OF wf_grid [OF wf]] eraseCell_painted)
    (auto simp: inside_def)

lemma EraseCharacters_paints:
  assumes wf: "wf_screen s" and c: "col s < Columns s"
  shows "returns (paints ({row s} \<times> {col s..min (col s + at_least_1 (first_param 1 params) - 1) (Columns s - 1)})
      (\<lambda>r c. erased False (erasedCell s) (cell_at (Buffer s) r c)) (markDirty (row s) s))
    (EraseCharacters params s)"
proof -
  have wf': "wf_screen (markDirty (row s) s)" using wf by simp
  show ?thesis
    using erase_row_paints [OF wf', of "col s"
        "min (col s + at_least_1 (first_param 1 params) - 1) (Columns s - 1)" "row s" False "erasedCell s"]
      c wf_row [OF wf] wf_col [OF wf]
    by (simp add: EraseCharacters_def Let_def)
qed

text \<open>The columns of \<open>EraseInLine\<close> and the rows of \<open>eraseInDisplay\<close>.\<close>

definition erase_cols :: "int \<Rightarrow> Screen \<Rightarrow> int set" where
  "erase_cols how s =
    (if how = 0 then {col s..Columns s - 1}
     else if how = 1 then {0..min (col s) (Columns s - 1)}
     else if how = 2 then {0..Columns s - 1} else {})"

definition erase_rows :: "int \<Rightarrow> Screen \<Rightarrow> int set" where
  "erase_rows how s =
    (if how = 0 then {row s + 1..Lines s - 1} else if how = 1 then {0..row s - 1}
     else if how = 2 then {0..Lines s - 1} else {})"

lemma EraseInLine_paints:
  assumes wf: "wf_screen s"
  shows "returns (paints ({row s} \<times> erase_cols how s)
      (\<lambda>r c. erased private (erasedCell s) (cell_at (Buffer s) r c)) (markDirty (row s) s))
    (EraseInLine how private s)"
proof -
  have wf': "wf_screen (markDirty (row s) s)" using wf by simp
  have l: "returns (paints ({row s} \<times> {a..b})
      (\<lambda>r c. erased private (erasedCell s) (cell_at (Buffer s) r c)) (s\<lparr>Dirty := insert (row s) (Dirty s)\<rparr>))
     (on_buffer (\<lambda>g. do { line \<leftarrow> idx g (row s); for_each (eraseCell private (erasedCell s) (row s)) [a..b] g })
        (s\<lparr>Dirty := insert (row s) (Dirty s)\<rparr>))" if "0 \<le> a" "b < Columns s" for a b
    using erase_row_paints [OF wf', of a b "row s" "private" "erasedCell s"] that wf_row [OF wf] by simp
  have c: "max (col s) 0 = col s" "- 1 < Columns s" using wf_col [OF wf] wf_Columns [OF wf] by simp_all
  show ?thesis
    using l [of "col s" "Columns s - 1"] l [of 0 "min (col s) (Columns s - 1)"] l [of 0 "Columns s - 1"]
      l [of 0 "-1"] wf_col [OF wf] c
    by (simp add: EraseInLine_def Let_def erase_cols_def)
qed

lemma paints_seq:
  assumes "paints D F s t" "paints E G t u"
    and "\<And>r c. inside (Lines s) (Columns s) r c \<Longrightarrow> (r, c) \<in> E \<Longrightarrow> G r c = F r c"
  shows "paints (D \<union> E) F s u"
proof -
  obtain b where t: "t = s\<lparr>Buffer := b\<rparr>" using assms(1) paints_frame by blast
  then have "painted (Lines s) (Columns s) E F b (Buffer u)"
    using assms(2,3) by (auto simp: paints_def elim!: painted_cong)
  then show ?thesis
    using assms(1,2) t painted_trans by (auto simp: paints_def)
qed

lemma paints_iff: "paints D F s t \<longleftrightarrow> (\<exists>b. t = s\<lparr>Buffer := b\<rparr> \<and>
    painted (Lines s) (Columns s) D F (Buffer s) b)"
  by (auto simp: paints_def)

lemma paints_Dirty: "paints D F s t \<Longrightarrow> paints D F (s\<lparr>Dirty := d\<rparr>) (t\<lparr>Dirty := d\<rparr>)"
proof -
  assume "paints D F s t"
  then obtain b where "t = s\<lparr>Buffer := b\<rparr>" "painted (Lines s) (Columns s) D F (Buffer s) b"
    by (auto simp: paints_iff)
  then show ?thesis unfolding paints_iff by (intro exI [of _ b]) simp
qed

lemma paints_Dirty_Un:
  assumes "paints D F s t"
  shows "paints D F (s\<lparr>Dirty := Dirty s \<union> X\<rparr>) (t\<lparr>Dirty := Dirty t \<union> X\<rparr>)"
proof -
  have "Dirty t = Dirty s" using paints_frame [OF assms] by auto
  then show ?thesis using paints_Dirty [OF assms, of "Dirty s \<union> X"] by simp
qed

lemma eraseInDisplay_ignored: "eraseInDisplay 3 private True s = Some s"
  by (simp add: eraseInDisplay_def)

lemma eraseInDisplay_paints:
  assumes wf: "wf_screen s" and sel: "\<not> (how0 = 3 \<and> selective)" and how: "how = (if how0 = 3 then 2 else how0)"
  shows "returns (\<lambda>s'. \<exists>d. paints ((if how = 0 \<or> how = 1 then {row s} \<times> erase_cols how s else {}) \<union>
        erase_rows how s \<times> {0..Columns s - 1})
      (\<lambda>r c. erased private (erasedCell s) (cell_at (Buffer s) r c)) (s\<lparr>Dirty := d\<rparr>) s')
    (eraseInDisplay how0 private selective s)"
proof -
  let ?F = "\<lambda>r c. erased private (erasedCell s) (cell_at (Buffer s) r c)"
  let ?D = "if how = 0 \<or> how = 1 then {row s} \<times> erase_cols how s else {}"
  let ?d = "if how = 0 \<or> how = 1 then insert (row s) (Dirty s) else Dirty s"
  define start where "start = (if how = 0 then row s + 1 else 0)"
  define fin where "fin = (if how = 0 then Lines s else if how = 1 then row s else if how = 2 then Lines s else 0)"
  have sf: "(if how = 0 then (row s + 1, Lines s) else if how = 1 then (0, row s)
      else if how = 2 then (0, Lines s) else (0, 0)) = (start, fin)"
    by (simp add: start_def fin_def)
  have rows: "erase_rows how s = {start..fin - 1}" and b: "0 \<le> start" "fin - 1 < Lines s"
    using wf_row [OF wf] wf_Lines [OF wf] by (auto simp: erase_rows_def start_def fin_def)
  have "returns (paints ?D ?F (s\<lparr>Dirty := ?d\<rparr>)) (if how = 0 \<or> how = 1 then EraseInLine how private s else Some s)"
    using EraseInLine_paints [OF wf, of how "private"] wf_grid [OF wf]
    by (auto simp: paints_def painted_refl)
  then have "returns (paints (?D \<union> erase_rows how s \<times> {0..Columns s - 1}) ?F (s\<lparr>Dirty := ?d\<rparr>))
     ((if how = 0 \<or> how = 1 then EraseInLine how private s else Some s) \<bind>
      (\<lambda>s. on_buffer (for_each (\<lambda>r. for_each (eraseCell private (erasedCell s) r) [0..Columns s - 1]) [start..fin - 1]) s))"
  proof (rule returns_bind)
    fix t assume t: "paints ?D ?F (s\<lparr>Dirty := ?d\<rparr>) t"
    then have wf_t: "wf_screen t" using wf by (auto intro: paints_wf)
    obtain bb where tt: "t = s\<lparr>Dirty := ?d, Buffer := bb\<rparr>" using paints_frame [OF t] by auto
    have F: "erased private (erasedCell t) (cell_at (Buffer t) r c) = ?F r c"
      if "inside (Lines s) (Columns s) r c" "r \<in> {start..fin - 1}" for r c
      using paints_cell [OF t, of r c] that tt by (auto simp: start_def fin_def split: if_splits)
    have "returns (paints ({start..fin - 1} \<times> {0..Columns t - 1})
        (\<lambda>r c. erased private (erasedCell t) (cell_at (Buffer t) r c)) t)
      (on_buffer (for_each (\<lambda>r. for_each (eraseCell private (erasedCell t) r) [0..Columns t - 1]) [start..fin - 1]) t)"
      using b tt by (intro erase_block_paints [OF wf_t]) auto
    then show "returns (paints (?D \<union> erase_rows how s \<times> {0..Columns s - 1}) ?F (s\<lparr>Dirty := ?d\<rparr>))
      (on_buffer (for_each (\<lambda>r. for_each (eraseCell private (erasedCell t) r) [0..Columns t - 1]) [start..fin - 1]) t)"
      unfolding rows
    proof (rule returns_mono)
      fix u
      assume "paints ({start..fin - 1} \<times> {0..Columns t - 1})
        (\<lambda>r c. erased private (erasedCell t) (cell_at (Buffer t) r c)) t u"
      from paints_seq [OF t this] F tt
      show "paints (?D \<union> {start..fin - 1} \<times> {0..Columns s - 1}) ?F (s\<lparr>Dirty := ?d\<rparr>) u" by simp
    qed
  qed
  moreover have "\<exists>d. paints D ?F (s\<lparr>Dirty := d\<rparr>)
      (if how = 2 then markDirtyRange 0 (Lines (u\<lparr>Dirty := x\<rparr>) - 1) (u\<lparr>Dirty := x\<rparr>) else u\<lparr>Dirty := x\<rparr>)"
    if "paints D ?F (s\<lparr>Dirty := ?d\<rparr>) u" for D u x
    using paints_Dirty [OF that, of x] paints_Dirty [OF that, of "x \<union> {0..Lines u - 1}"] by auto
  ultimately show ?thesis
    unfolding eraseInDisplay_def Let_def how [symmetric] sf prod.case
    using sel by (simp only: if_False returns_bind_iff returns_Some) (erule returns_mono, erule returns_mono, blast)
qed

section \<open>Rectangles\<close>

lemma clipRect_bounds:
  assumes "wf_screen s" "clipRect s t0 l0 b0 r0 = Some (tp, left, bt, right)"
  shows "1 \<le> tp" "1 \<le> left" "bt \<le> Lines s" "right \<le> Columns s"
  using assms by (auto simp: clipRect_def Let_def split: if_split_asm prod.splits)

lemma block_rewrite_paints:
  assumes wf: "wf_screen s" and b: "1 \<le> tp" "1 \<le> left" "bt \<le> Lines s" "right \<le> Columns s"
    and f: "\<And>r c h. inside (Lines s) (Columns s) r c \<Longrightarrow> grid_ok (Lines s) (Columns s) h \<Longrightarrow>
      returns (painted (Lines s) (Columns s) {(r, c)} (\<lambda>r c. F (cell_at h r c)) h) (f r c h)"
  shows "returns (paints ({tp - 1..bt - 1} \<times> {left - 1..right - 1}) (\<lambda>r c. F (cell_at (Buffer s) r c)) s)
    (on_buffer (for_each (\<lambda>r. for_each (f r) [left - 1..right - 1]) [tp - 1..bt - 1]) s)"
  using b by (intro on_buffer_paints rewrite_block_painted [OF wf_grid [OF wf]] f) auto

lemma cell_rewrite_painted:
  fixes h :: "Cell grid"
  assumes "inside L C r c" "grid_ok L C h"
  shows "returns (painted L C {(r, c)} (\<lambda>r c. if P (cell_at h r c) then cell_at h r c else F (cell_at h r c)) h)
    (do { cell \<leftarrow> get h r c; if P cell then Some h else put r c (F cell) h })"
  using assms by (auto simp: slice_simps intro!: painted_gset painted_same)

lemma SelectiveEraseRectangle_paints:
  assumes wf: "wf_screen s" and clip: "clipRect s t0 l0 b0 r0 = Some (tp, left, bt, right)"
  shows "returns (paints ({tp - 1..bt - 1} \<times> {left - 1..right - 1})
      (\<lambda>r c. if Protected (CellAttr (cell_at (Buffer s) r c)) then cell_at (Buffer s) r c
             else \<lparr>Data = '' '', CellAttr = defaultAttr s\<rparr>) (s\<lparr>Dirty := Dirty s \<union> {tp - 1..bt - 1}\<rparr>))
    (SelectiveEraseRectangle t0 l0 b0 r0 s)"
proof -
  have "returns (paints ({tp - 1..bt - 1} \<times> {left - 1..right - 1})
      (\<lambda>r c. if Protected (CellAttr (cell_at (Buffer s) r c)) then cell_at (Buffer s) r c
             else \<lparr>Data = '' '', CellAttr = defaultAttr s\<rparr>) s)
     (on_buffer (for_each (\<lambda>r. for_each (\<lambda>c g. do {
                cell \<leftarrow> get g r c;
                if Protected (CellAttr cell) then Some g
                else put r c \<lparr>Data = '' '', CellAttr = defaultAttr s\<rparr> g }) [left - 1..right - 1])
              [tp - 1..bt - 1]) s)"
    by (rule block_rewrite_paints [OF wf clipRect_bounds [OF wf clip], where F = "\<lambda>cell. if Protected (CellAttr cell)
        then cell else \<lparr>Data = '' '', CellAttr = defaultAttr s\<rparr>"]) (rule cell_rewrite_painted)
  then show ?thesis
    unfolding SelectiveEraseRectangle_def clip option.case prod.case
    by (rule returns_bind) (auto intro: paints_Dirty_Un)
qed

lemma fillRectangle_paints:
  assumes wf: "wf_screen s" and clip: "clipRect s t0 l0 b0 r0 = Some (tp, left, bt, right)"
  shows "returns (paints ({tp - 1..bt - 1} \<times> {left - 1..right - 1})
      (\<lambda>r c. if Protected (CellAttr (cell_at (Buffer s) r c)) then cell_at (Buffer s) r c
             else (cell_at (Buffer s) r c)\<lparr>Data := data\<rparr>) (s\<lparr>Dirty := Dirty s \<union> {tp - 1..bt - 1}\<rparr>))
    (fillRectangle t0 l0 b0 r0 data s)"
proof -
  have "returns (paints ({tp - 1..bt - 1} \<times> {left - 1..right - 1})
      (\<lambda>r c. if Protected (CellAttr (cell_at (Buffer s) r c)) then cell_at (Buffer s) r c
             else (cell_at (Buffer s) r c)\<lparr>Data := data\<rparr>) s)
     (on_buffer (for_each (\<lambda>r. for_each (\<lambda>c g. do {
                cell \<leftarrow> get g r c;
                if Protected (CellAttr cell) then Some g
                else put r c (cell\<lparr>Data := data\<rparr>) g }) [left - 1..right - 1])
              [tp - 1..bt - 1]) s)"
    by (rule block_rewrite_paints [OF wf clipRect_bounds [OF wf clip], where F = "\<lambda>cell. if Protected (CellAttr cell)
        then cell else cell\<lparr>Data := data\<rparr>"]) (rule cell_rewrite_painted)
  then show ?thesis
    unfolding fillRectangle_def clip option.case prod.case
    by (rule returns_bind) (auto intro: paints_Dirty_Un)
qed

lemma copyTemp_grid:
  assumes g: "grid_ok L C g" and b: "0 \<le> t0" "t0 + height \<le> L" "0 \<le> l0" "l0 + width \<le> C" "0 \<le> height" "0 \<le> width"
  shows "returns (\<lambda>temp. grid_ok height width temp \<and>
      (\<forall>r c. inside height width r c \<longrightarrow> cell_at temp r c = cell_at g (t0 + r) (l0 + c)))
    (copyTemp t0 l0 height width g)"
proof -
  let ?I = "\<lambda>pre temp. grid_ok (int (length pre)) width temp \<and>
      (\<forall>r c. inside (int (length pre)) width r c \<longrightarrow> cell_at temp r c = cell_at g (t0 + r) (l0 + c))"
  have "returns (?I [0..height - 1]) (for_each (\<lambda>r temp. do {
      line \<leftarrow> idx g (t0 + r);
      seg \<leftarrow> slice line l0 (l0 + width);
      Some (temp @ [seg]) }) [0..height - 1] [])"
  proof (rule returns_for_each_prefix)
    show "?I [] []" by (auto simp: grid_ok_def inside_def)
  next
    fix pre x post and temp :: "Cell grid"
    assume xs: "[0..height - 1] = pre @ x # post" and I: "?I pre temp"
    have x: "0 \<le> x" "x < height" and len: "int (length pre) = x"
      using sorted_prefix_upto [OF xs] upto_prefix_length [OF xs] by auto
    then have row: "idx g (t0 + x) = Some (g ! nat (t0 + x))" "int (length (g ! nat (t0 + x))) = C"
      using idx_row [OF g, of "t0 + x"] grid_ok_row [OF g, of "t0 + x"] b by auto
    let ?seg = "take (nat width) (drop (nat l0) (g ! nat (t0 + x)))"
    have seg: "slice (g ! nat (t0 + x)) l0 (l0 + width) = Some ?seg"
      using row b by (simp add: slice_def)
    have "length temp = nat x" using I len by (auto simp: grid_ok_def)
    moreover have "length ?seg = nat width" using row b by simp
    moreover have "?seg ! nat c = g ! nat (t0 + x) ! nat (l0 + c)" if "0 \<le> c" "c < width" for c
      using that row b by (simp add: nat_add_distrib)
    ultimately have "cell_at (temp @ [?seg]) r c = cell_at g (t0 + r) (l0 + c)"
      if "inside (x + 1) width r c" for r c
      using I that len by (cases "r = x") (auto simp: inside_def cell_at_def nth_append)
    moreover have "grid_ok (x + 1) width (temp @ [?seg])"
      using I len \<open>length ?seg = nat width\<close> b by (auto simp: grid_ok_def)
    ultimately have "?I (pre @ [x]) (temp @ [?seg])"
      using len by (simp add: add.commute)
    then show "returns (?I (pre @ [x])) (do { line \<leftarrow> idx g (t0 + x);
        seg \<leftarrow> slice line l0 (l0 + width); Some (temp @ [seg]) })"
      using row seg by simp
  qed
  moreover have "int (length [0..height - 1]) = height" using b by simp
  ultimately show ?thesis unfolding copyTemp_def by simp
qed

text \<open>The origin-mode offset of the destination of \<open>CopyRectangle\<close>.\<close>

definition rect_origin :: "Screen \<Rightarrow> int \<times> int" where
  "rect_origin s = (case Margins s of
      Some m \<Rightarrow> if isModeSet s ModeDECOM
                then (Top m, if isModeSet s ModeDECLRMM then leftMargin s else 0) else (0, 0)
    | None \<Rightarrow> (0, 0))"

lemma shifted_ex: "d \<le> x \<Longrightarrow> x \<le> d + w \<Longrightarrow> \<exists>y \<in> {0..w}. x = d + (y::int)"
  by (rule bexI [of _ "x - d"]) auto

lemma shifted_interval: "(\<Union>c \<in> {0..w}. {(r, d + c)}) = {r} \<times> {d..d + (w::int)}"
  by (auto intro: shifted_ex)

lemma pasteRow_painted:
  fixes g :: "Cell grid"
  assumes g: "grid_ok L C g" and temp: "grid_ok height width temp" and r: "0 \<le> r" "r < height"
    and F: "\<And>c. 0 \<le> c \<Longrightarrow> c < width \<Longrightarrow> F (t0 + r) (l0 + c) = cell_at temp r c"
  shows "returns (painted L C ({t0 + r} \<times> {l0..l0 + (width - 1)}) F g) (pasteRow L C temp t0 l0 width r g)"
proof (cases "0 \<le> t0 + r \<and> t0 + r < L")
  case False
  then show ?thesis using g by (auto simp: pasteRow_def Let_def inside_def intro!: painted_same)
next
  case True
  let ?f = "\<lambda>c g. let dstCol = l0 + c in
    if dstCol < 0 \<or> dstCol \<ge> C then Some g
    else do { v \<leftarrow> get temp r c; put (t0 + r) dstCol v g }"
  have "returns (painted L C (\<Union>c \<in> set [0..width - 1]. {(t0 + r, l0 + c)}) F g) (for_each ?f [0..width - 1] g)"
  proof (rule for_each_painted [OF g])
    fix pre x post and h :: "Cell grid"
    assume xs: "[0..width - 1] = pre @ x # post" and h: "grid_ok L C h"
    have x: "0 \<le> x" "x < width" using sorted_prefix_upto [OF xs] by auto
    have t: "inside height width r x" using r x by (simp add: inside_def)
    show "returns (painted L C {(t0 + r, l0 + x)} F h) (?f x h)"
    proof (cases "0 \<le> l0 + x \<and> l0 + x < C")
      case ins: True
      then have "inside L C (t0 + r) (l0 + x)"
        using True by (simp add: inside_def)
      then show ?thesis
        using ins h get_in [OF temp t] F [OF x] put_in [OF h] by (auto intro!: painted_gset)
    next
      case False
      then show ?thesis using h by (auto simp: inside_def intro!: painted_same)
    qed
  qed
  then show ?thesis using True by (simp add: pasteRow_def Let_def shifted_interval)
qed

lemma CopyRectangle_paints:
  assumes wf: "wf_screen s" and clip: "clipRect s t0 l0 b0 r0 = Some (tp, left, bt, right)"
    and ne: "tp \<le> bt" "left \<le> right" and org: "rect_origin s = (dy, dx)"
    and dT: "dT = (if dT0 \<le> 0 then 1 else dT0) + dy - 1"
    and dL: "dL = (if dL0 \<le> 0 then 1 else dL0) + dx - 1"
  shows "returns (paints ({dT..dT + (bt - tp)} \<times> {dL..dL + (right - left)})
      (\<lambda>r c. cell_at (Buffer s) (tp - 1 + (r - dT)) (left - 1 + (c - dL)))
      (s\<lparr>Dirty := Dirty s \<union> ({dT..dT + (bt - tp)} \<inter> {0..Lines s - 1})\<rparr>))
    (CopyRectangle t0 l0 b0 r0 dT0 dL0 s)"
proof -
  note cb = clipRect_bounds [OF wf clip]
  let ?h = "bt - tp + 1" and ?w = "right - left + 1"
  let ?F = "\<lambda>r c. cell_at (Buffer s) (tp - 1 + (r - dT)) (left - 1 + (c - dL))"
  let ?D = "{dT..dT + (bt - tp)} \<times> {dL..dL + (right - left)}"
  have loop: "returns (paints ?D ?F s)
      (on_buffer (for_each (pasteRow (Lines s) (Columns s) temp dT dL ?w) [0..?h - 1]) s)"
    if temp: "grid_ok ?h ?w temp \<and> (\<forall>r c. inside ?h ?w r c \<longrightarrow>
        cell_at temp r c = cell_at (Buffer s) (tp - 1 + r) (left - 1 + c))" for temp
  proof (rule on_buffer_paints)
    have "returns (painted (Lines s) (Columns s) (\<Union>r \<in> set [0..?h - 1]. {dT + r} \<times> {dL..dL + (?w - 1)}) ?F (Buffer s))
        (for_each (pasteRow (Lines s) (Columns s) temp dT dL ?w) [0..?h - 1] (Buffer s))"
    proof (rule for_each_painted [OF wf_grid [OF wf]])
      fix pre x post and h :: "Cell grid"
      assume xs: "[0..?h - 1] = pre @ x # post" and h: "grid_ok (Lines s) (Columns s) h"
      have x: "0 \<le> x" "x < ?h" using sorted_prefix_upto [OF xs] by auto
      show "returns (painted (Lines s) (Columns s) ({dT + x} \<times> {dL..dL + (?w - 1)}) ?F h)
          (pasteRow (Lines s) (Columns s) temp dT dL ?w x h)"
        using temp x by (intro pasteRow_painted [OF h _ x]) (auto simp: inside_def)
    qed
    moreover have "(\<Union>r \<in> set [0..?h - 1]. {dT + r} \<times> {dL..dL + (?w - 1)}) = ?D"
      by (auto intro: shifted_ex)
    ultimately show "returns (painted (Lines s) (Columns s) ?D ?F (Buffer s))
        (for_each (pasteRow (Lines s) (Columns s) temp dT dL ?w) [0..?h - 1] (Buffer s))" by simp
  qed
  have ct: "returns (\<lambda>temp. grid_ok ?h ?w temp \<and> (\<forall>r c. inside ?h ?w r c \<longrightarrow>
        cell_at temp r c = cell_at (Buffer s) (tp - 1 + r) (left - 1 + c)))
      (copyTemp (tp - 1) (left - 1) ?h ?w (Buffer s))"
    using cb ne by (intro copyTemp_grid [OF wf_grid [OF wf]]) auto
  have e: "(if dT0 \<le> 0 then 1 else dT0) + dy - 1 = dT" "(if dL0 \<le> 0 then 1 else dL0) + dx - 1 = dL"
    "dT + ?h - 1 = dT + (bt - tp)" using dT dL by simp_all
  have ne': "(?h \<le> 0 \<or> ?w \<le> 0) = False" using ne by simp
  show ?thesis
    unfolding CopyRectangle_def clip option.case prod.case Let_def rect_origin_def [symmetric] org e ne' if_False
  proof (rule returns_bind [OF ct], rule returns_bind [OF loop])
    fix t assume t: "paints ?D ?F s t"
    then have "Lines t = Lines s" using paints_frame by fastforce
    then show "returns (paints ?D ?F (s\<lparr>Dirty := Dirty s \<union> ({dT..dT + (bt - tp)} \<inter> {0..Lines s - 1})\<rparr>))
        (Some (t\<lparr>Dirty := Dirty t \<union> ({dT..dT + (bt - tp)} \<inter> {0..Lines t - 1})\<rparr>))"
      using paints_Dirty_Un [OF t] by (simp only: returns_Some)
  qed
qed

section \<open>The invariant\<close>

lemma EraseCharacters_wf [wf_returns]: "wf_screen s \<Longrightarrow> returns wf_screen (EraseCharacters params s)"
proof -
  assume wf: "wf_screen s"
  show ?thesis
  proof (cases "col s < Columns s")
    case True
    then show ?thesis using wf by (intro returns_paints_wf [OF EraseCharacters_paints]) auto
  qed (use wf in \<open>simp add: EraseCharacters_def Let_def\<close>)
qed

lemma EraseInLine_wf [wf_returns]: "wf_screen s \<Longrightarrow> returns wf_screen (EraseInLine how pr s)"
  by (rule returns_paints_wf [OF EraseInLine_paints]) auto

lemma eraseInDisplay_wf [wf_returns]: "wf_screen s \<Longrightarrow> returns wf_screen (eraseInDisplay how pr sel s)"
proof -
  assume wf: "wf_screen s"
  show ?thesis
  proof (cases "how = 3 \<and> sel")
    case True
    then show ?thesis using wf by (simp add: eraseInDisplay_def)
  next
    case False
    from eraseInDisplay_paints [OF wf this refl, of pr] show ?thesis
      using wf by (auto elim!: returns_mono dest!: paints_wf)
  qed
qed

lemma EraseInDisplay_wf [wf_returns]:
  "wf_screen s \<Longrightarrow> returns wf_screen (EraseInDisplay how pr s)"
  "wf_screen s \<Longrightarrow> returns wf_screen (EraseInDisplaySelective how s)"
  by (simp_all add: EraseInDisplay_def EraseInDisplaySelective_def wf_returns)

lemma SelectiveEraseRectangle_wf [wf_returns]:
  "wf_screen s \<Longrightarrow> returns wf_screen (SelectiveEraseRectangle t0 l0 b0 r0 s)"
proof (cases "clipRect s t0 l0 b0 r0")
  case (Some x)
  moreover obtain tp left bt right where "x = (tp, left, bt, right)" by (metis surj_pair)
  moreover assume "wf_screen s"
  ultimately show ?thesis by (intro returns_paints_wf [OF SelectiveEraseRectangle_paints]) auto
qed (simp add: SelectiveEraseRectangle_def)

lemma fillRectangle_wf [wf_returns]:
  "wf_screen s \<Longrightarrow> returns wf_screen (fillRectangle t0 l0 b0 r0 data s)"
proof (cases "clipRect s t0 l0 b0 r0")
  case (Some x)
  moreover obtain tp left bt right where "x = (tp, left, bt, right)" by (metis surj_pair)
  moreover assume "wf_screen s"
  ultimately show ?thesis by (intro returns_paints_wf [OF fillRectangle_paints]) auto
qed (simp add: fillRectangle_def)

lemma FillRectangle_wf [wf_returns]:
  "wf_screen s \<Longrightarrow> returns wf_screen (FillRectangle ch t0 l0 b0 r0 s)"
  "wf_screen s \<Longrightarrow> returns wf_screen (EraseRectangle t0 l0 b0 r0 s)"
  by (simp_all add: FillRectangle_def EraseRectangle_def wf_returns)

lemma CopyRectangle_wf [wf_returns]:
  assumes wf: "wf_screen s"
  shows "returns wf_screen (CopyRectangle t0 l0 b0 r0 dT0 dL0 s)"
proof (cases "clipRect s t0 l0 b0 r0")
  case (Some x)
  obtain tp left bt right where x: "x = (tp, left, bt, right)" by (metis surj_pair)
  obtain dy dx where org: "rect_origin s = (dy, dx)" by force
  show ?thesis
  proof (cases "tp \<le> bt \<and> left \<le> right")
    case True
    then show ?thesis
      using wf Some x org
      by (intro returns_paints_wf [OF CopyRectangle_paints [OF wf _ _ _ org refl refl]]) auto
  next
    case False
    then have "bt - tp + 1 \<le> 0 \<or> right - left + 1 \<le> 0" by auto
    then show ?thesis using wf Some x by (simp add: CopyRectangle_def Let_def split: prod.splits)
  qed
qed (use wf in \<open>simp add: CopyRectangle_def\<close>)

lemma AlignmentDisplay_wf [wf_returns]:
  assumes wf: "wf_screen s"
  shows "returns wf_screen (AlignmentDisplay s)"
proof -
  define t where "t = markDirtyRange 0 (Lines s - 1) s"
  have wf': "wf_screen t" using wf by (simp add: t_def)
  have "returns (paints ({0..Lines t - 1} \<times> {0..Columns t - 1}) (\<lambda>r c. (cell_at (Buffer t) r c)\<lparr>Data := ''E''\<rparr>) t)
     (on_buffer (for_each (\<lambda>r. for_each (\<lambda>c g. do {
              cell \<leftarrow> get g r c; put r c (cell\<lparr>Data := ''E''\<rparr>) g }) [0..Columns t - 1])
            [0..Lines t - 1]) t)"
  proof (rule on_buffer_paints,
      rule rewrite_block_painted [OF wf_grid [OF wf'], where F = "\<lambda>cell. cell\<lparr>Data := ''E''\<rparr>"])
    fix r c and h :: "Cell grid"
    assume "inside (Lines t) (Columns t) r c" "grid_ok (Lines t) (Columns t) h"
    then show "returns (painted (Lines t) (Columns t) {(r, c)} (\<lambda>r c. (cell_at h r c)\<lparr>Data := ''E''\<rparr>) h)
        (do { cell \<leftarrow> get h r c; put r c (cell\<lparr>Data := ''E''\<rparr>) h })"
      by (simp add: get_in put_in painted_gset)
  qed simp_all
  then have "returns wf_screen (on_buffer (for_each (\<lambda>r. for_each (\<lambda>c g. do {
              cell \<leftarrow> get g r c; put r c (cell\<lparr>Data := ''E''\<rparr>) g }) [0..Columns t - 1])
            [0..Lines t - 1]) t)"
    by (rule returns_paints_wf [OF _ wf'])
  then show ?thesis
    unfolding AlignmentDisplay_def Let_def t_def [symmetric]
  proof (rule returns_bind)
    fix t assume t: "wf_screen t"
    have "wf_screen (t\<lparr>Margins := None, leftMargin := 0, rightMargin := Columns t - 1,
        lineWrapped := Some Map.empty, wrapNext := False\<rparr>)"
      using t wf_Columns [OF t] by (simp add: wf_screen_def)
    then show "returns wf_screen (Some (CursorPosition [0, 0] (t\<lparr>Margins := None, leftMargin := 0,
        rightMargin := Columns t - 1, lineWrapped := Some Map.empty, wrapNext := False\<rparr>)))"
      by (simp add: CursorPosition_wf)
  qed
qed

end
