(* ===== verification/TeSGR.thy ===== *)
theory TeSGR
  imports TeErase
begin

text \<open>
  \<open>SelectGraphicRendition\<close> of \<open>pkg/te/screen.go\<close> and the character-set and cursor-style setters.
  The loop over the parameter queue may panic: \<open>rgbHex\<close> indexes a digit table with the colour
  components, which the parser does not bound by 255.
\<close>

definition applyTextAttribute :: "string \<Rightarrow> Attr \<Rightarrow> Attr" where
  "applyTextAttribute flag a =
    (if flag = ''+bold'' then a\<lparr>Bold := True\<rparr>
     else if flag = ''+faint'' then a\<lparr>Faint := True\<rparr>
     else if flag = ''-intensity'' then a\<lparr>Bold := False, Faint := False\<rparr>
     else if flag = ''+italics'' then a\<lparr>Italics := True\<rparr>
     else if flag = ''-italics'' then a\<lparr>Italics := False\<rparr>
     else if flag = ''+underline'' then a\<lparr>Underline := True, UnderlineStyle := 1\<rparr>
     else if flag = ''-underline'' then a\<lparr>Underline := False, UnderlineStyle := 0\<rparr>
     else if flag = ''+overline'' then a\<lparr>Overline := True\<rparr>
     else if flag = ''-overline'' then a\<lparr>Overline := False\<rparr>
     else if flag = ''+blink'' then a\<lparr>Blink := True\<rparr>
     else if flag = ''-blink'' then a\<lparr>Blink := False\<rparr>
     else if flag = ''+reverse'' then a\<lparr>Reverse := True\<rparr>
     else if flag = ''-reverse'' then a\<lparr>Reverse := False\<rparr>
     else if flag = ''+strikethrough'' then a\<lparr>Strikethrough := True\<rparr>
     else if flag = ''-strikethrough'' then a\<lparr>Strikethrough := False\<rparr>
     else if flag = ''+conceal'' then a\<lparr>Conceal := True\<rparr>
     else if flag = ''-conceal'' then a\<lparr>Conceal := False\<rparr>
     else a)"

text \<open>
  The cases of the switch that consume one parameter. The three extended-colour codes 38, 48, 58
  occur in none of the tables and are handled by the loop.
\<close>

definition sgrSimple :: "Attr \<Rightarrow> int \<Rightarrow> Attr \<Rightarrow> Attr" where
  "sgrSimple dflt attr a =
    (if attr = 0 then dflt
     else if fgANSI attr \<noteq> [] then
       a\<lparr>Fg := colorFromName (fgANSI attr) ColorANSI16 (of_int (attr - 30))\<rparr>
     else if bgANSI attr \<noteq> [] then
       a\<lparr>Bg := colorFromName (bgANSI attr) ColorANSI16 (of_int (attr - 40))\<rparr>
     else if fgAixterm attr \<noteq> [] then
       a\<lparr>Fg := colorFromName (fgAixterm attr) ColorANSI16 (of_int (attr - 90 + 8))\<rparr>
     else if bgAixterm attr \<noteq> [] then
       a\<lparr>Bg := colorFromName (bgAixterm attr) ColorANSI16 (of_int (attr - 100 + 8))\<rparr>
     else if textAttributes attr \<noteq> [] then applyTextAttribute (textAttributes attr) a
     else if attr = 21 then a\<lparr>Underline := True, UnderlineStyle := 2\<rparr>
     else if attr \<ge> sgrUnderlineStyleBase \<and> attr \<le> sgrUnderlineStyleBase + 5 then
       (let style = of_int (attr - sgrUnderlineStyleBase)
        in if style = 0 then a\<lparr>Underline := False, UnderlineStyle := 0\<rparr>
           else a\<lparr>Underline := True, UnderlineStyle := style\<rparr>)
     else if attr = SgrDefaultUnderlineColor then a\<lparr>UnderlineColor := zeroColor\<rparr>
     else a)"

text \<open>
  The extended colour after 38, 48 or 58: the colour to store, if any, and the rest of the queue.
\<close>

definition extendedColor :: "int list \<Rightarrow> (Color option \<times> int list) option" where
  "extendedColor queue =
    (case queue of
       [] \<Rightarrow> Some (None, [])
     | mode # queue \<Rightarrow>
         if mode = 5 then
           (case queue of
              [] \<Rightarrow> Some (None, [])
            | index # queue \<Rightarrow>
                if index \<ge> 0 \<and> index < len fgBg256 then
                  Some (Some \<lparr>CMode = ColorANSI256, CIndex = of_int index, CName = fgBg256 ! nat index\<rparr>, queue)
                else Some (None, queue))
         else if mode = 2 then
           (case queue of
              r # g # b # queue \<Rightarrow> do {
                name \<leftarrow> rgbHex r g b;
                Some (Some \<lparr>CMode = ColorTrueColor, CIndex = 0, CName = name\<rparr>, queue) }
            | _ \<Rightarrow> Some (None, queue))
         else Some (None, queue))"

definition setTarget :: "int \<Rightarrow> Color option \<Rightarrow> Attr \<Rightarrow> Attr" where
  "setTarget attr c a =
    (case c of None \<Rightarrow> a
     | Some c \<Rightarrow> if attr = SgrFg256 then a\<lparr>Fg := c\<rparr>
                 else if attr = SgrBg256 then a\<lparr>Bg := c\<rparr>
                 else a\<lparr>UnderlineColor := c\<rparr>)"

definition is_extended :: "int \<Rightarrow> bool" where
  "is_extended attr \<longleftrightarrow> attr = SgrFg256 \<or> attr = SgrBg256 \<or> attr = SgrUnderlineColor"

lemma extendedColor_length:
  "extendedColor queue = Some (c, rest) \<Longrightarrow> length rest \<le> length queue"
  by (auto simp: extendedColor_def bind_eq_Some_conv split: list.splits if_splits)

function sgrLoop :: "Attr \<Rightarrow> int list \<Rightarrow> Attr \<Rightarrow> Attr option" where
  "sgrLoop dflt [] a = Some a"
| "sgrLoop dflt (attr # queue) a =
    (if is_extended attr then
       (case extendedColor queue of
          None \<Rightarrow> None
        | Some (c, rest) \<Rightarrow> sgrLoop dflt rest (setTarget attr c a))
     else sgrLoop dflt queue (sgrSimple dflt attr a))"
  by pat_completeness auto

termination
  by (relation "measure (\<lambda>(_, q, _). length q)") (auto dest: extendedColor_length)

definition SelectGraphicRendition :: "int list \<Rightarrow> bool \<Rightarrow> Screen \<Rightarrow> Screen option" where
  "SelectGraphicRendition attrs private s =
    (if private then Some s
     else if attrs = [] \<or> attrs = [0] then Some (s\<lparr>Cursor := (Cursor s)\<lparr>CurAttr := defaultAttr s\<rparr>\<rparr>)
     else do {
       replace \<leftarrow> sgrLoop (defaultAttr s) attrs (CurAttr (Cursor s));
       Some (s\<lparr>Cursor := (Cursor s)\<lparr>CurAttr := replace\<rparr>\<rparr>) })"

section \<open>Charsets, protection, style\<close>

definition DefineCharset :: "string \<Rightarrow> string \<Rightarrow> Screen \<Rightarrow> Screen" where
  "DefineCharset code mode s =
    (case charsetMaps code of
       None \<Rightarrow> s
     | Some m \<Rightarrow> if mode = ''('' then s\<lparr>G0 := m\<rparr>
                 else if mode = '')'' then s\<lparr>G1 := m\<rparr> else s)"

definition ShiftIn :: "Screen \<Rightarrow> Screen" where
  "ShiftIn s = s\<lparr>Charset := 0\<rparr>"

definition ShiftOut :: "Screen \<Rightarrow> Screen" where
  "ShiftOut s = s\<lparr>Charset := 1\<rparr>"

definition StartProtectedArea :: "Screen \<Rightarrow> Screen" where
  "StartProtectedArea s = s\<lparr>Cursor := (Cursor s)\<lparr>CurAttr := (CurAttr (Cursor s))\<lparr>ISOProtected := True\<rparr>\<rparr>\<rparr>"

definition EndProtectedArea :: "Screen \<Rightarrow> Screen" where
  "EndProtectedArea s = s\<lparr>Cursor := (Cursor s)\<lparr>CurAttr := (CurAttr (Cursor s))\<lparr>ISOProtected := False\<rparr>\<rparr>\<rparr>"

definition SetCharacterProtection :: "int \<Rightarrow> Screen \<Rightarrow> Screen" where
  "SetCharacterProtection mode s =
    s\<lparr>charProtectionMode := mode,
      Cursor := (Cursor s)\<lparr>CurAttr := (CurAttr (Cursor s))\<lparr>Protected := (mode = 1)\<rparr>\<rparr>\<rparr>"

definition SetCursorStyle :: "int \<Rightarrow> Screen \<Rightarrow> Screen" where
  "SetCursorStyle style s = s\<lparr>cursorStyle := style\<rparr>"

definition SetActiveStatusDisplay :: "int \<Rightarrow> Screen \<Rightarrow> Screen" where
  "SetActiveStatusDisplay mode s = s\<lparr>statusDisplay := mode\<rparr>"

section \<open>Lemmas\<close>

lemma wf_CurAttr [simp]: "wf_screen (s\<lparr>Cursor := (Cursor s)\<lparr>CurAttr := a\<rparr>\<rparr>) = wf_screen s"
  by (simp add: wf_screen_def)

lemma wf_Cursor_Hidden [simp]: "wf_screen (s\<lparr>Cursor := (Cursor s)\<lparr>Hidden := b\<rparr>\<rparr>) = wf_screen s"
  by (simp add: wf_screen_def)

text \<open>The parameters the truecolour form of SGR accepts.\<close>

definition byte_range :: "int \<Rightarrow> bool" where
  "byte_range v \<longleftrightarrow> 0 \<le> v \<and> v \<le> 255"

definition sgr_safe :: "int list \<Rightarrow> bool" where
  "sgr_safe attrs \<longleftrightarrow> (\<forall>pre a r g b post. attrs = pre @ [a, 2, r, g, b] @ post \<and> is_extended a \<longrightarrow>
     byte_range r \<and> byte_range g \<and> byte_range b)"

lemma sgr_safe_suffix: "sgr_safe (xs @ ys) \<Longrightarrow> sgr_safe ys"
  unfolding sgr_safe_def by (metis append.assoc)

lemma sgr_safe_Cons: "sgr_safe (x # xs) \<Longrightarrow> sgr_safe xs"
  using sgr_safe_suffix [of "[x]" xs] by simp

lemma extendedColor_suffix:
  "extendedColor queue = Some (c, rest) \<Longrightarrow> \<exists>pre. queue = pre @ rest"
  by (auto simp: extendedColor_def bind_eq_Some_conv split: list.splits if_splits)

lemma rgbHex_None: "rgbHex r g b = None \<longleftrightarrow> \<not> (byte_range r \<and> byte_range g \<and> byte_range b)"
  using rgbHex_range [of r g b] by (cases "rgbHex r g b") (auto simp: byte_range_def)

lemma extendedColor_None:
  "extendedColor queue = None \<longleftrightarrow>
   (\<exists>r g b rest. queue = 2 # r # g # b # rest \<and> \<not> (byte_range r \<and> byte_range g \<and> byte_range b))"
  by (simp add: extendedColor_def rgbHex_None bind_eq_None_conv split: list.split if_split)

lemma sgrLoop_safe: "sgr_safe attrs \<Longrightarrow> \<exists>a'. sgrLoop dflt attrs a = Some a'"
proof (induction dflt attrs a rule: sgrLoop.induct)
  case (2 dflt attr queue a)
  show ?case
  proof (cases "is_extended attr")
    case False
    then show ?thesis using 2 sgr_safe_Cons by auto
  next
    case True
    have "extendedColor queue \<noteq> None"
    proof
      assume "extendedColor queue = None"
      then obtain r g b rest where "queue = 2 # r # g # b # rest"
        "\<not> (byte_range r \<and> byte_range g \<and> byte_range b)" by (auto simp: extendedColor_None)
      then show False
        using 2(3) True unfolding sgr_safe_def by (metis append_Cons append_Nil)
    qed
    then obtain c rest where e: "extendedColor queue = Some (c, rest)" by force
    then have "sgr_safe rest"
      using 2(3) extendedColor_suffix sgr_safe_Cons sgr_safe_suffix by metis
    then show ?thesis using True e 2(1) by auto
  qed
qed simp

lemma sgr_safe_bytes: "list_all byte_range attrs \<Longrightarrow> sgr_safe attrs"
  by (auto simp: sgr_safe_def)

lemma sgrLoop_truecolor:
  "is_extended a0 \<Longrightarrow> sgrLoop dflt [a0, 2, r, g, b] a = None \<longleftrightarrow>
     \<not> (byte_range r \<and> byte_range g \<and> byte_range b)"
  using rgbHex_None [of r g b]
  by (cases "rgbHex r g b") (simp_all add: extendedColor_def)

lemma SGR_wf:
  assumes "wf_screen s" "sgr_safe attrs"
  shows "returns wf_screen (SelectGraphicRendition attrs pr s)"
proof -
  obtain a where "sgrLoop (defaultAttr s) attrs (CurAttr (Cursor s)) = Some a"
    using sgrLoop_safe [OF assms(2)] by blast
  then show ?thesis using assms(1) by (simp add: SelectGraphicRendition_def)
qed

lemma SGR_keeps_wf:
  "wf_screen s \<Longrightarrow> SelectGraphicRendition attrs pr s = Some t \<Longrightarrow> wf_screen t"
  by (auto simp: SelectGraphicRendition_def bind_eq_Some_conv split: if_splits)

lemma DefineCharset_wf [wf_intro]: "wf_screen s \<Longrightarrow> wf_screen (DefineCharset code mode s)"
  by (auto simp: DefineCharset_def wf_screen_def charsetMaps_length split: option.splits)

lemma charset_wf [wf_intro]:
  "wf_screen s \<Longrightarrow> wf_screen (ShiftIn s)" "wf_screen s \<Longrightarrow> wf_screen (ShiftOut s)"
  "wf_screen s \<Longrightarrow> wf_screen (StartProtectedArea s)" "wf_screen s \<Longrightarrow> wf_screen (EndProtectedArea s)"
  "wf_screen s \<Longrightarrow> wf_screen (SetCharacterProtection m s)" "wf_screen s \<Longrightarrow> wf_screen (SetCursorStyle m s)"
  "wf_screen s \<Longrightarrow> wf_screen (SetActiveStatusDisplay m s)"
  by (simp_all add: ShiftIn_def ShiftOut_def StartProtectedArea_def EndProtectedArea_def
      SetCharacterProtection_def SetCursorStyle_def SetActiveStatusDisplay_def wf_screen_def)

end
