(* ===== verification/TeModes.thy ===== *)
theory TeModes
  imports TeSGR
begin

text \<open>
  Modes, cursor restore, resize, the alternate screen and the resets of \<open>pkg/te/screen.go\<close>.

  In the code these call each other: \<open>applySetMode\<close> resizes the screen for DECCOLM, \<open>Resize\<close>
  restores the cursor, and restoring the cursor sets or resets DECOM and DECAWM. The recursion is
  never deeper than that, because the modes a restore sets do not resize. The bodies are defined
  with the callee as an argument and the knot is tied in that order; \<open>restoreCursorState_eq\<close>
  shows that the result satisfies the equations of the code.
\<close>

section \<open>The alternate screen\<close>

definition enterAltScreen :: "bool \<Rightarrow> bool \<Rightarrow> bool \<Rightarrow> Screen \<Rightarrow> Screen" where
  "enterAltScreen clear saveCursor moveCursor s =
    (if altActive s then s
     else
       (let s = (if saveCursor then s\<lparr>altSavedCursor := Some (Cursor s)\<rparr> else s);
            s = (if altBuffer s = []
                 then s\<lparr>altBuffer := makeBlankCells (Lines s) (Columns s), altLineWrapped := Some Map.empty\<rparr>
                 else s);
            s = s\<lparr>Buffer := altBuffer s, altBuffer := Buffer s,
                  Savepoints := altSavepoints s, altSavepoints := Savepoints s,
                  lineWrapped := altLineWrapped s, altLineWrapped := lineWrapped s,
                  wrapNext := altWrapNext s, altWrapNext := wrapNext s,
                  altActive := True\<rparr>;
            s = (if clear
                 then s\<lparr>Buffer := makeBlankCells (Lines s) (Columns s), lineWrapped := Some Map.empty,
                        wrapNext := False\<rparr>
                 else s);
            s = (if moveCursor then CursorPosition [0, 0] s else s)
        in markDirtyRange 0 (Lines s - 1) s))"

definition exitAltScreen :: "bool \<Rightarrow> bool \<Rightarrow> Screen \<Rightarrow> Screen" where
  "exitAltScreen clear restoreCursor s =
    (if \<not> altActive s then s
     else
       (let s = s\<lparr>Buffer := altBuffer s, altBuffer := Buffer s,
                  Savepoints := altSavepoints s, altSavepoints := Savepoints s,
                  lineWrapped := altLineWrapped s, altLineWrapped := lineWrapped s,
                  wrapNext := altWrapNext s, altWrapNext := wrapNext s,
                  altActive := False\<rparr>;
            s = (if clear
                 then s\<lparr>altBuffer := makeBlankCells (Lines s) (Columns s), altLineWrapped := Some Map.empty,
                        altWrapNext := False, altSavepoints := []\<rparr>
                 else s);
            s = (case altSavedCursor s of
                   Some c \<Rightarrow>
                     if restoreCursor then
                       (let s = s\<lparr>Cursor := c\<rparr>;
                            s = (if row s \<ge> Lines s then atRow (Lines s - 1) s else s);
                            s = (if col s \<ge> Columns s then atCol (Columns s - 1) s else s) in s)
                     else s
                 | None \<Rightarrow> s);
            s = s\<lparr>altSavedCursor := None\<rparr>
        in markDirtyRange 0 (Lines s - 1) s))"

section \<open>Setting and resetting modes\<close>

definition setReverse :: "bool \<Rightarrow> Screen \<Rightarrow> Screen option" where
  "setReverse b s =
    on_buffer (for_each (\<lambda>r. for_each (\<lambda>c g. do {
        cell \<leftarrow> get g r c;
        put r c (cell\<lparr>CellAttr := (CellAttr cell)\<lparr>Reverse := b\<rparr>\<rparr>) g }) [0..Columns s - 1])
      [0..Lines s - 1]) s"

text \<open>\<open>resize\<close> stands for the method \<open>s.Resize\<close>.\<close>

definition applySetMode_body ::
  "(int \<Rightarrow> int \<Rightarrow> Screen \<Rightarrow> Screen option) \<Rightarrow> int \<Rightarrow> bool \<Rightarrow> Screen \<Rightarrow> Screen option" where
  "applySetMode_body resize mode0 private s =
    (let mode = (if private then PrivateMode mode0 else mode0);
         s = s\<lparr>Mode := insert mode (Mode s)\<rparr> in
     if mode = ModeDECLRMM \<and> conformanceExplicit s \<and> conformanceLevel s < 4
     then Some (s\<lparr>Mode := Mode s - {mode}\<rparr>)
     else if mode = ModeDECNCSM \<and> conformanceExplicit s \<and> conformanceLevel s < 5
     then Some (s\<lparr>Mode := Mode s - {mode}\<rparr>)
     else if mode = ModeDECCOLM \<and> \<not> isModeSet s ModeAllow80To132 then Some s
     else do {
       s \<leftarrow> (if mode = ModeDECCOLM then do {
               s \<leftarrow> resize (Lines s) 132 (s\<lparr>SavedColumns := Some (Columns s)\<rparr>);
               s \<leftarrow> (if \<not> isModeSet s ModeDECNCSM then EraseInDisplay 2 False s else Some s);
               Some (CursorPosition [0, 0] s) }
             else Some s);
       let s = (if mode = ModeDECSaveCursor then SaveCursorDEC s else s);
       let s = (if mode = ModeAltBuf \<or> mode = ModeAltBufOpt \<or> mode = ModeAltBufCursor
                then enterAltScreen (mode = ModeAltBufCursor) (mode = ModeAltBufCursor)
                       (mode = ModeAltBufCursor) s
                else s);
       let s = (if mode = ModeDECOM then CursorPosition [0, 0] s else s);
       s \<leftarrow> (if mode = ModeDECSCNM then do {
               s \<leftarrow> setReverse True (markDirtyRange 0 (Lines s - 1) s);
               SelectGraphicRendition [7] False s }
             else Some s);
       let s = (if mode = ModeDECTCEM then s\<lparr>Cursor := (Cursor s)\<lparr>Hidden := False\<rparr>\<rparr> else s);
       Some (if mode = ModeDECLRMM
             then CursorPosition [0, 0] (s\<lparr>leftMargin := 0, rightMargin := Columns s - 1\<rparr>) else s) })"

text \<open>\<open>restoreDEC\<close> stands for the method \<open>s.RestoreCursorDEC\<close>.\<close>

definition applyResetMode_body ::
  "(int \<Rightarrow> int \<Rightarrow> Screen \<Rightarrow> Screen option) \<Rightarrow> (Screen \<Rightarrow> Screen option) \<Rightarrow>
   int \<Rightarrow> bool \<Rightarrow> Screen \<Rightarrow> Screen option" where
  "applyResetMode_body resize restoreDEC mode0 private s =
    (let mode = (if private then PrivateMode mode0 else mode0);
         s = s\<lparr>Mode := Mode s - {mode}\<rparr> in
     if mode = ModeDECCOLM \<and> Columns s = 132 \<and> SavedColumns s \<noteq> None \<and> \<not> isModeSet s ModeAllow80To132
     then Some s
     else do {
       s \<leftarrow> (if mode = ModeDECCOLM then do {
               s \<leftarrow> (case SavedColumns s of
                       Some saved \<Rightarrow> if Columns s = 132
                                     then map_option (\<lambda>s. s\<lparr>SavedColumns := None\<rparr>) (resize (Lines s) saved s)
                                     else Some s
                     | None \<Rightarrow> Some s);
               s \<leftarrow> (if \<not> isModeSet s ModeDECNCSM then EraseInDisplay 2 False s else Some s);
               Some (CursorPosition [0, 0] s) }
             else Some s);
       s \<leftarrow> (if mode = ModeDECSaveCursor then restoreDEC s else Some s);
       let s = (if mode = ModeAltBuf then exitAltScreen False False s else s);
       let s = (if mode = ModeAltBufOpt then exitAltScreen True False s else s);
       let s = (if mode = ModeAltBufCursor then exitAltScreen True True s else s);
       let s = (if mode = ModeDECOM then CursorPosition [0, 0] s else s);
       s \<leftarrow> (if mode = ModeDECSCNM then do {
               s \<leftarrow> setReverse False (markDirtyRange 0 (Lines s - 1) s);
               SelectGraphicRendition [27] False s }
             else Some s);
       let s = (if mode = ModeDECTCEM then s\<lparr>Cursor := (Cursor s)\<lparr>Hidden := True\<rparr>\<rparr> else s);
       Some (if mode = ModeDECLRMM then s\<lparr>leftMargin := 0, rightMargin := Columns s - 1\<rparr> else s) })"

section \<open>Restoring the cursor\<close>

text \<open>The setting and resetting of a mode that never resizes nor restores the cursor.\<close>

definition setPlainMode :: "int \<Rightarrow> Screen \<Rightarrow> Screen option" where
  "setPlainMode mode = applySetMode_body (\<lambda>_ _ _. None) mode False"

definition resetPlainMode :: "int \<Rightarrow> Screen \<Rightarrow> Screen option" where
  "resetPlainMode mode = applyResetMode_body (\<lambda>_ _ _. None) (\<lambda>_. None) mode False"

definition restoreCursorState :: "bool \<Rightarrow> Screen \<Rightarrow> Screen option" where
  "restoreCursorState restoreMode s =
    (if Savepoints s = [] then do {
       s \<leftarrow> resetPlainMode ModeDECOM s;
       Some ((CursorPosition [0, 0] s)\<lparr>wrapNext := False\<rparr>) }
     else
       (let p = last (Savepoints s);
            s = s\<lparr>Savepoints := butlast (Savepoints s), G0 := SpG0 p, G1 := SpG1 p,
                  Charset := SpCharset p\<rparr> in do {
          s \<leftarrow> (if SpOrigin p then setPlainMode ModeDECOM s else resetPlainMode ModeDECOM s);
          s \<leftarrow> (if restoreMode
                then (if SpWrap p then setPlainMode ModeDECAWM s else resetPlainMode ModeDECAWM s)
                else Some s);
          let s = s\<lparr>wrapNext := SpWrapNext p, Cursor := SpCursor p\<rparr>;
          Some (ensureVB True (ensureHB s)) }))"

definition RestoreCursor :: "Screen \<Rightarrow> Screen option" where
  "RestoreCursor s = restoreCursorState True s"

definition RestoreCursorDEC :: "Screen \<Rightarrow> Screen option" where
  "RestoreCursorDEC s = restoreCursorState False s"

section \<open>Resize\<close>

definition fitRowsWidth :: "int \<Rightarrow> Cell \<Rightarrow> Cell grid \<Rightarrow> Cell grid option" where
  "fitRowsWidth columns blank buf =
    for_each (\<lambda>line out.
      if len line > columns then map_option (\<lambda>l. out @ [l]) (slice line 0 columns)
      else if len line < columns then Some (out @ [line @ replicate (nat (columns - len line)) blank])
      else Some (out @ [line])) buf []"

definition charPixels :: "Screen \<Rightarrow> Screen" where
  "charPixels s =
    (let s = (if charPixelWidth s = 0 then s\<lparr>charPixelWidth := 8\<rparr> else s)
     in if charPixelHeight s = 0 then s\<lparr>charPixelHeight := 16\<rparr> else s)"

definition windowPixels :: "Screen \<Rightarrow> Screen" where
  "windowPixels s = s\<lparr>windowPixelWidth := Columns s * charPixelWidth s,
                      windowPixelHeight := Lines s * charPixelHeight s\<rparr>"

definition screenPixels :: "Screen \<Rightarrow> Screen" where
  "screenPixels s =
    (let s = (if screenPixelWidth s = 0 then s\<lparr>screenPixelWidth := windowPixelWidth s\<rparr> else s)
     in if screenPixelHeight s = 0 then s\<lparr>screenPixelHeight := windowPixelHeight s\<rparr> else s)"

definition clampCursor :: "int \<Rightarrow> int \<Rightarrow> Screen \<Rightarrow> Screen" where
  "clampCursor lines columns s =
    (let s = (if row s \<ge> lines then atRow (lines - 1) s else s)
     in if col s \<ge> columns then atCol (columns - 1) s else s)"

text \<open>What follows the reshaping of the buffer in \<open>Resize\<close>.\<close>

definition finishResize :: "int \<Rightarrow> int \<Rightarrow> Screen \<Rightarrow> Screen" where
  "finishResize lines columns s =
    (let s = clampCursor lines columns (s\<lparr>Lines := lines, Columns := columns\<rparr>);
         s = screenPixels (windowPixels (charPixels ((SetMargins [0, 0] s)\<lparr>leftMargin := 0\<rparr>)));
         s = s\<lparr>rightMargin := Columns s - 1, lineWrapped := Some Map.empty, wrapNext := False\<rparr>
     in if altBuffer s \<noteq> []
        then s\<lparr>altBuffer := makeBlankCells lines columns, altLineWrapped := Some Map.empty,
               altSavepoints := [], altWrapNext := False\<rparr>
        else s)"

definition Resize :: "int \<Rightarrow> int \<Rightarrow> Screen \<Rightarrow> Screen option" where
  "Resize lines0 columns0 s =
    (let lines = (if lines0 \<le> 0 then 1 else lines0);
         columns = (if columns0 \<le> 0 then 1 else columns0) in
     if Lines s = lines \<and> Columns s = columns \<and> Buffer s \<noteq> [] then Some s
     else if Buffer s = [] then
       (let s = charPixels (s\<lparr>Lines := lines, Columns := columns, Buffer := makeBlankCells lines columns\<rparr>);
            s = s\<lparr>windowPixelWidth := Columns s * charPixelWidth s,
                  windowPixelHeight := Lines s * charPixelHeight s\<rparr>
        in Some (s\<lparr>screenPixelWidth := windowPixelWidth s, screenPixelHeight := windowPixelHeight s\<rparr>))
     else do {
       let s = markDirtyRange 0 (lines - 1) s;
       s \<leftarrow> (if lines < Lines s then do {
               s \<leftarrow> DeleteLines [Lines s - lines] (CursorPosition [0, 0] (SaveCursor s));
               s \<leftarrow> RestoreCursor s;
               b \<leftarrow> slice (Buffer s) 0 lines;
               Some (s\<lparr>Buffer := b\<rparr>) }
             else Some s);
       b \<leftarrow> fitRowsWidth columns (defaultCell s) (Buffer s);
       let s = s\<lparr>Buffer := b\<rparr>;
       let s = (if lines > Lines s
                then s\<lparr>Buffer := Buffer s @ replicate (nat (lines - Lines s)) (blankLine columns (defaultCell s))\<rparr>
                else s);
       Some (finishResize lines columns s) })"

definition applySetMode :: "int \<Rightarrow> bool \<Rightarrow> Screen \<Rightarrow> Screen option" where
  "applySetMode = applySetMode_body Resize"

definition applyResetMode :: "int \<Rightarrow> bool \<Rightarrow> Screen \<Rightarrow> Screen option" where
  "applyResetMode = applyResetMode_body Resize RestoreCursorDEC"

definition SetMode :: "int list \<Rightarrow> bool \<Rightarrow> Screen \<Rightarrow> Screen option" where
  "SetMode modes private s = for_each (\<lambda>mode. applySetMode mode private) modes s"

definition ResetMode :: "int list \<Rightarrow> bool \<Rightarrow> Screen \<Rightarrow> Screen option" where
  "ResetMode modes private s = for_each (\<lambda>mode. applyResetMode mode private) modes s"

section \<open>The invariant: alternate screen\<close>

lemma makeBlankCells_ok [simp]:
  "0 \<le> L \<Longrightarrow> 0 \<le> C \<Longrightarrow> grid_ok L C (makeBlankCells L C)"
  by (auto simp: makeBlankCells_def blankLine_def grid_ok_def)

lemma makeBlankCells_ne [simp]: "makeBlankCells L C = [] \<longleftrightarrow> L \<le> 0"
  by (simp add: makeBlankCells_def)

lemma wf_Buffer_ne: "wf_screen s \<Longrightarrow> Buffer s \<noteq> []"
  by (auto simp: wf_screen_def grid_ok_def)

text \<open>The part of a screen that \<open>enterAltScreen\<close> and \<open>exitAltScreen\<close> exchange.\<close>

definition swap_screens :: "Screen \<Rightarrow> Screen" where
  "swap_screens s = s\<lparr>Buffer := altBuffer s, altBuffer := Buffer s,
                  Savepoints := altSavepoints s, altSavepoints := Savepoints s,
                  lineWrapped := altLineWrapped s, altLineWrapped := lineWrapped s,
                  wrapNext := altWrapNext s, altWrapNext := wrapNext s\<rparr>"

lemma swap_screens_wf: "wf_screen s \<Longrightarrow> altBuffer s \<noteq> [] \<Longrightarrow> wf_screen ((swap_screens s)\<lparr>altActive := a\<rparr>)"
  using wf_Buffer_ne [of s] by (simp add: swap_screens_def wf_screen_def)

lemma wf_cleared:
  "wf_screen s \<Longrightarrow>
   wf_screen (s\<lparr>Buffer := makeBlankCells (Lines s) (Columns s), lineWrapped := Some m, wrapNext := w\<rparr>)"
  by (simp add: wf_screen_def)

lemma wf_alt_cleared:
  "wf_screen s \<Longrightarrow>
   wf_screen (s\<lparr>altBuffer := makeBlankCells (Lines s) (Columns s), altLineWrapped := Some m,
     altWrapNext := w, altSavepoints := []\<rparr>)"
  by (simp add: wf_screen_def)

lemma wf_alt_created:
  "wf_screen s \<Longrightarrow>
   wf_screen (s\<lparr>altBuffer := makeBlankCells (Lines s) (Columns s), altLineWrapped := Some m\<rparr>)"
  by (simp add: wf_screen_def)

lemma wf_altSavedCursor:
  "wf_screen s \<Longrightarrow> wf_screen (s\<lparr>altSavedCursor := Some (Cursor s)\<rparr>)"
  "wf_screen s \<Longrightarrow> wf_screen (s\<lparr>altSavedCursor := None\<rparr>)"
  by (auto simp: wf_screen_def)

lemma enterAltScreen_wf [wf_intro]:
  assumes wf: "wf_screen s"
  shows "wf_screen (enterAltScreen cl sv mv s)"
proof -
  define s1 where "s1 = (if sv then s\<lparr>altSavedCursor := Some (Cursor s)\<rparr> else s)"
  define s2 where "s2 = (if altBuffer s1 = []
      then s1\<lparr>altBuffer := makeBlankCells (Lines s1) (Columns s1), altLineWrapped := Some Map.empty\<rparr> else s1)"
  define s3 where "s3 = (swap_screens s2)\<lparr>altActive := True\<rparr>"
  define s4 where "s4 = (if cl then s3\<lparr>Buffer := makeBlankCells (Lines s3) (Columns s3),
      lineWrapped := Some Map.empty, wrapNext := False\<rparr> else s3)"
  have 1: "wf_screen s1" using wf by (simp add: s1_def wf_altSavedCursor)
  have 2: "wf_screen s2" "altBuffer s2 \<noteq> []"
    using wf_alt_created [OF 1] wf_Lines [OF 1] 1 by (auto simp: s2_def)
  have 3: "wf_screen s3" using swap_screens_wf [OF 2] by (simp add: s3_def)
  have 4: "wf_screen s4" using wf_cleared [OF 3] 3 by (simp add: s4_def)
  have eq: "enterAltScreen cl sv mv s = (if altActive s then s else
     markDirtyRange 0 (Lines (if mv then CursorPosition [0, 0] s4 else s4) - 1)
       (if mv then CursorPosition [0, 0] s4 else s4))"
    unfolding enterAltScreen_def Let_def s4_def s3_def s2_def s1_def swap_screens_def by (rule refl)
  show ?thesis
    unfolding eq using wf 4 by (simp add: CursorPosition_wf)
qed

lemma wf_restored_cursor:
  assumes "wf_screen s" "0 \<le> Row c" "0 \<le> Col c"
  shows "wf_screen (let s = s\<lparr>Cursor := c\<rparr>;
      s = (if row s \<ge> Lines s then atRow (Lines s - 1) s else s);
      s = (if col s \<ge> Columns s then atCol (Columns s - 1) s else s) in s)"
  using assms wf_Lines [OF assms(1)] wf_Columns [OF assms(1)]
  by (auto simp: Let_def wf_screen_def atRow_def atCol_def)

lemma exitAltScreen_wf [wf_intro]:
  assumes wf: "wf_screen s"
  shows "wf_screen (exitAltScreen cl rc s)"
proof (cases "altActive s")
  case True
  define s1 where "s1 = (swap_screens s)\<lparr>altActive := False\<rparr>"
  define s2 where "s2 = (if cl then s1\<lparr>altBuffer := makeBlankCells (Lines s1) (Columns s1),
      altLineWrapped := Some Map.empty, altWrapNext := False, altSavepoints := []\<rparr> else s1)"
  define s3 where "s3 = (case altSavedCursor s2 of Some c \<Rightarrow>
        if rc then (let s = s2\<lparr>Cursor := c\<rparr>;
                        s = (if row s \<ge> Lines s then atRow (Lines s - 1) s else s);
                        s = (if col s \<ge> Columns s then atCol (Columns s - 1) s else s) in s) else s2
      | None \<Rightarrow> s2)"
  have "altBuffer s \<noteq> []" using wf True by (simp add: wf_screen_def)
  then have 1: "wf_screen s1" using wf by (simp add: s1_def swap_screens_wf)
  have 2: "wf_screen s2" using wf_alt_cleared [OF 1] 1 by (simp add: s2_def)
  then have c: "0 \<le> Row c \<and> 0 \<le> Col c" if "altSavedCursor s2 = Some c" for c
    using that by (simp add: wf_screen_def)
  have 3: "wf_screen s3"
    unfolding s3_def using 2 wf_restored_cursor [OF 2] c by (auto split: option.split)
  have eq: "exitAltScreen cl rc s =
     markDirtyRange 0 (Lines (s3\<lparr>altSavedCursor := None\<rparr>) - 1) (s3\<lparr>altSavedCursor := None\<rparr>)"
    unfolding exitAltScreen_def s3_def s2_def s1_def swap_screens_def by (simp only: True Let_def simp_thms if_False)
  show ?thesis unfolding eq using wf_altSavedCursor(2) [OF 3] by simp
qed (use wf in \<open>simp add: exitAltScreen_def\<close>)

lemma setReverse_wf:
  assumes wf: "wf_screen s"
  shows "returns wf_screen (setReverse b s)"
proof -
  have "returns (paints ({0..Lines s - 1} \<times> {0..Columns s - 1})
      (\<lambda>r c. (cell_at (Buffer s) r c)\<lparr>CellAttr := (CellAttr (cell_at (Buffer s) r c))\<lparr>Reverse := b\<rparr>\<rparr>) s) (setReverse b s)"
    unfolding setReverse_def
  proof (rule on_buffer_paints, rule rewrite_block_painted
      [OF wf_grid [OF wf], where F = "\<lambda>cell. cell\<lparr>CellAttr := (CellAttr cell)\<lparr>Reverse := b\<rparr>\<rparr>"])
    fix r c and h :: "Cell grid"
    assume "inside (Lines s) (Columns s) r c" "grid_ok (Lines s) (Columns s) h"
    then show "returns (painted (Lines s) (Columns s) {(r, c)}
          (\<lambda>r c. (cell_at h r c)\<lparr>CellAttr := (CellAttr (cell_at h r c))\<lparr>Reverse := b\<rparr>\<rparr>) h)
        (do { cell \<leftarrow> get h r c; put r c (cell\<lparr>CellAttr := (CellAttr cell)\<lparr>Reverse := b\<rparr>\<rparr>) h })"
      by (simp add: get_in put_in painted_gset)
  qed simp_all
  then show ?thesis using wf by (rule returns_paints_wf)
qed

section \<open>The invariant: modes\<close>

lemma wf_Mode_remove [simp]: "wf_screen s \<Longrightarrow> wf_screen (s\<lparr>Mode := Mode s - X\<rparr>)"
  by (simp add: wf_screen_def)

lemma wf_Mode_insert: "wf_screen s \<Longrightarrow> m \<noteq> ModeDECLRMM \<Longrightarrow> wf_screen (s\<lparr>Mode := insert m (Mode s)\<rparr>)"
  by (simp add: wf_screen_def)

lemma wf_full_margins:
  "wf_screen s \<Longrightarrow> wf_screen (s\<lparr>leftMargin := 0, rightMargin := Columns s - 1\<rparr>)"
  by (simp add: wf_screen_def)

lemma wf_set_DECLRMM:
  "wf_screen s \<Longrightarrow> wf_screen (s\<lparr>Mode := insert m (Mode s), leftMargin := 0, rightMargin := Columns s - 1\<rparr>)"
  by (simp add: wf_screen_def)

lemma wf_SavedColumns [simp]: "wf_screen (s\<lparr>SavedColumns := c\<rparr>) = wf_screen s"
  by (simp add: wf_screen_def)

lemma sgr_safe_single [simp]: "sgr_safe [a]"
  by (auto simp: sgr_safe_def append_eq_Cons_conv)

definition mode_key :: "int \<Rightarrow> bool \<Rightarrow> int" where
  "mode_key mode private = (if private then PrivateMode mode else mode)"

text \<open>The DECSCNM step both bodies share.\<close>

lemma reverse_video_wf:
  "wf_screen s \<Longrightarrow> returns wf_screen (do {
     s \<leftarrow> setReverse b (markDirtyRange 0 (Lines s - 1) s); SelectGraphicRendition [a] False s })"
  by (rule returns_bind [OF setReverse_wf SGR_wf]) simp_all

lemma applySetMode_body_wf:
  assumes wf: "wf_screen s"
    and resize: "mode_key m p = ModeDECCOLM \<Longrightarrow> (\<And>l c s. wf_screen s \<Longrightarrow> returns wf_screen (resize l c s))"
  shows "returns wf_screen (applySetMode_body resize m p s)"
proof (cases "mode_key m p = ModeDECLRMM")
  case True
  have "wf_screen (CursorPosition [0, 0] (s\<lparr>Mode := insert (mode_key m p) (Mode s),
      leftMargin := 0, rightMargin := Columns s - 1\<rparr>))"
    using wf by (intro CursorPosition_wf wf_set_DECLRMM)
  moreover have "wf_screen (s\<lparr>Mode := Mode s - {mode_key m p}\<rparr>)" using wf by simp
  ultimately show ?thesis
    using True unfolding applySetMode_body_def Let_def mode_key_def [symmetric] by simp
next
  case False
  let ?k = "mode_key m p"
  define s1 where "s1 = s\<lparr>Mode := insert ?k (Mode s)\<rparr>"
  have 1: "wf_screen s1" using wf False by (simp add: s1_def wf_Mode_insert)
  have colm: "returns wf_screen (if ?k = ModeDECCOLM then do {
               s \<leftarrow> resize (Lines s1) 132 (s1\<lparr>SavedColumns := Some (Columns s1)\<rparr>);
               s \<leftarrow> (if \<not> isModeSet s ModeDECNCSM then EraseInDisplay 2 False s else Some s);
               Some (CursorPosition [0, 0] s) }
             else Some s1)"
  proof (cases "?k = ModeDECCOLM")
    case True
    have "returns wf_screen (do {
               s \<leftarrow> resize (Lines s1) 132 (s1\<lparr>SavedColumns := Some (Columns s1)\<rparr>);
               s \<leftarrow> (if \<not> isModeSet s ModeDECNCSM then EraseInDisplay 2 False s else Some s);
               Some (CursorPosition [0, 0] s) })"
      by (rule returns_bind [OF resize [OF True]], simp add: 1,
          rule returns_bind [where P = wf_screen]) (simp_all add: wf_returns CursorPosition_wf)
    then show ?thesis using True by simp
  qed (simp add: 1)
  have scnm: "returns wf_screen (if ?k = ModeDECSCNM then do {
               s \<leftarrow> setReverse True (markDirtyRange 0 (Lines t - 1) t);
               SelectGraphicRendition [7] False s } else Some t)" if "wf_screen t" for t
    using reverse_video_wf [OF that] that by simp
  have fin: "wf_screen (if ?k = ModeDECLRMM
      then CursorPosition [0, 0] (t\<lparr>leftMargin := 0, rightMargin := Columns t - 1\<rparr>) else t)"
    if "wf_screen t" for t using that by (simp add: CursorPosition_wf wf_full_margins)
  show ?thesis
    unfolding applySetMode_body_def Let_def mode_key_def [symmetric] s1_def [symmetric]
    apply (rule returns_if, simp add: 1, rule returns_if, simp add: 1, rule returns_if, simp add: 1)
    apply (rule returns_bind [OF colm], rule returns_bind [OF scnm])
     apply (intro wf_if SaveCursorDEC_wf enterAltScreen_wf CursorPosition_wf, assumption+)
    apply (simp only: returns_Some)
    apply (intro fin wf_if)
     apply (simp_all only: wf_Cursor_Hidden)
    done
qed

lemma applyResetMode_body_wf:
  assumes wf: "wf_screen s"
    and resize: "mode_key m p = ModeDECCOLM \<Longrightarrow> (\<And>l c s. wf_screen s \<Longrightarrow> returns wf_screen (resize l c s))"
    and restore: "mode_key m p = ModeDECSaveCursor \<Longrightarrow> (\<And>s. wf_screen s \<Longrightarrow> returns wf_screen (restore s))"
  shows "returns wf_screen (applyResetMode_body resize restore m p s)"
proof -
  let ?k = "mode_key m p"
  define s1 where "s1 = s\<lparr>Mode := Mode s - {?k}\<rparr>"
  have 1: "wf_screen s1" using wf by (simp add: s1_def)
  have colm: "returns wf_screen (if ?k = ModeDECCOLM then do {
               s \<leftarrow> (case SavedColumns s1 of
                       Some saved \<Rightarrow> if Columns s1 = 132
                                     then map_option (\<lambda>s. s\<lparr>SavedColumns := None\<rparr>) (resize (Lines s1) saved s1)
                                     else Some s1
                     | None \<Rightarrow> Some s1);
               s \<leftarrow> (if \<not> isModeSet s ModeDECNCSM then EraseInDisplay 2 False s else Some s);
               Some (CursorPosition [0, 0] s) }
             else Some s1)"
  proof (cases "?k = ModeDECCOLM")
    case True
    have "returns wf_screen (case SavedColumns s1 of
                       Some saved \<Rightarrow> if Columns s1 = 132
                                     then map_option (\<lambda>s. s\<lparr>SavedColumns := None\<rparr>) (resize (Lines s1) saved s1)
                                     else Some s1
                     | None \<Rightarrow> Some s1)"
      using resize [OF True 1] 1 by (auto split: option.split)
    then have "returns wf_screen (do {
               s \<leftarrow> (case SavedColumns s1 of
                       Some saved \<Rightarrow> if Columns s1 = 132
                                     then map_option (\<lambda>s. s\<lparr>SavedColumns := None\<rparr>) (resize (Lines s1) saved s1)
                                     else Some s1
                     | None \<Rightarrow> Some s1);
               s \<leftarrow> (if \<not> isModeSet s ModeDECNCSM then EraseInDisplay 2 False s else Some s);
               Some (CursorPosition [0, 0] s) })"
      by (rule returns_bind, rule_tac returns_bind [where P = wf_screen]) (simp_all add: wf_returns CursorPosition_wf)
    then show ?thesis using True by simp
  qed (simp add: 1)
  have sc: "returns wf_screen (if ?k = ModeDECSaveCursor then restore t else Some t)" if "wf_screen t" for t
    using restore that by simp
  have scnm: "returns wf_screen (if ?k = ModeDECSCNM then do {
               s \<leftarrow> setReverse False (markDirtyRange 0 (Lines t - 1) t);
               SelectGraphicRendition [27] False s } else Some t)" if "wf_screen t" for t
    using reverse_video_wf [OF that] that by simp
  show ?thesis
    unfolding applyResetMode_body_def Let_def mode_key_def [symmetric] s1_def [symmetric]
    apply (rule returns_if, simp add: 1)
    apply (rule returns_bind [OF colm], rule returns_bind [OF sc], assumption, rule returns_bind [OF scnm])
     apply (intro wf_if exitAltScreen_wf CursorPosition_wf, assumption+)
    apply (simp only: returns_Some)
    apply (intro wf_if wf_full_margins)
     apply (simp_all only: wf_Cursor_Hidden)
    done
qed

section \<open>Restoring the cursor\<close>

lemma applySetMode_body_callee:
  "mode_key m p \<noteq> ModeDECCOLM \<Longrightarrow> applySetMode_body r m p = applySetMode_body r' m p"
  unfolding applySetMode_body_def Let_def mode_key_def [symmetric] fun_eq_iff
  by (simp only: simp_thms if_False)

lemma applyResetMode_body_callee:
  "mode_key m p \<noteq> ModeDECCOLM \<Longrightarrow> mode_key m p \<noteq> ModeDECSaveCursor \<Longrightarrow>
   applyResetMode_body r q m p = applyResetMode_body r' q' m p"
  unfolding applyResetMode_body_def Let_def mode_key_def [symmetric] fun_eq_iff
  by (simp only: simp_thms if_False)

text \<open>The calls of the code, with the full methods.\<close>

lemma setPlainMode_eq: "m \<noteq> ModeDECCOLM \<Longrightarrow> setPlainMode m = applySetMode m False"
  unfolding setPlainMode_def applySetMode_def by (rule applySetMode_body_callee) (simp add: mode_key_def)

lemma resetPlainMode_eq:
  "m \<noteq> ModeDECCOLM \<Longrightarrow> m \<noteq> ModeDECSaveCursor \<Longrightarrow> resetPlainMode m = applyResetMode m False"
  unfolding resetPlainMode_def applyResetMode_def by (rule applyResetMode_body_callee) (simp_all add: mode_key_def)

lemma bind_for_each_Nil [simp]: "r \<bind> for_each f [] = r"
  by (cases r) simp_all

lemma SetMode_single: "SetMode [m] p s = applySetMode m p s" "ResetMode [m] p s = applyResetMode m p s"
  by (simp_all add: SetMode_def ResetMode_def)

lemma restoreCursorState_eq:
  "restoreCursorState restoreMode s =
    (if Savepoints s = [] then do {
       s \<leftarrow> ResetMode [ModeDECOM] False s;
       Some ((CursorPosition [0, 0] s)\<lparr>wrapNext := False\<rparr>) }
     else
       (let p = last (Savepoints s);
            s = s\<lparr>Savepoints := butlast (Savepoints s), G0 := SpG0 p, G1 := SpG1 p,
                  Charset := SpCharset p\<rparr> in do {
          s \<leftarrow> (if SpOrigin p then SetMode [ModeDECOM] False s else ResetMode [ModeDECOM] False s);
          s \<leftarrow> (if restoreMode
                then (if SpWrap p then SetMode [ModeDECAWM] False s else ResetMode [ModeDECAWM] False s)
                else Some s);
          let s = s\<lparr>wrapNext := SpWrapNext p, Cursor := SpCursor p\<rparr>;
          Some (ensureVB True (ensureHB s)) }))"
  by (simp add: restoreCursorState_def SetMode_single setPlainMode_eq resetPlainMode_eq cong: if_cong)

lemma plain_modes [simp]:
  "setPlainMode ModeDECOM s = Some (CursorPosition [0, 0] (s\<lparr>Mode := insert ModeDECOM (Mode s)\<rparr>))"
  "resetPlainMode ModeDECOM s = Some (CursorPosition [0, 0] (s\<lparr>Mode := Mode s - {ModeDECOM}\<rparr>))"
  "setPlainMode ModeDECAWM s = Some (s\<lparr>Mode := insert ModeDECAWM (Mode s)\<rparr>)"
  "resetPlainMode ModeDECAWM s = Some (s\<lparr>Mode := Mode s - {ModeDECAWM}\<rparr>)"
  by (simp_all add: setPlainMode_def resetPlainMode_def applySetMode_body_def applyResetMode_body_def)

lemma wf_restored_point:
  "wf_screen s \<Longrightarrow> Savepoints s \<noteq> [] \<Longrightarrow> p = last (Savepoints s) \<Longrightarrow>
   wf_screen (s\<lparr>Savepoints := butlast (Savepoints s), G0 := SpG0 p, G1 := SpG1 p, Charset := c\<rparr>)"
  by (auto simp: wf_screen_def savepoint_ok_def dest: in_set_butlastD last_in_set)

lemma restoreCursorState_wf:
  assumes wf: "wf_screen s"
  shows "returns wf_screen (restoreCursorState b s)"
proof (cases "Savepoints s = []")
  case True
  have "wf_screen (CursorPosition [0, 0] (CursorPosition [0, 0] (s\<lparr>Mode := Mode s - {ModeDECOM}\<rparr>)))"
    using wf by (intro CursorPosition_wf wf_Mode_remove)
  then show ?thesis
    unfolding restoreCursorState_def plain_modes using True by simp
next
  case False
  define p where "p = last (Savepoints s)"
  define s1 where "s1 = s\<lparr>Savepoints := butlast (Savepoints s), G0 := SpG0 p, G1 := SpG1 p,
                  Charset := SpCharset p\<rparr>"
  have 1: "wf_screen s1" using wf_restored_point [OF wf False p_def] by (simp add: s1_def)
  have om: "returns wf_screen (if SpOrigin p then setPlainMode ModeDECOM s1 else resetPlainMode ModeDECOM s1)"
    unfolding plain_modes
    using CursorPosition_wf [OF wf_Mode_insert [OF 1, of ModeDECOM]] CursorPosition_wf [OF wf_Mode_remove [OF 1]]
    by simp
  have aw: "returns wf_screen (if b then (if SpWrap p then setPlainMode ModeDECAWM t else resetPlainMode ModeDECAWM t)
      else Some t)" if "wf_screen t" for t
    unfolding plain_modes using that wf_Mode_insert [OF that, of ModeDECAWM] by simp
  have fin: "wf_screen (ensureVB True (ensureHB (t\<lparr>wrapNext := w, Cursor := c\<rparr>)))" if "wf_screen t" for t w c
    using that by (intro ensure_wf) (simp add: wf_but_cursorI)
  show ?thesis
    unfolding restoreCursorState_def Let_def p_def [symmetric] s1_def [symmetric]
    using False by (simp only: if_False) (rule returns_bind [OF om], rule returns_bind [OF aw], simp_all only: returns_Some fin)
qed

lemma RestoreCursor_wf [wf_returns]:
  "wf_screen s \<Longrightarrow> returns wf_screen (RestoreCursor s)"
  "wf_screen s \<Longrightarrow> returns wf_screen (RestoreCursorDEC s)"
  by (simp_all add: RestoreCursor_def RestoreCursorDEC_def restoreCursorState_wf)

section \<open>The invariant: resize\<close>

lemma moves_Buffer: "moves_cursor s t \<Longrightarrow> Buffer t = Buffer s"
  by (auto simp: moves_cursor_def)

lemmas CursorPosition_fields [simp] = edits_fields [OF edits_moves(4) [OF edits_refl]]
  moves_Buffer [OF moves_CursorPosition [OF moves_cursor_refl]]

lemmas ensure_fields [simp] = edits_fields [OF moves_edits [OF moves_ensure(2) [OF moves_ensure(1) [OF moves_cursor_refl]]]]
  moves_Buffer [OF moves_ensure(2) [OF moves_ensure(1) [OF moves_cursor_refl]]]

lemma restoreCursorState_fields:
  assumes "restoreCursorState b s = Some t"
  shows "Lines t = Lines s" "Columns t = Columns s" "Buffer t = Buffer s"
    "altBuffer t = altBuffer s" "altActive t = altActive s" "Margins t = Margins s"
    "lineWrapped t = lineWrapped s"
  using assms
  by (simp_all add: restoreCursorState_def Let_def bind_eq_Some_conv if_distrib [where f = Some, symmetric]
      del: ModeDECOM_def ModeDECAWM_def split: if_splits) auto

lemma fitRowsWidth_eq:
  assumes "0 \<le> columns"
  shows "fitRowsWidth columns blank buf =
    Some (map (\<lambda>l. if len l > columns then take (nat columns) l else l @ replicate (nat (columns - len l)) blank) buf)"
proof -
  have "for_each (\<lambda>line out.
      if len line > columns then map_option (\<lambda>l. out @ [l]) (slice line 0 columns)
      else if len line < columns then Some (out @ [line @ replicate (nat (columns - len line)) blank])
      else Some (out @ [line])) buf out =
    Some (out @ map (\<lambda>l. if len l > columns then take (nat columns) l
        else l @ replicate (nat (columns - len l)) blank) buf)" for out
    using assms by (induction buf arbitrary: out) (auto simp: slice_def len_def)
  then show ?thesis by (simp add: fitRowsWidth_def)
qed

definition fit_row :: "int \<Rightarrow> Cell \<Rightarrow> Cell list \<Rightarrow> Cell list" where
  "fit_row columns blank l =
    (if len l > columns then take (nat columns) l else l @ replicate (nat (columns - len l)) blank)"

lemma fit_row_length: "0 \<le> columns \<Longrightarrow> int (length (fit_row columns blank l)) = columns"
  by (simp add: fit_row_def len_def)

text \<open>The shrinking step: rows are deleted at the top, then the buffer is cut.\<close>

definition shrunk :: "int \<Rightarrow> Screen \<Rightarrow> Screen \<Rightarrow> bool" where
  "shrunk lines s t \<longleftrightarrow> (\<exists>u. wf_screen u \<and> Lines u = Lines s \<and> Columns u = Columns s \<and>
     t = u\<lparr>Buffer := take (nat lines) (Buffer u)\<rparr>)"

lemma shrink_step:
  assumes wf: "wf_screen s" and l: "0 < lines" "lines < Lines s"
  shows "returns (shrunk lines s) (do {
       s \<leftarrow> DeleteLines [Lines s - lines] (CursorPosition [0, 0] (SaveCursor s));
       s \<leftarrow> RestoreCursor s;
       b \<leftarrow> slice (Buffer s) 0 lines;
       Some (s\<lparr>Buffer := b\<rparr>) })"
proof -
  let ?c = "CursorPosition [0, 0] (SaveCursor s)"
  have "wf_screen ?c" using wf by (simp add: SaveCursor_wf CursorPosition_wf)
  then obtain t where t: "DeleteLines [Lines s - lines] ?c = Some t" "wf_screen t"
    using DeleteLines_wf [of ?c "[Lines s - lines]"] by (auto simp: returns_ex)
  have td: "Lines t = Lines s" "Columns t = Columns s"
    using edits_fields(1,2) [OF DeleteLines_edits [OF t(1)]]
    by (simp_all add: SaveCursor_def saveCursorState_def)
  obtain u where u: "RestoreCursor t = Some u" "wf_screen u"
    using RestoreCursor_wf(1) [OF t(2)] by (auto simp: returns_ex)
  have ud: "Lines u = Lines s" "Columns u = Columns s"
    using restoreCursorState_fields(1,2) [of True t u] u(1) td by (simp_all add: RestoreCursor_def)
  have "slice (Buffer u) 0 lines = Some (take (nat lines) (Buffer u))"
    using grid_ok_length [OF wf_grid [OF u(2)]] l ud by (simp add: slice_def)
  then show ?thesis using t(1) u ud by (auto simp: shrunk_def)
qed

lemma SetMargins_none: "SetMargins [0, 0] s = s\<lparr>Margins := None\<rparr>"
  by (simp add: SetMargins_def first_param_def second_param_def)

text \<open>The pixel fields do not matter for the invariant.\<close>

lemma charPixels_shape: "\<exists>w h. charPixels s = s\<lparr>charPixelWidth := w, charPixelHeight := h\<rparr>"
proof -
  have "charPixels s = s\<lparr>charPixelWidth := (if charPixelWidth s = 0 then 8 else charPixelWidth s),
      charPixelHeight := (if charPixelHeight s = 0 then 16 else charPixelHeight s)\<rparr>"
    by (simp add: charPixels_def)
  then show ?thesis by blast
qed

lemma pixels_shape:
  "\<exists>p1 p2 p3 p4 p5 p6. screenPixels (windowPixels (charPixels s)) =
     s\<lparr>charPixelWidth := p1, charPixelHeight := p2, windowPixelWidth := p3, windowPixelHeight := p4,
       screenPixelWidth := p5, screenPixelHeight := p6\<rparr>"
proof -
  obtain w h where c: "charPixels s = s\<lparr>charPixelWidth := w, charPixelHeight := h\<rparr>"
    using charPixels_shape by blast
  then obtain x y where d: "windowPixels (charPixels s) =
      s\<lparr>charPixelWidth := w, charPixelHeight := h, windowPixelWidth := x, windowPixelHeight := y\<rparr>"
    by (simp add: windowPixels_def)
  have "screenPixels t = t\<lparr>screenPixelWidth := (if screenPixelWidth t = 0 then windowPixelWidth t else screenPixelWidth t),
      screenPixelHeight := (if screenPixelHeight t = 0 then windowPixelHeight t else screenPixelHeight t)\<rparr>" for t
    by (simp add: screenPixels_def)
  then show ?thesis unfolding d by blast
qed

lemma clampCursor_eq: "clampCursor lines columns s =
   s\<lparr>Cursor := (Cursor s)\<lparr>Row := (if row s \<ge> lines then lines - 1 else row s),
                         Col := (if col s \<ge> columns then columns - 1 else col s)\<rparr>\<rparr>"
  by (simp add: clampCursor_def atRow_def atCol_def)

lemma finishResize_shape:
  "\<exists>p1 p2 p3 p4 p5 p6. finishResize lines columns s =
     (let t = s\<lparr>Lines := lines, Columns := columns,
                Cursor := (Cursor s)\<lparr>Row := (if row s \<ge> lines then lines - 1 else row s),
                                    Col := (if col s \<ge> columns then columns - 1 else col s)\<rparr>,
                Margins := None, leftMargin := 0, charPixelWidth := p1, charPixelHeight := p2,
                windowPixelWidth := p3, windowPixelHeight := p4, screenPixelWidth := p5,
                screenPixelHeight := p6, rightMargin := columns - 1, lineWrapped := Some Map.empty,
                wrapNext := False\<rparr>
      in if altBuffer s \<noteq> []
         then t\<lparr>altBuffer := makeBlankCells lines columns, altLineWrapped := Some Map.empty,
                altSavepoints := [], altWrapNext := False\<rparr>
         else t)"
proof -
  let ?t0 = "s\<lparr>Lines := lines, Columns := columns,
                Cursor := (Cursor s)\<lparr>Row := (if row s \<ge> lines then lines - 1 else row s),
                                    Col := (if col s \<ge> columns then columns - 1 else col s)\<rparr>,
                Margins := None, leftMargin := 0\<rparr>"
  have t0: "(SetMargins [0, 0] (clampCursor lines columns (s\<lparr>Lines := lines, Columns := columns\<rparr>)))\<lparr>leftMargin := 0\<rparr> = ?t0"
    unfolding SetMargins_none clampCursor_eq by simp
  obtain p1 p2 p3 p4 p5 p6 where c: "screenPixels (windowPixels (charPixels ?t0)) =
     ?t0\<lparr>charPixelWidth := p1, charPixelHeight := p2, windowPixelWidth := p3, windowPixelHeight := p4,
       screenPixelWidth := p5, screenPixelHeight := p6\<rparr>"
    using pixels_shape by blast
  show ?thesis
    unfolding finishResize_def Let_def t0 c
    by (rule exI [of _ p1], rule exI [of _ p2], rule exI [of _ p3], rule exI [of _ p4], rule exI [of _ p5],
        rule exI [of _ p6]) simp
qed

lemma finishResize_wf:
  assumes wf: "wf_screen u" and b: "grid_ok lines columns b" "1 \<le> lines" "1 \<le> columns"
    and s: "s = u\<lparr>Buffer := b\<rparr>"
  shows "wf_screen (finishResize lines columns s) \<and>
    Lines (finishResize lines columns s) = lines \<and> Columns (finishResize lines columns s) = columns \<and>
    Buffer (finishResize lines columns s) = b"
proof -
  obtain p1 p2 p3 p4 p5 p6 where eq: "finishResize lines columns s =
     (let t = s\<lparr>Lines := lines, Columns := columns,
                Cursor := (Cursor s)\<lparr>Row := (if row s \<ge> lines then lines - 1 else row s),
                                    Col := (if col s \<ge> columns then columns - 1 else col s)\<rparr>,
                Margins := None, leftMargin := 0, charPixelWidth := p1, charPixelHeight := p2,
                windowPixelWidth := p3, windowPixelHeight := p4, screenPixelWidth := p5,
                screenPixelHeight := p6, rightMargin := columns - 1, lineWrapped := Some Map.empty,
                wrapNext := False\<rparr>
      in if altBuffer s \<noteq> []
         then t\<lparr>altBuffer := makeBlankCells lines columns, altLineWrapped := Some Map.empty,
                altSavepoints := [], altWrapNext := False\<rparr>
         else t)"
    using finishResize_shape by blast
  show ?thesis
  proof (cases "altBuffer u = []")
    case True
    with wf b show ?thesis unfolding eq unfolding Let_def s by (simp add: wf_screen_def)
  next
    case False
    with wf b show ?thesis unfolding eq unfolding Let_def s by (simp add: wf_screen_def)
  qed
qed

text \<open>The buffer of a resized screen.\<close>

definition reshape :: "int \<Rightarrow> int \<Rightarrow> Cell \<Rightarrow> Cell grid \<Rightarrow> Cell grid" where
  "reshape lines columns blank g =
    map (fit_row columns blank) g @ replicate (nat lines - length g) (blankLine columns blank)"

lemma reshape_ok:
  "0 \<le> columns \<Longrightarrow> length g \<le> nat lines \<Longrightarrow> 0 \<le> lines \<Longrightarrow> grid_ok lines columns (reshape lines columns blank g)"
  by (auto simp: reshape_def grid_ok_def fit_row_length blankLine_def)

definition resized :: "int \<Rightarrow> int \<Rightarrow> Screen \<Rightarrow> Screen option" where
  "resized lines columns s = do {
     b \<leftarrow> fitRowsWidth columns (defaultCell s) (Buffer s);
     let s = s\<lparr>Buffer := b\<rparr>;
     let s = (if lines > Lines s
              then s\<lparr>Buffer := Buffer s @ replicate (nat (lines - Lines s)) (blankLine columns (defaultCell s))\<rparr>
              else s);
     Some (finishResize lines columns s) }"

lemma resized_wf:
  assumes wf: "wf_screen u" and b: "1 \<le> lines" "1 \<le> columns"
    and s: "s = u\<lparr>Buffer := take (nat lines) (Buffer u)\<rparr>"
  shows "returns (\<lambda>t. wf_screen t \<and> Lines t = lines \<and> Columns t = columns \<and>
      Buffer t = reshape lines columns (defaultCell s) (take (nat lines) (Buffer u))) (resized lines columns s)"
proof -
  define b0 where "b0 = take (nat lines) (Buffer u)"
  have lb: "length (Buffer u) = nat (Lines u)" using grid_ok_length [OF wf_grid [OF wf]] by simp
  have fit: "fitRowsWidth columns (defaultCell s) (Buffer s) = Some (map (fit_row columns (defaultCell s)) b0)"
    using b s by (simp add: fitRowsWidth_eq fit_row_def b0_def)
  let ?s2 = "let s' = s\<lparr>Buffer := map (fit_row columns (defaultCell s)) b0\<rparr> in
     if lines > Lines s' then s'\<lparr>Buffer := Buffer s' @ replicate (nat (lines - Lines s')) (blankLine columns (defaultCell s'))\<rparr>
     else s'"
  have ok: "grid_ok lines columns (reshape lines columns (defaultCell s) b0)"
    using b by (intro reshape_ok) (auto simp: b0_def)
  have e: "?s2 = u\<lparr>Buffer := reshape lines columns (defaultCell s) b0\<rparr>"
    using s lb wf_Lines [OF wf] b by (auto simp: reshape_def b0_def Let_def nat_diff_distrib)
  have "returns (\<lambda>t. wf_screen t \<and> Lines t = lines \<and> Columns t = columns \<and>
      Buffer t = reshape lines columns (defaultCell s) b0) (Some (finishResize lines columns ?s2))"
    unfolding e using finishResize_wf [OF wf ok b refl] by simp
  then show ?thesis unfolding resized_def fit b0_def [symmetric] by (simp add: Let_def)
qed

lemma Resize_spec:
  assumes wf: "wf_screen s"
  shows "returns (\<lambda>t. wf_screen t \<and> Lines t = max 1 lines \<and> Columns t = max 1 columns) (Resize lines columns s)"
proof -
  define l where "l = max 1 lines"
  define c where "c = max 1 columns"
  have m: "(if lines \<le> 0 then 1 else lines) = l" "(if columns \<le> 0 then 1 else columns) = c"
    by (auto simp: l_def c_def)
  have bc: "1 \<le> l" "1 \<le> c" by (auto simp: l_def c_def)
  have ne: "(Buffer s = []) = False" using wf_Buffer_ne [OF wf] by simp
  show ?thesis
  proof (cases "Lines s = l \<and> Columns s = c")
    case True
    then show ?thesis
      unfolding Resize_def Let_def m l_def [symmetric] c_def [symmetric] using wf ne by simp
  next
    case False
    define s1 where "s1 = markDirtyRange 0 (l - 1) s"
    have 1: "wf_screen s1" "Lines s1 = Lines s" "Columns s1 = Columns s" using wf by (simp_all add: s1_def)
    have "returns (\<lambda>t. \<exists>u. wf_screen u \<and> Lines u = Lines s \<and> t = u\<lparr>Buffer := take (nat l) (Buffer u)\<rparr>)
       (if l < Lines s1 then do {
               s \<leftarrow> DeleteLines [Lines s1 - l] (CursorPosition [0, 0] (SaveCursor s1));
               s \<leftarrow> RestoreCursor s;
               b \<leftarrow> slice (Buffer s) 0 l;
               Some (s\<lparr>Buffer := b\<rparr>) }
             else Some s1)"
    proof (cases "l < Lines s1")
      case True
      with bc have "0 < l" by simp
      from shrink_step [OF 1(1) this True] show ?thesis
        unfolding if_P [OF True] by (rule returns_mono) (auto simp: shrunk_def 1)
    next
      case False
      have "length (Buffer s1) \<le> nat l"
        using grid_ok_length [OF wf_grid [OF 1(1)]] False by simp
      then have "s1 = s1\<lparr>Buffer := take (nat l) (Buffer s1)\<rparr>" by simp
      then show ?thesis using False 1 by auto
    qed
    then have "returns (\<lambda>t. wf_screen t \<and> Lines t = l \<and> Columns t = c)
       ((if l < Lines s1 then do {
               s \<leftarrow> DeleteLines [Lines s1 - l] (CursorPosition [0, 0] (SaveCursor s1));
               s \<leftarrow> RestoreCursor s;
               b \<leftarrow> slice (Buffer s) 0 l;
               Some (s\<lparr>Buffer := b\<rparr>) }
             else Some s1) \<bind> resized l c)"
      by (rule returns_bind) (auto elim!: returns_mono [OF resized_wf [OF _ bc]])
    then show ?thesis
      unfolding Resize_def Let_def m s1_def [symmetric] resized_def [abs_def] using False
      by (simp only: ne if_False simp_thms l_def [symmetric] c_def [symmetric])
  qed
qed

lemma Resize_wf [wf_returns]: "wf_screen s \<Longrightarrow> returns wf_screen (Resize lines columns s)"
  by (rule returns_mono [OF Resize_spec]) auto

lemma applySetMode_wf [wf_returns]: "wf_screen s \<Longrightarrow> returns wf_screen (applySetMode m p s)"
  unfolding applySetMode_def by (rule applySetMode_body_wf) (auto simp: wf_returns)

lemma applyResetMode_wf [wf_returns]: "wf_screen s \<Longrightarrow> returns wf_screen (applyResetMode m p s)"
  unfolding applyResetMode_def by (rule applyResetMode_body_wf) (auto simp: wf_returns)

lemma SetMode_wf [wf_returns]:
  "wf_screen s \<Longrightarrow> returns wf_screen (SetMode ms p s)" "wf_screen s \<Longrightarrow> returns wf_screen (ResetMode ms p s)"
  unfolding SetMode_def ResetMode_def by (rule returns_for_each, simp_all add: wf_returns)+

end
