(* ===== verification/TeReset.thy ===== *)
theory TeReset
  imports TeModes
begin

text \<open>
  Construction and resets of \<open>pkg/te/screen.go\<close>: \<open>NewScreen\<close>, \<open>Reset\<close> (RIS), \<open>SoftReset\<close> (DECSTR),
  \<open>SetConformance\<close> (DECSCL), and the save and restore of private modes (XTSAVE, XTRESTORE).
\<close>

text \<open>\<open>&Screen{}\<close>: every field has its zero value.\<close>

definition zeroAttr :: Attr where
  "zeroAttr = \<lparr>Fg = zeroColor, Bg = zeroColor, Bold = False, Faint = False, Italics = False,
     Underline = False, Strikethrough = False, Reverse = False, Blink = False, Conceal = False,
     Protected = False, ISOProtected = False, UnderlineStyle = 0, UnderlineColor = zeroColor,
     Overline = False\<rparr>"

definition zeroScreen :: Screen where
  "zeroScreen = \<lparr>Columns = 0, Lines = 0, Buffer = [], Dirty = {},
     Cursor = \<lparr>Row = 0, Col = 0, CurAttr = zeroAttr, Hidden = False\<rparr>, Mode = {}, Margins = None,
     Charset = 0, G0 = [], G1 = [], TabStops = None, Title = [], IconName = [], cursorStyle = 0,
     charProtectionMode = 0, statusDisplay = 0, Savepoints = [], SavedColumns = None,
     processInput = [], TerminalName = [], lastDrawn = [], leftMargin = 0, rightMargin = 0,
     lineWrapped = None, wrapNext = False, savedModes = Map.empty, selectionData = Map.empty,
     colorPalette = Map.empty, dynamicColors = Map.empty, specialColors = Map.empty,
     titleHexInput = False, titleHexOutput = False, conformanceLevel = 0, conformanceExplicit = False,
     titleStack = [], iconStack = [], windowPosX = 0, windowPosY = 0, windowPixelWidth = 0,
     windowPixelHeight = 0, screenPixelWidth = 0, screenPixelHeight = 0, charPixelWidth = 0,
     charPixelHeight = 0, windowIconified = False, indexedColors = 0, altBuffer = [],
     altSavepoints = [], altLineWrapped = None, altWrapNext = False, altActive = False,
     altSavedCursor = None\<rparr>"

text \<open>\<open>for col := 8; col < s.Columns; col += 8\<close>\<close>

definition defaultTabStops :: "int \<Rightarrow> int set" where
  "defaultTabStops columns = set (filter (\<lambda>c. 8 \<le> c \<and> c mod 8 = 0) [0..columns - 1])"

definition resetModes :: "int set" where
  "resetModes = {ModeDECAWM, ModeDECTCEM, ModeAllow80To132}"

text \<open>The assignments \<open>Reset\<close> and \<open>SoftReset\<close> have in common.\<close>

definition clearSettings :: "Screen \<Rightarrow> Screen" where
  "clearSettings s =
    s\<lparr>savedModes := Map.empty, selectionData := Map.empty, colorPalette := Map.empty,
      dynamicColors := Map.empty, specialColors := Map.empty, titleHexInput := False,
      titleHexOutput := False, conformanceLevel := 1, conformanceExplicit := False,
      cursorStyle := 0, charProtectionMode := 0, statusDisplay := 0, titleStack := [],
      iconStack := []\<rparr>"

text \<open>The body of \<open>Reset\<close> after the resize back from DECCOLM.\<close>

definition resetFields :: "Screen \<Rightarrow> Screen" where
  "resetFields s =
    (let s = markDirtyRange 0 (Lines s - 1) (s\<lparr>Dirty := {}\<rparr>);
         s = s\<lparr>Buffer := makeBlankCells (Lines s) (Columns s), Margins := None, altBuffer := [],
               altSavepoints := [], altLineWrapped := None, altWrapNext := False, altActive := False,
               altSavedCursor := None, Mode := resetModes, Title := [], IconName := [], Charset := 0,
               G0 := charsetLat1, G1 := charsetVT100, TabStops := Some (defaultTabStops (Columns s))\<rparr>;
         s = s\<lparr>Cursor := \<lparr>Row = 0, Col = 0, CurAttr = defaultAttr s, Hidden = False\<rparr>,
               SavedColumns := None, leftMargin := 0, rightMargin := Columns s - 1,
               lineWrapped := Some Map.empty, wrapNext := False\<rparr>;
         s = windowPixels (charPixels (clearSettings s));
         s = s\<lparr>screenPixelWidth := windowPixelWidth s, screenPixelHeight := windowPixelHeight s,
               windowPosX := 0, windowPosY := 0, windowIconified := False\<rparr>
     in if indexedColors s = 0 then s\<lparr>indexedColors := 16\<rparr> else s)"

definition Reset :: "Screen \<Rightarrow> Screen option" where
  "Reset s = do {
     s \<leftarrow> (case SavedColumns s of
             Some c \<Rightarrow> map_option (\<lambda>s. s\<lparr>SavedColumns := None\<rparr>) (Resize (Lines s) c s)
           | None \<Rightarrow> Some s);
     Some (resetFields s) }"

definition NewScreen :: "int \<Rightarrow> int \<Rightarrow> Screen option" where
  "NewScreen cols lines = do { s \<leftarrow> Resize lines cols zeroScreen; Reset s }"

definition SoftReset :: "Screen \<Rightarrow> Screen" where
  "SoftReset s =
    (let s = s\<lparr>wrapNext := False, Cursor := (Cursor s)\<lparr>Hidden := False\<rparr>, Margins := None,
               leftMargin := 0, rightMargin := Columns s - 1, Mode := resetModes\<rparr>;
         s = s\<lparr>Cursor := (Cursor s)\<lparr>CurAttr := defaultAttr s\<rparr>, G0 := charsetLat1, G1 := charsetVT100,
               Charset := 0, Savepoints := []\<rparr>
     in clearSettings s)"

definition SetConformance :: "int \<Rightarrow> int \<Rightarrow> Screen \<Rightarrow> Screen option" where
  "SetConformance level0 sevenBit s =
    (let level = (if level0 \<ge> 60 then level0 - 60 else level0) in
     if level \<le> 0 then Some s
     else map_option (\<lambda>s. s\<lparr>Savepoints := [], conformanceLevel := level, conformanceExplicit := True\<rparr>)
            (Reset s))"

definition SaveModes :: "int list \<Rightarrow> Screen \<Rightarrow> Screen" where
  "SaveModes modes s =
    fold (\<lambda>mode s. let key = PrivateMode mode
                   in s\<lparr>savedModes := (savedModes s)(key \<mapsto> key \<in> Mode s)\<rparr>) modes s"

definition RestoreModes :: "int list \<Rightarrow> Screen \<Rightarrow> Screen option" where
  "RestoreModes modes s =
    for_each (\<lambda>mode s. case savedModes s (PrivateMode mode) of
        None \<Rightarrow> Some s
      | Some state \<Rightarrow> if state then applySetMode mode True s else applyResetMode mode True s) modes s"

section \<open>The invariant\<close>

lemma finite_defaultTabStops [simp]: "finite (defaultTabStops c)"
  unfolding defaultTabStops_def by (rule finite_set)

lemma clearSettings_wf [simp]: "wf_screen (clearSettings s) = wf_screen s"
  by (simp add: clearSettings_def)

lemma windowPixels_wf [simp]: "wf_screen (windowPixels s) = wf_screen s"
  by (simp add: windowPixels_def)

lemma charPixels_wf [simp]: "wf_screen (charPixels s) = wf_screen s"
  by (simp add: charPixels_def)

text \<open>\<open>Reset\<close> needs no more of its argument than positive dimensions and intact savepoints.\<close>

lemma resetFields_wf:
  assumes "1 \<le> Lines s" "1 \<le> Columns s" "\<forall>p \<in> set (Savepoints s). savepoint_ok p"
  shows "wf_screen (resetFields s)"
proof -
  define t where "t = s\<lparr>Dirty := {} \<union> {0..Lines s - 1}, Buffer := makeBlankCells (Lines s) (Columns s),
       Margins := None, altBuffer := [],
       altSavepoints := [], altLineWrapped := None, altWrapNext := False, altActive := False,
       altSavedCursor := None, Mode := resetModes, Title := [], IconName := [], Charset := 0,
       G0 := charsetLat1, G1 := charsetVT100, TabStops := Some (defaultTabStops (Columns s))\<rparr>"
  define u where "u = t\<lparr>Cursor := \<lparr>Row = 0, Col = 0, CurAttr = defaultAttr t, Hidden = False\<rparr>,
       SavedColumns := None, leftMargin := 0, rightMargin := Columns s - 1,
       lineWrapped := Some Map.empty, wrapNext := False\<rparr>"
  define v where "v = windowPixels (charPixels (clearSettings u))"
  have "wf_screen u"
    using assms by (simp add: u_def t_def wf_screen_def resetModes_def)
  then have "wf_screen v" by (simp add: v_def)
  moreover have "resetFields s = (let s = v\<lparr>screenPixelWidth := windowPixelWidth v, screenPixelHeight := windowPixelHeight v,
       windowPosX := 0, windowPosY := 0, windowIconified := False\<rparr> in
       if indexedColors s = 0 then s\<lparr>indexedColors := 16\<rparr> else s)"
    unfolding v_def u_def t_def resetFields_def by (simp add: Let_def)
  ultimately show ?thesis by (simp add: Let_def)
qed

lemma wf_dims: "wf_screen s \<Longrightarrow> 1 \<le> Lines s \<and> 1 \<le> Columns s \<and> (\<forall>p \<in> set (Savepoints s). savepoint_ok p)"
  by (simp add: wf_screen_def)

lemma Reset_wf [wf_returns]:
  assumes wf: "wf_screen s"
  shows "returns wf_screen (Reset s)"
  unfolding Reset_def
proof (rule returns_bind [where P = wf_screen])
  show "returns wf_screen (case SavedColumns s of
             Some c \<Rightarrow> map_option (\<lambda>s. s\<lparr>SavedColumns := None\<rparr>) (Resize (Lines s) c s)
           | None \<Rightarrow> Some s)"
    using wf by (auto split: option.split simp: wf_returns)
qed (auto dest: wf_dims intro: resetFields_wf)

lemma resetFields_fields:
  "Lines (resetFields s) = Lines s" "Columns (resetFields s) = Columns s"
  "Buffer (resetFields s) = makeBlankCells (Lines s) (Columns s)"
  "row (resetFields s) = 0" "col (resetFields s) = 0" "Mode (resetFields s) = resetModes"
  "altActive (resetFields s) = False" "Margins (resetFields s) = None"
  "Savepoints (resetFields s) = Savepoints s" "wrapNext (resetFields s) = False"
  by (simp_all add: resetFields_def Let_def windowPixels_def charPixels_def clearSettings_def)

lemma NewScreen_wf:
  "returns (\<lambda>s. wf_screen s \<and> Lines s = max 1 lines \<and> Columns s = max 1 cols) (NewScreen cols lines)"
proof -
  define l where "l = max 1 lines"
  define c where "c = max 1 cols"
  have m: "(if lines \<le> 0 then 1 else lines) = l" "(if cols \<le> 0 then 1 else cols) = c"
    by (auto simp: l_def c_def)
  have bc: "1 \<le> l" "1 \<le> c" by (auto simp: l_def c_def)
  let ?z = "zeroScreen\<lparr>Lines := l, Columns := c, Buffer := makeBlankCells l c\<rparr>"
  obtain p q x y w h where z: "Resize lines cols zeroScreen = Some (?z\<lparr>charPixelWidth := p, charPixelHeight := q,
      windowPixelWidth := x, windowPixelHeight := y, screenPixelWidth := w, screenPixelHeight := h\<rparr>)"
    using charPixels_shape [of ?z] bc
    by (auto simp: Resize_def Let_def m zeroScreen_def)
  show ?thesis
    unfolding NewScreen_def Reset_def z using bc
    by (simp add: zeroScreen_def resetFields_fields resetFields_wf l_def [symmetric] c_def [symmetric])
qed

lemma SoftReset_wf [wf_intro]: "wf_screen s \<Longrightarrow> wf_screen (SoftReset s)"
  unfolding SoftReset_def Let_def clearSettings_wf by (simp add: wf_screen_def resetModes_def)

lemma wf_Savepoints_Nil: "wf_screen s \<Longrightarrow> wf_screen (s\<lparr>Savepoints := []\<rparr>)"
  by (simp add: wf_screen_def)

lemma SetConformance_wf [wf_returns]:
  assumes wf: "wf_screen s"
  shows "returns wf_screen (SetConformance l b s)"
proof -
  have "returns wf_screen (map_option (\<lambda>s. s\<lparr>Savepoints := [], conformanceLevel := n, conformanceExplicit := True\<rparr>) (Reset s))"
    for n
    unfolding returns_map_option by (rule returns_mono [OF Reset_wf [OF wf]]) (simp add: wf_Savepoints_Nil)
  then show ?thesis unfolding SetConformance_def Let_def using wf by simp
qed

lemma SaveModes_wf [wf_intro]: "wf_screen s \<Longrightarrow> wf_screen (SaveModes modes s)"
  unfolding SaveModes_def by (induction modes arbitrary: s) (auto simp: Let_def)

lemma RestoreModes_wf [wf_returns]: "wf_screen s \<Longrightarrow> returns wf_screen (RestoreModes modes s)"
  unfolding RestoreModes_def
  by (rule returns_for_each) (auto simp: wf_returns split: option.split)

end
