(* ===== verification/TeDraw.thy ===== *)
theory TeDraw
  imports TeReset
begin

text \<open>
  Drawing text (\<open>Draw\<close>, \<open>RepeatLast\<close>, \<open>clearWidePairAt\<close>, \<open>translate\<close>) and reading it back
  (\<open>Display\<close>) of \<open>pkg/te/screen.go\<close>, over the text library \<open>E\<close>.

  A wide cluster occupies its cell and a continuation cell whose data is empty; \<open>pairs_ok\<close> states
  that of a row, and the writes of \<open>Draw\<close> keep it.
\<close>

section \<open>Definitions\<close>

definition translate :: "Screen \<Rightarrow> string \<Rightarrow> string option" where
  "translate s data =
    (let mapping = (if Charset s = 1 then G1 s else G0 s) in
     map_option string_of_runes
       (those (map (\<lambda>r. if 0 \<le> r \<and> r < 256 then idx mapping r else Some r) (runes data))))"

text \<open>\<open>line[i] = Cell{Data: " ", Attr: line[i].Attr}\<close>\<close>

definition blankAt :: "int \<Rightarrow> Cell list \<Rightarrow> Cell list" where
  "blankAt i line = line[nat i := \<lparr>Data = '' '', CellAttr = CellAttr (line ! nat i)\<rparr>]"

definition clearWidePairAt :: "textlib \<Rightarrow> int \<Rightarrow> Cell list \<Rightarrow> Cell list" where
  "clearWidePairAt E c line =
    (if c < 0 \<or> c \<ge> len line then line
     else
       (let line = (if string_width E (Data (line ! nat c)) = 2 \<and> c + 1 < len line
                    then blankAt (c + 1) line else line)
        in if Data (line ! nat c) = '''' \<and> c > 0 \<and> string_width E (Data (line ! nat (c - 1))) = 2
           then blankAt (c - 1) line else line))"

definition drawLimit :: "Screen \<Rightarrow> int" where
  "drawLimit s = (if isModeSet s ModeDECLRMM then rightMargin s else Columns s - 1)"

text \<open>Everything before the write: the pending wrap, the early wrap of a wide cluster, insert mode.\<close>

definition drawPrepare :: "int \<Rightarrow> Screen \<Rightarrow> Screen option" where
  "drawPrepare width s =
    (let limit = drawLimit s in do {
       s \<leftarrow> (if wrapNext s \<and> width > 0
             then LineFeed (CarriageReturn (markDirty (row s) (s\<lparr>wrapNext := False\<rparr>)))
             else Some s);
       let s = (if width > 0 \<and> col s > limit then atCol limit s else s);
       s \<leftarrow> (if width = 2 \<and> col s = limit \<and> col s > 0 \<and> row s < Lines s - 1 \<and> isModeSet s ModeDECAWM
             then do {
               s \<leftarrow> on_buffer (put (row s) (col s) (defaultCell s)) s;
               s \<leftarrow> markWrapped (row s) s;
               LineFeed (CarriageReturn (markDirty (row s) s)) }
             else Some s);
       if isModeSet s ModeIRM \<and> width > 0 then InsertCharacters [width] s else Some s })"

text \<open>The write of a cluster of width 1 or 2 into a row of \<open>C\<close> columns.\<close>

definition writeNarrow :: "textlib \<Rightarrow> string \<Rightarrow> Attr \<Rightarrow> int \<Rightarrow> Cell list \<Rightarrow> Cell list option" where
  "writeNarrow E cluster attr c line =
    upd (clearWidePairAt E c line) c \<lparr>Data = cluster, CellAttr = attr\<rparr>"

definition writeWide :: "textlib \<Rightarrow> int \<Rightarrow> string \<Rightarrow> Attr \<Rightarrow> int \<Rightarrow> Cell list \<Rightarrow> Cell list option" where
  "writeWide E C cluster attr c line0 =
    (let line = clearWidePairAt E c line0;
         line = (if c + 1 < C then clearWidePairAt E (c + 1) line else line) in do {
       line \<leftarrow> upd line c \<lparr>Data = cluster, CellAttr = attr\<rparr>;
       if c + 1 < C then upd line (c + 1) \<lparr>Data = '''', CellAttr = attr\<rparr> else Some line })"

text \<open>A combining cluster is appended to the cell before the cursor.\<close>

definition combineInto :: "textlib \<Rightarrow> string \<Rightarrow> int \<Rightarrow> Cell list \<Rightarrow> Cell list option" where
  "combineInto E cluster i line = do {
     prev \<leftarrow> idx line i;
     upd line i \<lparr>Data = nfc E (Data prev @ cluster), CellAttr = CellAttr prev\<rparr> }"

definition on_row :: "int \<Rightarrow> (Cell list \<Rightarrow> Cell list option) \<Rightarrow> Screen \<Rightarrow> Screen option" where
  "on_row r f = on_buffer (\<lambda>g. do { line \<leftarrow> idx g r; line \<leftarrow> f line; upd g r line })"

text \<open>The switch of \<open>Draw\<close>; the boolean is the \<open>break loop\<close> of its default case.\<close>

definition drawPut :: "textlib \<Rightarrow> string \<Rightarrow> int \<Rightarrow> Screen \<Rightarrow> (Screen \<times> bool) option" where
  "drawPut E cluster width s = do {
     line \<leftarrow> idx (Buffer s) (row s);
     if width = 1 then
       map_option (\<lambda>s. (s, False))
         (on_row (row s) (writeNarrow E cluster (CurAttr (Cursor s)) (col s)) s)
     else if width = 2 then
       map_option (\<lambda>s. (s, False))
         (on_row (row s) (writeWide E (Columns s) cluster (CurAttr (Cursor s)) (col s)) s)
     else if width = 0 \<and> isCombiningCluster E cluster then
       map_option (\<lambda>s. (s, False))
         (if col s > 0 then on_row (row s) (combineInto E cluster (col s - 1)) s
          else if row s > 0 then on_row (row s - 1) (combineInto E cluster (Columns s - 1)) s
          else Some s)
     else Some (s, True) }"

definition drawAdvance :: "string \<Rightarrow> int \<Rightarrow> int \<Rightarrow> Screen \<Rightarrow> Screen option" where
  "drawAdvance cluster width limit s0 =
    (if width > 0 then
       (let s = s0\<lparr>lastDrawn := cluster\<rparr>;
            nextCol = col s + width in
        if nextCol > limit then
          (if isModeSet s ModeDECAWM
           then map_option (\<lambda>s. atCol (limit + 1) (s\<lparr>wrapNext := True\<rparr>)) (markWrapped (row s) s)
           else if isModeSet s ModeDECLRMM then Some (atCol limit s)
           else Some (atCol (limit + 1) s))
        else Some (atCol nextCol s))
     else Some s0)"

definition drawCluster :: "textlib \<Rightarrow> string \<Rightarrow> Screen \<Rightarrow> (Screen \<times> bool) option" where
  "drawCluster E cluster s =
    (let width = string_width E cluster;
         limit = drawLimit s in do {
       s \<leftarrow> drawPrepare width s;
       (s, stop) \<leftarrow> drawPut E cluster width s;
       if stop then Some (s, True)
       else map_option (\<lambda>s. (s, False)) (drawAdvance cluster width limit s) })"

fun drawLoop :: "textlib \<Rightarrow> string list \<Rightarrow> Screen \<Rightarrow> Screen option" where
  "drawLoop E [] s = Some s"
| "drawLoop E (c # cs) s = do {
     (s, stop) \<leftarrow> drawCluster E c s;
     if stop then Some s else drawLoop E cs s }"

definition Draw :: "textlib \<Rightarrow> string \<Rightarrow> Screen \<Rightarrow> Screen option" where
  "Draw E data s = do {
     data \<leftarrow> translate s data;
     s \<leftarrow> drawLoop E (graphemes E data) s;
     Some (markDirty (row s) s) }"

definition RepeatLast :: "textlib \<Rightarrow> int list \<Rightarrow> Screen \<Rightarrow> Screen option" where
  "RepeatLast E params s =
    (let n = at_least_1 (first_param 1 params) in
     if lastDrawn s = '''' then Some s
     else for_each (\<lambda>_ s. Draw E (lastDrawn s) s) [1..n] s)"

text \<open>\<open>Display\<close>: the text of a row from column \<open>c\<close> on.\<close>

function displayFrom :: "textlib \<Rightarrow> int \<Rightarrow> Cell list \<Rightarrow> int \<Rightarrow> string option" where
  "displayFrom E C line c =
    (if c \<ge> C then Some ''''
     else do {
       cell \<leftarrow> idx line c;
       if Data cell = '''' then displayFrom E C line (c + 1)
       else do {
         rest \<leftarrow> displayFrom E C line
           (if string_width E (Data cell) > 1 then c + string_width E (Data cell) else c + 1);
         Some (Data cell @ rest) } })"
  by pat_completeness auto

termination
  by (relation "measure (\<lambda>(_, C, _, c). nat (C - c))") auto

definition Display :: "textlib \<Rightarrow> Screen \<Rightarrow> string list option" where
  "Display E s = those (map (\<lambda>r. do {
     line \<leftarrow> idx (Buffer s) r; displayFrom E (Columns s) line 0 }) [0..Lines s - 1])"

definition LinesCells :: "Screen \<Rightarrow> Cell grid" where
  "LinesCells s = Buffer s"

declare displayFrom.simps [simp del]

section \<open>The invariant\<close>

lemma drawLimit_bounds:
  assumes "wf_screen s"
  shows "0 \<le> drawLimit s" "drawLimit s < Columns s"
  using wf_lrmm [OF assms] wf_Columns [OF assms] by (auto simp: drawLimit_def isModeSet_def)

lemma drawLimit_edits: "edits s t \<Longrightarrow> drawLimit t = drawLimit s"
  by (simp add: drawLimit_def isModeSet_def edits_fields)

lemma CarriageReturn_col:
  assumes "wf_screen s"
  shows "col (CarriageReturn s) \<le> drawLimit s"
  using wf_lrmm [OF assms] wf_Columns [OF assms]
  by (auto simp: CarriageReturn_def drawLimit_def isModeSet_def Let_def)

lemma Index_col: "Index s = Some t \<Longrightarrow> col t = col s"
  unfolding Index_def Let_def
  by (auto simp: on_buffer_def split: if_splits prod.splits)

lemma down_no_scroll_col [simp]: "col (down_no_scroll s) = col s"
  by (simp add: down_no_scroll_def split: prod.split)

lemma down_no_scroll_edits: "edits s (down_no_scroll s)"
  by (auto simp: down_no_scroll_def intro!: edits_intro split: prod.split)

lemma LineFeed_edits: "LineFeed s = Some t \<Longrightarrow> edits s t"
proof -
  let ?s = "s\<lparr>wrapNext := False\<rparr>"
  assume "LineFeed s = Some t"
  then obtain u where u: "(if \<not> canScrollHorizontal ?s then Some (down_no_scroll ?s) else Index ?s) = Some u"
    "t = (if isModeSet u ModeLNM then CarriageReturn u else u)"
    by (auto simp: LineFeed_def Let_def bind_eq_Some_conv)
  have "edits ?s u"
    using u(1) Index_edits [of ?s u] down_no_scroll_edits [of ?s] by (auto split: if_splits)
  then have "edits s u" using edits_trans [OF edits_wrapNext [OF edits_refl]] by blast
  then show ?thesis using u(2) by (simp add: edits_intro)
qed

lemma LineFeed_col:
  assumes "wf_screen s" "col s \<le> drawLimit s" "LineFeed s = Some t"
  shows "col t \<le> drawLimit s"
proof -
  let ?s = "s\<lparr>wrapNext := False\<rparr>"
  obtain u where u: "(if \<not> canScrollHorizontal ?s then Some (down_no_scroll ?s) else Index ?s) = Some u"
    "t = (if isModeSet u ModeLNM then CarriageReturn u else u)"
    using assms(3) by (auto simp: LineFeed_def Let_def bind_eq_Some_conv)
  have "wf_screen ?s" using assms(1) by simp
  then have wf: "wf_screen u"
    using u(1) Index_wf [of ?s] by (auto simp: returns_ex down_no_scroll_wf split: if_splits)
  have e: "edits ?s u"
    using u(1) Index_edits [of ?s u] down_no_scroll_edits [of ?s] by (auto split: if_splits)
  have "drawLimit u = drawLimit s" using drawLimit_edits [OF e] by (simp add: drawLimit_def)
  moreover have "col u = col s" using u(1) Index_col [of ?s u] by (auto split: if_splits)
  ultimately show ?thesis using CarriageReturn_col [OF wf] u(2) assms(2) by simp
qed

text \<open>The state of the loop of \<open>Draw\<close>.\<close>

definition drawing :: "Screen \<Rightarrow> int \<Rightarrow> Screen \<Rightarrow> bool" where
  "drawing s0 width t \<longleftrightarrow> wf_screen t \<and> Lines t = Lines s0 \<and> Columns t = Columns s0 \<and>
     drawLimit t = drawLimit s0 \<and> (0 < width \<longrightarrow> col t \<le> drawLimit s0)"

lemma drawing_wrap:
  assumes wf: "wf_screen s"
  shows "returns (drawing s w) (LineFeed (CarriageReturn s))"
proof -
  have wfc: "wf_screen (CarriageReturn s)" using wf by (rule CarriageReturn_wf)
  obtain t where t: "LineFeed (CarriageReturn s) = Some t" "wf_screen t"
    using LineFeed_wf [OF wfc] by (auto simp: returns_ex)
  have e: "edits s (CarriageReturn s)" "edits s t"
    using LineFeed_edits [OF t(1)] edits_trans [OF edits_moves(3) [OF edits_refl]] by (auto intro: edits_intro)
  have lim: "drawLimit (CarriageReturn s) = drawLimit s" using drawLimit_edits [OF e(1)] .
  have "col t \<le> drawLimit s"
    using LineFeed_col [OF wfc _ t(1)] CarriageReturn_col [OF wf] lim by simp
  then show ?thesis
    using t edits_fields(1,2) [OF e(2)] drawLimit_edits [OF e(2)] by (simp add: drawing_def)
qed

lemma InsertCharacters_edits: "InsertCharacters ps s = Some t \<Longrightarrow> edits s t \<and> Cursor t = Cursor s"
  unfolding InsertCharacters_def Let_def markDirty_def
  by (auto simp: on_buffer_def edits_intro split: if_splits prod.splits)

lemma drawPrepare_drawing:
  assumes wf: "wf_screen s"
  shows "returns (drawing s w) (drawPrepare w s)"
proof -
  have lim [simp]: "drawLimit (s\<lparr>wrapNext := x, Dirty := d\<rparr>) = drawLimit s" for x d
    by (simp add: drawLimit_def)
  have 1: "returns (\<lambda>t. wf_screen t \<and> Lines t = Lines s \<and> Columns t = Columns s \<and> drawLimit t = drawLimit s)
      (if wrapNext s \<and> w > 0 then LineFeed (CarriageReturn (markDirty (row s) (s\<lparr>wrapNext := False\<rparr>))) else Some s)"
    using drawing_wrap [of "markDirty (row s) (s\<lparr>wrapNext := False\<rparr>)" w] wf
    by (auto simp: drawing_def elim!: returns_mono)
  have 2: "drawing s w (if w > 0 \<and> col t > drawLimit s then atCol (drawLimit s) t else t)"
    if "wf_screen t \<and> Lines t = Lines s \<and> Columns t = Columns s \<and> drawLimit t = drawLimit s" for t
    using that drawLimit_bounds [OF wf] by (auto simp: drawing_def drawLimit_def intro!: wf_atCol)
  have 3: "returns (drawing s w) (if w = 2 \<and> col t = drawLimit s \<and> col t > 0 \<and> row t < Lines t - 1 \<and> isModeSet t ModeDECAWM
             then do {
               t \<leftarrow> on_buffer (put (row t) (col t) (defaultCell t)) t;
               t \<leftarrow> markWrapped (row t) t;
               LineFeed (CarriageReturn (markDirty (row t) t)) }
             else Some t)" if t: "drawing s w t" for t
  proof (rule returns_if)
    assume g: "w = 2 \<and> col t = drawLimit s \<and> col t > 0 \<and> row t < Lines t - 1 \<and> isModeSet t ModeDECAWM"
    have wft: "wf_screen t" using t by (simp add: drawing_def)
    have "inside (Lines t) (Columns t) (row t) (col t)"
      using t g drawLimit_bounds [OF wf] wf_row [OF wft] wf_col [OF wft] by (simp add: drawing_def inside_def)
    then have p: "on_buffer (put (row t) (col t) (defaultCell t)) t =
        Some (t\<lparr>Buffer := gset (row t) (col t) (defaultCell t) (Buffer t)\<rparr>)"
      using put_in [OF wf_grid [OF wft]] by (simp add: on_buffer_def)
    let ?b = "t\<lparr>Buffer := gset (row t) (col t) (defaultCell t) (Buffer t)\<rparr>"
    have wfb: "wf_screen ?b"
      using wft \<open>inside (Lines t) (Columns t) (row t) (col t)\<close> wf_grid [OF wft] by (simp add: wf_Buffer)
    obtain m where m: "lineWrapped t = Some m" using wf_wrapped [OF wft] by blast
    let ?c = "?b\<lparr>lineWrapped := Some (m(row t \<mapsto> True))\<rparr>"
    let ?d = "markDirty (row t) ?c"
    have "returns (drawing ?d w) (LineFeed (CarriageReturn ?d))"
      using wfb by (intro drawing_wrap) simp
    moreover have "drawLimit ?d = drawLimit t" by (simp add: drawLimit_def isModeSet_def)
    ultimately have "returns (drawing s w) (LineFeed (CarriageReturn ?d))"
      using t by (auto simp: drawing_def elim!: returns_mono)
    then show "returns (drawing s w) (do {
               t \<leftarrow> on_buffer (put (row t) (col t) (defaultCell t)) t;
               t \<leftarrow> markWrapped (row t) t;
               LineFeed (CarriageReturn (markDirty (row t) t)) })"
      unfolding p using m by (simp add: markWrapped_def)
  qed (use t in simp)
  have 4: "returns (drawing s w) (if isModeSet t ModeIRM \<and> w > 0 then InsertCharacters [w] t else Some t)"
    if t: "drawing s w t" for t
  proof (rule returns_if)
    have "wf_screen t" using t by (simp add: drawing_def)
    then obtain u where u: "InsertCharacters [w] t = Some u" "wf_screen u"
      using InsertCharacters_wf [of t "[w]"] by (auto simp: returns_ex)
    then show "returns (drawing s w) (InsertCharacters [w] t)"
      using t InsertCharacters_edits [OF u(1)] edits_fields [of t u] drawLimit_edits [of t u]
      by (auto simp: drawing_def)
  qed (use t in simp)
  show ?thesis
    unfolding drawPrepare_def Let_def
    by (rule returns_bind [OF 1], rule returns_bind [OF 3 [OF 2]], assumption, rule 4)
qed

lemma length_clearWidePairAt [simp]: "length (clearWidePairAt E c line) = length line"
  by (simp add: clearWidePairAt_def blankAt_def Let_def)

lemma on_row_wf:
  assumes wf: "wf_screen s" and r: "0 \<le> r" "r < Lines s"
    and f: "\<And>line. int (length line) = Columns s \<Longrightarrow> returns (\<lambda>l. int (length l) = Columns s) (f line)"
  shows "returns (\<lambda>t. wf_screen t \<and> (\<exists>b. t = s\<lparr>Buffer := b\<rparr>)) (on_row r f s)"
proof -
  have row: "idx (Buffer s) r = Some (Buffer s ! nat r)" "int (length (Buffer s ! nat r)) = Columns s"
    using idx_row [OF wf_grid [OF wf] r] grid_ok_row [OF wf_grid [OF wf] r] by auto
  obtain l where l: "f (Buffer s ! nat r) = Some l" "int (length l) = Columns s"
    using f [OF row(2)] by (auto simp: returns_ex)
  have "upd (Buffer s) r l = Some ((Buffer s)[nat r := l])"
    using upd_row [OF wf_grid [OF wf] r] .
  moreover have "wf_screen (s\<lparr>Buffer := (Buffer s)[nat r := l]\<rparr>)"
    using wf grid_ok_row_update [OF wf_grid [OF wf] l(2)] by (simp add: wf_Buffer)
  ultimately show ?thesis using row(1) l(1) by (auto simp: on_row_def on_buffer_def)
qed

lemma writes_length:
  assumes "int (length line) = C" "0 \<le> c" "c < C"
  shows "returns (\<lambda>l. int (length l) = C) (writeNarrow E cl attr c line)"
    and "returns (\<lambda>l. int (length l) = C) (writeWide E C cl attr c line)"
    and "returns (\<lambda>l. int (length l) = C) (combineInto E cl c line)"
  using assms by (auto simp: writeNarrow_def writeWide_def combineInto_def Let_def slice_simps)

lemma drawing_Buffer: "drawing s w (t\<lparr>Buffer := b\<rparr>) \<longleftrightarrow> drawing s w t" if "wf_screen (t\<lparr>Buffer := b\<rparr>)" "wf_screen t"
  using that by (simp add: drawing_def drawLimit_def)

lemma on_row_drawing:
  assumes t: "drawing s w t" and r: "0 \<le> r" "r < Lines t"
    and f: "\<And>line. int (length line) = Columns t \<Longrightarrow> returns (\<lambda>l. int (length l) = Columns t) (f line)"
  shows "returns (\<lambda>p. drawing s w (fst p)) (map_option (\<lambda>s. (s, False)) (on_row r f t))"
proof -
  have wf: "wf_screen t" using t by (simp add: drawing_def)
  show ?thesis
    unfolding returns_map_option fst_conv
    by (rule returns_mono [OF on_row_wf [OF wf r]]) (use f t wf drawing_Buffer in auto)
qed

lemma drawPut_drawing:
  assumes t: "drawing s w t" and s: "wf_screen s"
  shows "returns (\<lambda>p. drawing s w (fst p)) (drawPut E cl w t)"
proof -
  have wf: "wf_screen t" and dims: "Columns t = Columns s" "Lines t = Lines s" using t by (simp_all add: drawing_def)
  have row: "idx (Buffer t) (row t) = Some (Buffer t ! nat (row t))"
    using idx_row [OF wf_grid [OF wf] wf_row [OF wf]] .
  have c: "0 \<le> col t" "0 < w \<Longrightarrow> col t < Columns t" "col t \<le> Columns t" "1 \<le> Columns t"
    using t wf_col [OF wf] drawLimit_bounds [OF s] dims wf_Columns [OF wf] by (auto simp: drawing_def)
  have n: "returns (\<lambda>p. drawing s w (fst p)) (map_option (\<lambda>s. (s, False))
         (on_row (row t) (writeNarrow E cl (CurAttr (Cursor t)) (col t)) t))" if "w = 1"
    using that c by (intro on_row_drawing [OF t] wf_row [OF wf] writes_length) auto
  have wd: "returns (\<lambda>p. drawing s w (fst p)) (map_option (\<lambda>s. (s, False))
         (on_row (row t) (writeWide E (Columns t) cl (CurAttr (Cursor t)) (col t)) t))" if "w = 2"
    using that c by (intro on_row_drawing [OF t] wf_row [OF wf] writes_length) auto
  have cb: "returns (\<lambda>p. drawing s w (fst p)) (map_option (\<lambda>s. (s, False))
         (if col t > 0 then on_row (row t) (combineInto E cl (col t - 1)) t
          else if row t > 0 then on_row (row t - 1) (combineInto E cl (Columns t - 1)) t
          else Some t))"
    using on_row_drawing [OF t wf_row [OF wf] writes_length(3) [of _ "Columns t" "col t - 1" E cl]]
      on_row_drawing [OF t _ _ writes_length(3) [of _ "Columns t" "Columns t - 1" E cl], of "row t - 1"]
      c wf_row [OF wf] t by auto
  show ?thesis
    unfolding drawPut_def row Option.bind.simps
    by (intro returns_if n wd cb) (use t in simp_all)
qed

lemma drawAdvance_wf:
  assumes t: "drawing s w t" and s: "wf_screen s"
  shows "returns wf_screen (drawAdvance cl w (drawLimit s) t)"
proof -
  have wf: "wf_screen t" and dims: "Columns t = Columns s" using t by (simp_all add: drawing_def)
  obtain m where m: "lineWrapped t = Some m" using wf_wrapped [OF wf] by blast
  show ?thesis
    using wf wf_col [OF wf] drawLimit_bounds [OF s] dims m
    by (auto simp: drawAdvance_def markWrapped_def Let_def intro!: wf_atCol)
qed

lemma drawCluster_wf: "wf_screen s \<Longrightarrow> returns (\<lambda>p. wf_screen (fst p)) (drawCluster E cl s)"
  unfolding drawCluster_def Let_def
  apply (rule returns_bind [OF drawPrepare_drawing], assumption)
  apply (rule returns_bind [OF drawPut_drawing], assumption+)
  apply (auto simp: drawing_def elim!: returns_mono intro!: drawAdvance_wf [unfolded drawing_def])
  done

lemma drawLoop_wf: "wf_screen s \<Longrightarrow> returns wf_screen (drawLoop E cs s)"
proof (induction cs arbitrary: s)
  case (Cons c cs)
  then show ?case
    by (auto intro!: returns_bind [OF drawCluster_wf] split: prod.split)
qed simp

lemma translate_returns:
  assumes "wf_screen s"
  shows "\<exists>d. translate s data = Some d"
proof -
  have "\<exists>ys. those (map (\<lambda>r. if 0 \<le> r \<and> r < 256 then idx m r else Some r) rs) = Some ys"
    if "length m = 256" for m :: "rune list" and rs
    using that by (induction rs) (auto simp: slice_simps)
  moreover have "length (if Charset s = 1 then G1 s else G0 s) = 256"
    using assms by (simp add: wf_screen_def)
  ultimately show ?thesis unfolding translate_def Let_def by fastforce
qed

lemma Draw_wf [wf_returns]:
  assumes wf: "wf_screen s"
  shows "returns wf_screen (Draw E data s)"
proof -
  obtain d where "translate s data = Some d" using translate_returns [OF wf] by blast
  then show ?thesis
    using drawLoop_wf [OF wf, of E "graphemes E d"] by (auto simp: Draw_def returns_bind_iff elim!: returns_mono)
qed

lemma RepeatLast_wf [wf_returns]: "wf_screen s \<Longrightarrow> returns wf_screen (RepeatLast E params s)"
  by (auto simp: RepeatLast_def Let_def wf_returns intro!: returns_for_each)

section \<open>Wide pairs\<close>

definition wide :: "textlib \<Rightarrow> Cell \<Rightarrow> bool" where
  "wide E cell \<longleftrightarrow> string_width E (Data cell) = 2"

text \<open>
  Every empty cell continues a wide one, and every wide cell but the last of the row is continued.
  The row has no half of a pair at all when its last cell is not wide either.
\<close>

definition pairs_ok :: "textlib \<Rightarrow> Cell list \<Rightarrow> bool" where
  "pairs_ok E line \<longleftrightarrow> (\<forall>i < length line.
     (Data (line ! i) = '''' \<longrightarrow> 0 < i \<and> wide E (line ! (i - 1))) \<and>
     (wide E (line ! i) \<and> Suc i < length line \<longrightarrow> Data (line ! Suc i) = ''''))"

definition sane_widths :: "textlib \<Rightarrow> bool" where
  "sane_widths E \<longleftrightarrow> string_width E '''' = 0 \<and> string_width E '' '' = 1"

lemma clearWidePairAt_nat:
  assumes "k < length line"
  shows "clearWidePairAt E (int k) line =
    (let line = (if wide E (line ! k) \<and> Suc k < length line then blankAt (int (Suc k)) line else line)
     in if Data (line ! k) = '''' \<and> k > 0 \<and> wide E (line ! (k - 1)) then blankAt (int (k - 1)) line else line)"
proof -
  have "nat (int k + 1) = Suc k" "nat (1 + int k) = Suc k" "k > 0 \<Longrightarrow> nat (int k - 1) = k - 1" "int (Suc k) = int k + 1"
    "k > 0 \<Longrightarrow> int (k - 1) = int k - 1"
    by auto
  then show ?thesis
    using assms by (auto simp: clearWidePairAt_def wide_def Let_def len_def blankAt_def)
qed

lemma last_nth: "0 < length xs \<Longrightarrow> last xs = xs ! (length xs - 1)"
  by (cases xs rule: rev_cases) auto

lemma blank_not_wide: "sane_widths E \<Longrightarrow> \<not> wide E \<lparr>Data = '' '', CellAttr = a\<rparr>"
  by (simp add: sane_widths_def wide_def)

lemma clearWidePairAt_nth:
  assumes ok: "pairs_ok E line" and E: "sane_widths E" and k: "k < length line" and j: "j < length line"
  shows "clearWidePairAt E (int k) line ! j =
    (if j = Suc k \<and> wide E (line ! k) \<or> Suc j = k \<and> Data (line ! k) = ''''
     then \<lparr>Data = '' '', CellAttr = CellAttr (line ! j)\<rparr> else line ! j)"
proof -
  have e: "Data (line ! k) = '''' \<Longrightarrow> 0 < k \<and> wide E (line ! (k - 1))"
    using ok k by (auto simp: pairs_ok_def)
  have nw: "Data (line ! k) = '''' \<Longrightarrow> \<not> wide E (line ! k)"
    using E by (simp add: wide_def sane_widths_def)
  show ?thesis
    unfolding clearWidePairAt_nat [OF k] Let_def blankAt_def
    using e nw k j by (auto simp: nth_list_update)
qed

lemma writeNarrow_pairs:
  assumes ok: "pairs_ok E line" and E: "sane_widths E" and k: "0 \<le> c" "c < int (length line)"
    and cl: "string_width E cluster = 1"
  shows "returns (\<lambda>l. pairs_ok E l \<and> (wide E (last l) \<longleftrightarrow> wide E (last line) \<and> c + 1 < int (length line)))
    (writeNarrow E cluster attr c line)"
proof -
  obtain k where c: "c = int k" "k < length line" using k nonneg_int_cases by (metis of_nat_less_iff)
  define l where "l = clearWidePairAt E (int k) line"
  have len: "length l = length line" by (simp add: l_def)
  have nth: "l ! j = (if j = Suc k \<and> wide E (line ! k) \<or> Suc j = k \<and> Data (line ! k) = ''''
     then \<lparr>Data = '' '', CellAttr = CellAttr (line ! j)\<rparr> else line ! j)" if "j < length line" for j
    using clearWidePairAt_nth [OF ok E c(2) that] by (simp add: l_def)
  have ne: "cluster \<noteq> ''''" using cl E by (auto simp: sane_widths_def)
  have nw': "Data (line ! i) = '''' \<Longrightarrow> \<not> wide E (line ! i)" for i
    using E by (simp add: wide_def sane_widths_def)
  have nw: "\<not> wide E \<lparr>Data = cluster, CellAttr = attr\<rparr>" using cl by (simp add: wide_def)
  let ?m = "l[k := \<lparr>Data = cluster, CellAttr = attr\<rparr>]"
  have old: "Data (line ! i) = '''' \<Longrightarrow> 0 < i \<and> wide E (line ! (i - 1))"
    "wide E (line ! i) \<Longrightarrow> Suc i < length line \<Longrightarrow> Data (line ! Suc i) = ''''" if "i < length line" for i
    using ok that by (auto simp: pairs_ok_def)
  have new: "?m ! j = (if j = k then \<lparr>Data = cluster, CellAttr = attr\<rparr>
      else if j = Suc k \<and> wide E (line ! k) \<or> Suc j = k \<and> Data (line ! k) = ''''
      then \<lparr>Data = '' '', CellAttr = CellAttr (line ! j)\<rparr> else line ! j)" if "j < length line" for j
    using nth [OF that] c len that by (simp add: nth_list_update)
  have "Data (?m ! i) = '''' \<longrightarrow> 0 < i \<and> wide E (?m ! (i - 1))" if i: "i < length line" for i
  proof
    assume d: "Data (?m ! i) = ''''"
    then have "i \<noteq> k" and di: "Data (line ! i) = ''''" and n: "\<not> (i = Suc k \<and> wide E (line ! k))"
      using new [OF i] ne by (auto split: if_splits)
    then obtain j where j: "i = Suc j" "wide E (line ! j)" "j < length line"
      using old(1) [OF i] i by (cases i) auto
    then have "j \<noteq> k" using n by auto
    moreover have "\<not> (j = Suc k \<and> wide E (line ! k))"
      using old(2) [of k] j nw' c(2) by auto
    moreover have "\<not> (Suc j = k)" using j \<open>i \<noteq> k\<close> by simp
    ultimately show "0 < i \<and> wide E (?m ! (i - 1))" using new [OF j(3)] j by auto
  qed
  moreover have "wide E (?m ! i) \<and> Suc i < length line \<longrightarrow> Data (?m ! Suc i) = ''''" if i: "i < length line" for i
  proof
    assume w: "wide E (?m ! i) \<and> Suc i < length line"
    then have "i \<noteq> k" and wi: "wide E (line ! i)" and n: "\<not> (Suc i = k \<and> Data (line ! k) = '''')"
      using new [OF i] nw blank_not_wide [OF E] by (auto split: if_splits)
    moreover have "Data (line ! Suc i) = ''''" using old(2) [OF i wi] w by simp
    ultimately show "Data (?m ! Suc i) = ''''"
      using new [of "Suc i"] w old(1) [OF c(2)] nw' [of "k - 1"] by auto
  qed
  ultimately have "pairs_ok E ?m" using len by (simp add: pairs_ok_def)
  moreover have "wide E (last ?m) \<longleftrightarrow> wide E (last line) \<and> Suc k < length line"
  proof -
    define n where "n = length line - 1"
    have n: "n < length line" "length line = Suc n" using c(2) by (auto simp: n_def)
    have l: "last ?m = ?m ! n" "last line = line ! n" using n len by (simp_all add: last_nth)
    show ?thesis
      unfolding l new [OF n(1)] using old(2) [OF c(2)] nw nw' [of n] blank_not_wide [OF E] n c(2) by auto
  qed
  moreover have "writeNarrow E cluster attr c line = Some ?m" using c len by (simp add: writeNarrow_def l_def slice_simps)
  moreover have "c + 1 < int (length line) \<longleftrightarrow> Suc k < length line" using c by auto
  ultimately show ?thesis by simp
qed

text \<open>A wide head, with its continuation when there is a column for it.\<close>

lemma writeWide_pairs:
  assumes ok: "pairs_ok E line" and E: "sane_widths E" and k: "0 \<le> c" "c < int (length line)"
    and cl: "string_width E cluster = 2"
  shows "returns (\<lambda>l. pairs_ok E l \<and> (wide E (last l) \<longleftrightarrow>
      c + 1 = int (length line) \<or> wide E (last line) \<and> c + 2 < int (length line)))
    (writeWide E (int (length line)) cluster attr c line)"
proof -
  obtain k where c: "c = int k" "k < length line" using k nonneg_int_cases by (metis of_nat_less_iff)
  have k1: "nat (1 + int k) = Suc k" "nat (int k + 1) = Suc k" by auto
  define l where "l = clearWidePairAt E (int k) line"
  define l2 where "l2 = (if Suc k < length line then clearWidePairAt E (int (Suc k)) l else l)"
  let ?h = "\<lparr>Data = cluster, CellAttr = attr\<rparr>" and ?t = "\<lparr>Data = '''', CellAttr = attr\<rparr>"
  let ?m = "if Suc k < length line then l2[k := ?h, Suc k := ?t] else l2[k := ?h]"
  have len: "length l = length line" "length l2 = length line" by (simp_all add: l_def l2_def)
  have old: "Data (line ! i) = '''' \<Longrightarrow> 0 < i \<and> wide E (line ! (i - 1))"
    "wide E (line ! i) \<Longrightarrow> Suc i < length line \<Longrightarrow> Data (line ! Suc i) = ''''" if "i < length line" for i
    using ok that by (auto simp: pairs_ok_def)
  have nw: "Data (line ! i) = '''' \<Longrightarrow> \<not> wide E (line ! i)" for i
    using E by (simp add: wide_def sane_widths_def)
  have nb: "\<not> wide E \<lparr>Data = '' '', CellAttr = a\<rparr>" for a using blank_not_wide [OF E] .
  have nth: "l ! j = (if j = Suc k \<and> wide E (line ! k) \<or> Suc j = k \<and> Data (line ! k) = ''''
     then \<lparr>Data = '' '', CellAttr = CellAttr (line ! j)\<rparr> else line ! j)" if "j < length line" for j
    using clearWidePairAt_nth [OF ok E c(2) that] by (simp add: l_def)
  have lk: "l ! k = line ! k" using nth [OF c(2)] by simp
  have wk: "wide E (l ! Suc k) = wide E (line ! Suc k)" if "Suc k < length line"
    using nth [OF that] old(2) [OF c(2) _ that] nw [of "Suc k"] nb by auto
  have ek: "\<not> (Data (l ! Suc k) = '''' \<and> wide E (l ! k))" if "Suc k < length line"
    using nth [OF that] lk by auto
  have nth2: "l2 ! j = (if j = Suc (Suc k) \<and> wide E (line ! Suc k) then \<lparr>Data = '' '', CellAttr = CellAttr (l ! j)\<rparr> else l ! j)"
    if "j < length line" for j
  proof (cases "Suc k < length line")
    case True
    then have "Suc k < length l" using len by simp
    from clearWidePairAt_nat [OF this, of E] show ?thesis
      using True that wk ek len by (auto simp: l2_def Let_def blankAt_def nth_list_update)
  qed (use that in \<open>auto simp: l2_def\<close>)
  have new: "?m ! j = (if j = k then ?h else if j = Suc k then ?t
      else if j = Suc (Suc k) \<and> wide E (line ! Suc k) \<or> Suc j = k \<and> Data (line ! k) = ''''
      then \<lparr>Data = '' '', CellAttr = CellAttr (line ! j)\<rparr> else line ! j)" if "j < length line" for j
    using nth2 [OF that] nth [OF that] c len that by (auto simp: nth_list_update)
  have ne: "cluster \<noteq> ''''" using cl E by (auto simp: sane_widths_def)
  have hw: "wide E ?h" "\<not> wide E ?t" using cl E by (auto simp: wide_def sane_widths_def)
  have "Data (?m ! i) = '''' \<longrightarrow> 0 < i \<and> wide E (?m ! (i - 1))" if i: "i < length line" for i
  proof
    assume d: "Data (?m ! i) = ''''"
    show "0 < i \<and> wide E (?m ! (i - 1))"
    proof (cases "i = Suc k")
      case True
      then show ?thesis using new [OF c(2)] hw by simp
    next
      case False
      then have "i \<noteq> k" and di: "Data (line ! i) = ''''" and n: "\<not> (i = Suc (Suc k) \<and> wide E (line ! Suc k))"
        using d new [OF i] ne by (auto split: if_splits)
      then obtain j where j: "i = Suc j" "wide E (line ! j)" "j < length line"
        using old(1) [OF i] i by (cases i) auto
      have "j \<noteq> k" "j \<noteq> Suc k" using False n j by auto
      moreover have "\<not> (j = Suc (Suc k) \<and> wide E (line ! Suc k))"
        using old(2) [of "Suc k"] j nw by auto
      moreover have "\<not> (Suc j = k)" using j \<open>i \<noteq> k\<close> by simp
      ultimately show ?thesis using new [OF j(3)] j by auto
    qed
  qed
  moreover have "wide E (?m ! i) \<and> Suc i < length line \<longrightarrow> Data (?m ! Suc i) = ''''" if i: "i < length line" for i
  proof
    assume w: "wide E (?m ! i) \<and> Suc i < length line"
    show "Data (?m ! Suc i) = ''''"
    proof (cases "i = k")
      case True
      then show ?thesis using new [of "Suc k"] w by simp
    next
      case False
      then have "i \<noteq> Suc k" and wi: "wide E (line ! i)" and n: "\<not> (Suc i = k \<and> Data (line ! k) = '''')"
        using w new [OF i] nb hw by (auto split: if_splits)
      moreover have "Data (line ! Suc i) = ''''" using old(2) [OF i wi] w by simp
      ultimately show ?thesis
        using new [of "Suc i"] w False old(1) [OF c(2)] nw [of "k - 1"] by auto
    qed
  qed
  moreover have lm: "length ?m = length line" using len by simp
  ultimately have "pairs_ok E ?m" unfolding pairs_ok_def by simp
  moreover have "wide E (last ?m) \<longleftrightarrow> Suc k = length line \<or> wide E (last line) \<and> Suc (Suc k) < length line"
  proof -
    define n where "n = length line - 1"
    have n: "n < length line" "length line = Suc n" using c(2) by (auto simp: n_def)
    have "length ?m = Suc n" using lm n by simp
    then have l: "last ?m = ?m ! n" "last line = line ! n" using n last_nth [of ?m] last_nth [of line] by auto
    have "wide E (line ! Suc k) \<Longrightarrow> n = Suc (Suc k) \<Longrightarrow> \<not> wide E (line ! n)"
      using old(2) [of "Suc k"] n nw [of n] by auto
    then show ?thesis
      unfolding l new [OF n(1)] using hw nb n c(2) by auto
  qed
  moreover have "writeWide E (int (length line)) cluster attr c line = Some ?m"
    using c len k1 by (simp add: writeWide_def Let_def l_def [symmetric] l2_def slice_simps add.commute [of 1 "int k"])
  moreover have "c + 1 = int (length line) \<longleftrightarrow> Suc k = length line"
    "c + 2 < int (length line) \<longleftrightarrow> Suc (Suc k) < length line" using c by auto
  ultimately show ?thesis by simp
qed

end
