(* ===== verification/TeReport.thy ===== *)
theory TeReport
  imports TeDraw
begin

text \<open>
  The queries and settings of \<open>pkg/te/screen.go\<close> that do not touch the cells: titles, colours and
  selections (OSC), device and mode reports, status strings, and the window operations. A reply
  is appended to \<open>processInput\<close>, the log of \<open>WriteProcessInput\<close> calls.
\<close>

definition WriteProcessInput :: "string \<Rightarrow> Screen \<Rightarrow> Screen" where
  "WriteProcessInput msg s = s\<lparr>processInput := processInput s @ [msg]\<rparr>"

section \<open>Titles\<close>

fun decodeHexString :: "string \<Rightarrow> string option" where
  "decodeHexString [] = Some []"
| "decodeHexString [x] = None"
| "decodeHexString (x # y # rest) =
     (case parse_uint 16 8 [x, y] of
        None \<Rightarrow> None
      | Some b \<Rightarrow> map_option (Cons (byte_char b)) (decodeHexString rest))"

definition encodeHexString :: "string \<Rightarrow> string" where
  "encodeHexString input = concat (map (\<lambda>c. show_hex 2 (byte c)) input)"

definition applyTitleModes :: "Screen \<Rightarrow> string \<Rightarrow> string" where
  "applyTitleModes s param =
    (let value = (if titleHexInput s
                  then (case decodeHexString param of Some d \<Rightarrow> d | None \<Rightarrow> param) else param)
     in if titleHexOutput s then encodeHexString value else value)"

definition SetTitle :: "string \<Rightarrow> Screen \<Rightarrow> Screen" where
  "SetTitle param s = s\<lparr>Title := applyTitleModes s param\<rparr>"

definition SetIconName :: "string \<Rightarrow> Screen \<Rightarrow> Screen" where
  "SetIconName param s = s\<lparr>IconName := applyTitleModes s param\<rparr>"

definition SetTitleMode :: "int list \<Rightarrow> bool \<Rightarrow> Screen \<Rightarrow> Screen" where
  "SetTitleMode params reset s =
    fold (\<lambda>param s.
      if param = 0 then s\<lparr>titleHexInput := \<not> reset\<rparr>
      else if param = 2 then s\<lparr>titleHexInput := False\<rparr>
      else if param = 1 then s\<lparr>titleHexOutput := \<not> reset\<rparr>
      else if param = 3 then s\<lparr>titleHexOutput := False\<rparr>
      else s) params s"

section \<open>Selections\<close>

definition selectionKey :: "string \<Rightarrow> string" where
  "selectionKey selection = (if selection = '''' then ''s0'' else selection)"

definition SetSelectionData :: "string \<Rightarrow> string \<Rightarrow> Screen \<Rightarrow> Screen" where
  "SetSelectionData selection data s =
    s\<lparr>selectionData := (selectionData s)(selectionKey selection \<mapsto> data)\<rparr>"

definition SelectionData :: "Screen \<Rightarrow> string \<Rightarrow> string" where
  "SelectionData s selection =
    (case selectionData s (selectionKey selection) of None \<Rightarrow> '''' | Some d \<Rightarrow> d)"

definition QuerySelectionData :: "string \<Rightarrow> Screen \<Rightarrow> Screen" where
  "QuerySelectionData selection s =
    WriteProcessInput (ControlOSC @ ''52;'' @ selectionKey selection @ '';'' @
      SelectionData s selection @ ControlST) s"

section \<open>Colours\<close>

definition colorSpecAliases :: "string \<Rightarrow> string option" where
  "colorSpecAliases = map_of [
    (''rgbi:1/1/1'', ''ffff/ffff/ffff''), (''rgbi:0.5/0.5/0.5'', ''c1c1/bbbb/bbbb''),
    (''CIEXYZ:1/1/1'', ''ffff/ffff/ffff''), (''CIEXYZ:0.5/0.5/0.5'', ''dddd/b5b5/a0a0''),
    (''CIEuvY:1/1/1'', ''ffff/ffff/ffff''), (''CIEuvY:0.5/0.5/0.5'', ''ffff/a3a3/aeae''),
    (''CIExyY:1/1/1'', ''ffff/ffff/ffff''), (''CIExyY:0.5/0.5/0.5'', ''f7f7/b3b3/0e0e''),
    (''CIELab:1/1/1'', ''6c6c/6767/6767''), (''CIELab:0.5/0.5/0.5'', ''5252/4f4f/4f4f''),
    (''CIELuv:1/1/1'', ''1616/1414/0e0e''), (''CIELuv:0.5/0.5/0.5'', ''0e0e/1313/0e0e''),
    (''TekHVC:1/1/1'', ''1a1a/1313/0f0f''), (''TekHVC:0.5/0.5/0.5'', ''1111/1313/0e0e'')]"

definition normalizeHexComponent :: "string \<Rightarrow> string" where
  "normalizeHexComponent component =
    (case parse_int 16 32 component of
       None \<Rightarrow> ''0000''
     | Some value \<Rightarrow>
         let v = (if len component = 1 then push_bit 4 value
                  else if len component = 2 then value
                  else if len component = 3 then drop_bit 4 value
                  else drop_bit 8 value);
             v = (if v < 0 then 0 else v);
             v = (if v > 255 then 255 else v)
         in show_hex 4 (v * 256 + v))"

definition rgbSpec :: "string \<Rightarrow> string \<Rightarrow> string \<Rightarrow> string" where
  "rgbSpec r g b = ''rgb:'' @ normalizeHexComponent r @ ''/'' @ normalizeHexComponent g @ ''/'' @
     normalizeHexComponent b"

definition normalizeColorSpec :: "string \<Rightarrow> string option" where
  "normalizeColorSpec spec =
    (case colorSpecAliases spec of
       Some alias \<Rightarrow> Some (''rgb:'' @ alias)
     | None \<Rightarrow>
         if has_prefix ''rgb:'' spec then
           (case split_at (CHR ''/'') (drop 4 spec) of
              [r, g, b] \<Rightarrow> Some (rgbSpec r g b)
            | _ \<Rightarrow> None)
         else if has_prefix ''#'' spec then
           (let hex = drop 1 spec; size = length hex div 3 in
            if length hex mod 3 \<noteq> 0 then None
            else if size < 1 \<or> size > 4 then None
            else Some (rgbSpec (take size hex) (take size (drop size hex)) (drop (2 * size) hex)))
         else None)"

definition defaultIndexedColors :: "Screen \<Rightarrow> Screen" where
  "defaultIndexedColors s = (if indexedColors s = 0 then s\<lparr>indexedColors := 16\<rparr> else s)"

definition SetColor :: "int \<Rightarrow> string \<Rightarrow> Screen \<Rightarrow> Screen" where
  "SetColor index value s =
    (case normalizeColorSpec value of
       None \<Rightarrow> s
     | Some normalized \<Rightarrow>
         let s = defaultIndexedColors s in
         if index \<ge> indexedColors s
         then s\<lparr>specialColors := (specialColors s)(index - indexedColors s \<mapsto> normalized)\<rparr>
         else s\<lparr>colorPalette := (colorPalette s)(index \<mapsto> normalized)\<rparr>)"

definition colorOr :: "string option \<Rightarrow> string" where
  "colorOr c = (case c of None \<Rightarrow> ''rgb:0000/0000/0000'' | Some v \<Rightarrow> v)"

definition QueryColor :: "int \<Rightarrow> Screen \<Rightarrow> Screen" where
  "QueryColor index s =
    (let s = defaultIndexedColors s;
         value = (if index \<ge> indexedColors s then colorOr (specialColors s (index - indexedColors s))
                  else colorOr (colorPalette s index))
     in WriteProcessInput (ControlOSC @ ''4;'' @ show_int index @ '';'' @ value @ ControlST) s)"

definition ResetColor :: "int \<Rightarrow> bool \<Rightarrow> Screen \<Rightarrow> Screen" where
  "ResetColor index all s =
    (if all then s\<lparr>colorPalette := Map.empty\<rparr> else s\<lparr>colorPalette := (colorPalette s)(index := None)\<rparr>)"

definition SetDynamicColor :: "int \<Rightarrow> string \<Rightarrow> Screen \<Rightarrow> Screen" where
  "SetDynamicColor index value s =
    (case normalizeColorSpec value of
       None \<Rightarrow> s
     | Some normalized \<Rightarrow> s\<lparr>dynamicColors := (dynamicColors s)(index \<mapsto> normalized)\<rparr>)"

definition QueryDynamicColor :: "int \<Rightarrow> Screen \<Rightarrow> Screen" where
  "QueryDynamicColor index s =
    WriteProcessInput (ControlOSC @ show_int index @ '';'' @ colorOr (dynamicColors s index) @ ControlST) s"

definition SetSpecialColor :: "int \<Rightarrow> string \<Rightarrow> Screen \<Rightarrow> Screen" where
  "SetSpecialColor index value s =
    (case normalizeColorSpec value of
       None \<Rightarrow> s
     | Some normalized \<Rightarrow> s\<lparr>specialColors := (specialColors s)(index \<mapsto> normalized)\<rparr>)"

definition QuerySpecialColor :: "int \<Rightarrow> Screen \<Rightarrow> Screen" where
  "QuerySpecialColor index s =
    WriteProcessInput (ControlOSC @ ''5;'' @ show_int index @ '';'' @ colorOr (specialColors s index) @
      ControlST) s"

definition ResetSpecialColor :: "int \<Rightarrow> bool \<Rightarrow> Screen \<Rightarrow> Screen" where
  "ResetSpecialColor index all s =
    (if all then s\<lparr>specialColors := Map.empty\<rparr> else s\<lparr>specialColors := (specialColors s)(index := None)\<rparr>)"

definition ResetDynamicColor :: "int \<Rightarrow> bool \<Rightarrow> Screen \<Rightarrow> Screen" where
  "ResetDynamicColor index all s =
    (if all then s\<lparr>dynamicColors := Map.empty\<rparr> else s\<lparr>dynamicColors := (dynamicColors s)(index := None)\<rparr>)"

section \<open>Device reports\<close>

definition ReportDeviceAttributes :: "int \<Rightarrow> bool \<Rightarrow> rune \<Rightarrow> Screen \<Rightarrow> Screen" where
  "ReportDeviceAttributes mode private prefix s =
    (let lvl = conformanceLevel s in
     if mode \<noteq> 0 then s
     else if prefix = 62 then
       (let p0 = (if lvl = 5 then 64 else if lvl = 4 then 41 else if lvl = 3 then 24
                  else if lvl = 2 then 1 else 0)
        in WriteProcessInput (ControlCSI @ ''>'' @ show_int p0 @ '';'' @ show_int 400 @ '';'' @
             show_int 0 @ ''c'') s)
     else
       (let params = (if lvl = 5 then [65, 1, 2, 6, 9, 15, 16, 17, 18, 21, 22, 28, 29]
                      else if lvl = 4 then [64, 1, 2, 6, 9, 15, 16, 17, 18, 21, 22, 28, 29]
                      else if lvl = 3 then [63, 1, 2, 6, 9, 15, 16, 17, 18, 21, 22, 28, 29]
                      else if lvl = 2 then [61, 1, 2, 6, 9, 15, 22, 29]
                      else [6])
        in if \<not> private \<or> prefix = 63
           then WriteProcessInput (ControlCSI @ ''?'' @ join_with '';'' (map show_int params) @ ''c'') s
           else s))"

definition ReportTerminalVersion :: "Screen \<Rightarrow> Screen" where
  "ReportTerminalVersion s =
    (if TerminalName s = '''' then s
     else WriteProcessInput (ControlDCS @ ''>|'' @ TerminalName s @ ControlST) s)"

text \<open>The cursor position of a CPR or DECXCPR reply: row and column from 1, relative to the origin.\<close>

definition reportPosition :: "Screen \<Rightarrow> int \<times> int" where
  "reportPosition s =
    (let x = col s + 1;
         y = row s + 1;
         y = (case Margins s of
                Some m \<Rightarrow> if isModeSet s ModeDECOM \<and> row s \<ge> Top m \<and> row s \<le> Bottom m
                          then y - Top m else y
              | None \<Rightarrow> y);
         x = (if isModeSet s ModeDECOM \<and> isModeSet s ModeDECLRMM \<and>
                 col s \<ge> leftMargin s \<and> col s \<le> rightMargin s
              then x - leftMargin s else x);
         x = (if x < 1 then 1 else x);
         x = (if x > Columns s then Columns s else x)
     in (y, x))"

definition ReportDeviceStatus :: "int \<Rightarrow> bool \<Rightarrow> rune \<Rightarrow> int list \<Rightarrow> Screen \<Rightarrow> Screen" where
  "ReportDeviceStatus mode private prefix rest s =
    (case reportPosition s of (y, x) \<Rightarrow>
     if private \<and> prefix = 63 then
       (if mode = 6 then
          (if conformanceLevel s \<ge> 4
           then WriteProcessInput (ControlCSI @ ''?'' @ show_int y @ '';'' @ show_int x @ '';1R'') s
           else WriteProcessInput (ControlCSI @ ''?'' @ show_int y @ '';'' @ show_int x @ ''R'') s)
        else if mode = 15 then WriteProcessInput (ControlCSI @ ''?10n'') s
        else if mode = 25 then WriteProcessInput (ControlCSI @ ''?20n'') s
        else if mode = 26 then
          WriteProcessInput (ControlCSI @
            (if conformanceLevel s \<le> 2 then ''?27;0n''
             else if conformanceLevel s = 3 then ''?27;0;0n'' else ''?27;0;0;0n'')) s
        else if mode = 55 then WriteProcessInput (ControlCSI @ ''?50n'') s
        else if mode = 56 then WriteProcessInput (ControlCSI @ ''?57;1n'') s
        else if mode = 62 then WriteProcessInput (ControlCSI @ ''0*{'') s
        else if mode = 63 then
          WriteProcessInput (ControlESC @ ''P'' @ show_int (first_param 0 rest) @ ''!~0000'' @ ControlST) s
        else if mode = 75 then WriteProcessInput (ControlCSI @ ''?70n'') s
        else if mode = 85 then WriteProcessInput (ControlCSI @ ''?83n'') s
        else s)
     else if mode = 5 then WriteProcessInput (ControlCSI @ ''0n'') s
     else if mode = 6 then
       WriteProcessInput (ControlCSI @ show_int y @ '';'' @ show_int x @ ''R'') s
     else s)"

definition modeStatus :: "int \<Rightarrow> bool \<Rightarrow> Screen \<Rightarrow> int" where
  "modeStatus mode private s =
    (if mode_key mode private \<in> Mode s then 1
     else if private then (if mode = 60 then 4 else 2)
     else (if mode \<in> {1, 5, 7, 10, 11, 13, 14, 15, 16, 17, 18, 19} then 4 else 2))"

definition ReportMode :: "int \<Rightarrow> bool \<Rightarrow> Screen \<Rightarrow> Screen" where
  "ReportMode mode private s =
    (if conformanceExplicit s \<and> conformanceLevel s < 3 then s
     else WriteProcessInput (ControlCSI @ (if private then ''?'' else '''') @ show_int mode @ '';'' @
            show_int (modeStatus mode private s) @ ''$y'') s)"

definition sgrCodes :: "Attr \<Rightarrow> string list" where
  "sgrCodes a = [''0''] @ (if Bold a then [''1''] else []) @ (if Italics a then [''3''] else []) @
     (if Underline a then [''4''] else []) @ (if Blink a then [''5''] else []) @
     (if Reverse a then [''7''] else []) @ (if Conceal a then [''8''] else []) @
     (if Strikethrough a then [''9''] else [])"

definition statusString :: "string \<Rightarrow> Screen \<Rightarrow> string option" where
  "statusString query s =
    (if query = ''m'' then Some (''1$r'' @ join_with '';'' (sgrCodes (CurAttr (Cursor s))) @ ''m'')
     else if query = ''r'' then
       (case scrollRegion s of (tp, bt) \<Rightarrow>
          Some (''1$r'' @ show_int (tp + 1) @ '';'' @ show_int (bt + 1) @ ''r''))
     else if query = ''s'' then
       (if isModeSet s ModeDECLRMM
        then Some (''1$r'' @ show_int (leftMargin s + 1) @ '';'' @ show_int (rightMargin s + 1) @ ''s'')
        else Some (''1$r1;'' @ show_int (Columns s) @ ''s''))
     else if query = '' q'' then Some (''1$r'' @ show_int (cursorStyle s) @ '' q'')
     else if query = ''t'' then Some ''1$r27t''
     else if query = ''+q'' then Some ''1$r0+q''
     else if query = ''*}'' then Some ''1$r0*}''
     else if query = ''$}'' then Some (''1$r'' @ show_int (statusDisplay s) @ ''$}'')
     else if query = ''*x'' then Some ''1$r0*x''
     else if query = [CHR 0x22, CHR ''q''] then
       Some (''1$r'' @ show_int (charProtectionMode s) @ [CHR 0x22, CHR ''q''])
     else if query = [CHR 0x22, CHR ''p''] then
       Some (''1$r'' @ show_int (60 + conformanceLevel s) @ '';1'' @ [CHR 0x22, CHR ''p''])
     else if query = ''+r'' then Some ''1$r0+r''
     else if query = ''*|'' then Some (''1$r'' @ show_int (Lines s) @ ''*|'')
     else if query = ''$~'' then Some ''1$r0$~''
     else None)"

definition RequestStatusString :: "string \<Rightarrow> Screen \<Rightarrow> Screen" where
  "RequestStatusString query s =
    (if query = '''' then s
     else case statusString query s of
            None \<Rightarrow> s
          | Some response \<Rightarrow> WriteProcessInput (ControlDCS @ response @ ControlST) s)"

section \<open>Window operations\<close>

definition param_at :: "int list \<Rightarrow> nat \<Rightarrow> int option" where
  "param_at params i = (if i < length params then Some (params ! i) else None)"

definition popTitle :: "Screen \<Rightarrow> Screen" where
  "popTitle s = (if titleStack s = [] then s
                 else s\<lparr>Title := last (titleStack s), titleStack := butlast (titleStack s)\<rparr>)"

definition popIcon :: "Screen \<Rightarrow> Screen" where
  "popIcon s = (if iconStack s = [] then s
                else s\<lparr>IconName := last (iconStack s), iconStack := butlast (iconStack s)\<rparr>)"

definition pushTitle :: "Screen \<Rightarrow> Screen" where
  "pushTitle s = s\<lparr>titleStack := titleStack s @ [Title s]\<rparr>"

definition pushIcon :: "Screen \<Rightarrow> Screen" where
  "pushIcon s = s\<lparr>iconStack := iconStack s @ [IconName s]\<rparr>"

text \<open>\<open>if len(params) > i && params[i] >= 0\<close>, with zero replaced by a default.\<close>

definition sizeParam :: "int list \<Rightarrow> nat \<Rightarrow> int \<Rightarrow> int \<Rightarrow> int" where
  "sizeParam params i zero dflt =
    (case param_at params i of
       Some v \<Rightarrow> if v \<ge> 0 then (if v = 0 then zero else v) else dflt
     | None \<Rightarrow> dflt)"

definition windowResize :: "int list \<Rightarrow> Screen \<Rightarrow> Screen option" where
  "windowResize params s =
    (case params of
       [p] \<Rightarrow> if p > 0 then Resize p (Columns s) s else Some s
     | [_, p] \<Rightarrow> if p > 0 then Resize p (Columns s) s else Some s
     | _ \<Rightarrow>
        (let rows = sizeParam params 1 (Lines s) (Lines s);
             cols = sizeParam params 2 (Columns s) (Columns s)
         in if rows > 0 \<and> cols > 0 then Resize rows cols s else Some s))"

definition windowReport :: "int \<Rightarrow> Screen \<Rightarrow> Screen" where
  "windowReport op s =
    (let pair = (\<lambda>k a b. ControlCSI @ k @ '';'' @ show_int a @ '';'' @ show_int b @ ''t'') in
     if op = 11 then WriteProcessInput (ControlCSI @ show_int (if windowIconified s then 2 else 1) @ ''t'') s
     else if op = 13 then WriteProcessInput (pair ''3'' (windowPosX s) (windowPosY s)) s
     else if op = 14 then WriteProcessInput (pair ''4'' (windowPixelHeight s) (windowPixelWidth s)) s
     else if op = 15 then WriteProcessInput (pair ''5'' (screenPixelHeight s) (screenPixelWidth s)) s
     else if op = 16 then WriteProcessInput (pair ''6'' (charPixelHeight s) (charPixelWidth s)) s
     else if op = 18 then WriteProcessInput (pair ''8'' (Lines s) (Columns s)) s
     else if op = 19 then WriteProcessInput (pair ''9'' (Lines s) (Columns s)) s
     else if op = 20 then WriteProcessInput (ControlOSC @ ''L'' @ IconName s @ ControlST) s
     else if op = 21 then WriteProcessInput (ControlOSC @ ''l'' @ Title s @ ControlST) s
     else s)"

definition windowTitles :: "bool \<Rightarrow> int \<Rightarrow> Screen \<Rightarrow> Screen" where
  "windowTitles push sub s =
    (if push then
       (if sub = 0 then pushIcon (pushTitle s)
        else if sub = 1 then pushIcon s
        else if sub = 2 then pushTitle s else s)
     else
       (if sub = 0 then popIcon (popTitle s)
        else if sub = 1 then (popIcon s)\<lparr>titleStack := []\<rparr>
        else if sub = 2 then (popTitle s)\<lparr>iconStack := []\<rparr> else s))"

definition windowMove :: "int list \<Rightarrow> Screen \<Rightarrow> Screen" where
  "windowMove params s0 =
    (let s = s0\<lparr>windowPosX := (case param_at params 1 of Some v \<Rightarrow> if v \<ge> 0 then v else windowPosX s0
                                                       | None \<Rightarrow> windowPosX s0)\<rparr>;
         s = s\<lparr>windowPosY := (case param_at params 2 of Some v \<Rightarrow> if v \<ge> 0 then v else windowPosY s
                                                      | None \<Rightarrow> windowPosY s)\<rparr>
     in if length params = 2 then s\<lparr>windowPosY := 0\<rparr> else s)"

definition windowPixelSize :: "int list \<Rightarrow> Screen \<Rightarrow> Screen" where
  "windowPixelSize params s0 =
    (let h = sizeParam params 1 (screenPixelHeight s0) 0;
         s = (if h > 0 then s0\<lparr>windowPixelHeight := h\<rparr> else s0);
         w = sizeParam params 2 (screenPixelWidth s) 0
     in if w > 0 then s\<lparr>windowPixelWidth := w\<rparr> else s)"

definition WindowOp :: "int list \<Rightarrow> Screen \<Rightarrow> Screen option" where
  "WindowOp params s =
    (case params of
       [] \<Rightarrow> Some s
     | op # _ \<Rightarrow>
        (let sub = (case param_at params 1 of Some v \<Rightarrow> v | None \<Rightarrow> 0) in
         if op = 1 then Some (s\<lparr>windowIconified := False\<rparr>)
         else if op = 2 then Some (s\<lparr>windowIconified := True\<rparr>)
         else if op = 3 then Some (windowMove params s)
         else if op = 4 then Some (windowPixelSize params s)
         else if op = 8 then windowResize params s
         else if op = 22 then Some (windowTitles True sub s)
         else if op = 23 then Some (windowTitles False sub s)
         else Some (windowReport op s)))"

section \<open>The invariant\<close>

lemma WriteProcessInput_wf [simp]: "wf_screen (WriteProcessInput m s) = wf_screen s"
  by (simp add: WriteProcessInput_def)

lemma wf_title_icon [simp]:
  "wf_screen (s\<lparr>Title := a, titleStack := b\<rparr>) = wf_screen s"
  "wf_screen (s\<lparr>IconName := a, iconStack := b\<rparr>) = wf_screen s"
  by (simp_all add: wf_screen_def)

lemma titles_wf [wf_intro]:
  "wf_screen s \<Longrightarrow> wf_screen (SetTitle t s)" "wf_screen s \<Longrightarrow> wf_screen (SetIconName t s)"
  "wf_screen s \<Longrightarrow> wf_screen (SetSelectionData a b s)" "wf_screen s \<Longrightarrow> wf_screen (QuerySelectionData a s)"
  by (simp_all add: SetTitle_def SetIconName_def SetSelectionData_def QuerySelectionData_def)

lemma SetTitleMode_wf [wf_intro]: "wf_screen s \<Longrightarrow> wf_screen (SetTitleMode params reset s)"
  unfolding SetTitleMode_def by (induction params arbitrary: s) auto

lemma defaultIndexedColors_wf [simp]: "wf_screen (defaultIndexedColors s) = wf_screen s"
  by (simp add: defaultIndexedColors_def)

lemma colors_wf [wf_intro]:
  "wf_screen s \<Longrightarrow> wf_screen (SetColor i v s)" "wf_screen s \<Longrightarrow> wf_screen (QueryColor i s)"
  "wf_screen s \<Longrightarrow> wf_screen (ResetColor i a s)" "wf_screen s \<Longrightarrow> wf_screen (SetDynamicColor i v s)"
  "wf_screen s \<Longrightarrow> wf_screen (QueryDynamicColor i s)" "wf_screen s \<Longrightarrow> wf_screen (SetSpecialColor i v s)"
  "wf_screen s \<Longrightarrow> wf_screen (QuerySpecialColor i s)" "wf_screen s \<Longrightarrow> wf_screen (ResetSpecialColor i a s)"
  "wf_screen s \<Longrightarrow> wf_screen (ResetDynamicColor i a s)"
  by (simp_all add: SetColor_def QueryColor_def ResetColor_def SetDynamicColor_def QueryDynamicColor_def
      SetSpecialColor_def QuerySpecialColor_def ResetSpecialColor_def ResetDynamicColor_def Let_def
      split: option.split)

lemma reports_wf [wf_intro]:
  "wf_screen s \<Longrightarrow> wf_screen (ReportDeviceAttributes m p r s)"
  "wf_screen s \<Longrightarrow> wf_screen (ReportTerminalVersion s)"
  "wf_screen s \<Longrightarrow> wf_screen (ReportMode m p s)"
  "wf_screen s \<Longrightarrow> wf_screen (RequestStatusString q s)"
  by (simp_all add: ReportDeviceAttributes_def ReportTerminalVersion_def ReportMode_def
      RequestStatusString_def Let_def split: option.split)

lemma ReportDeviceStatus_wf [wf_intro]: "wf_screen s \<Longrightarrow> wf_screen (ReportDeviceStatus m p r rest s)"
  by (simp add: ReportDeviceStatus_def split: prod.split)

lemma titleStack_wf [simp]:
  "wf_screen (popTitle s) = wf_screen s" "wf_screen (popIcon s) = wf_screen s"
  "wf_screen (pushTitle s) = wf_screen s" "wf_screen (pushIcon s) = wf_screen s"
  by (simp_all add: popTitle_def popIcon_def pushTitle_def pushIcon_def)

lemma window_wf [simp]:
  "wf_screen (windowReport op s) = wf_screen s" "wf_screen (windowTitles push sub s) = wf_screen s"
  "wf_screen (windowMove params s) = wf_screen s" "wf_screen (windowPixelSize params s) = wf_screen s"
  by (simp_all add: windowReport_def windowTitles_def windowMove_def windowPixelSize_def Let_def)

lemma WindowOp_wf [wf_returns]: "wf_screen s \<Longrightarrow> returns wf_screen (WindowOp params s)"
  by (simp add: WindowOp_def windowResize_def wf_returns Let_def split: list.split)

section \<open>Replies and round trips\<close>

text \<open>Hexadecimal titles: what \<open>encodeHexString\<close> prints, \<open>decodeHexString\<close> reads.\<close>

lemma digit_16:
  assumes "d < 16"
  shows "digit_val (digit_char (int d)) = Some (int d)"
proof -
  have "\<forall>d \<in> {0..<16}. digit_val (digit_char (int d)) = Some (int d)"
    by (simp add: digit_val_def digit_char_def atLeastLessThan_nat_numeral atLeast0_lessThan_Suc numeral_nat)
  then show ?thesis using assms by simp
qed

lemma show_hex_byte:
  assumes "0 \<le> v" "v < 256"
  shows "show_hex 2 v = [digit_char (v div 16), digit_char (v mod 16)]"
proof -
  define n where "n = nat v"
  have n: "n < 256" "v div 16 = int (n div 16)" "v mod 16 = int (n mod 16)"
    using assms by (auto simp: n_def zdiv_int zmod_int)
  have z: "digit_char 0 = CHR ''0''" by code_simp
  show ?thesis
  proof (cases "n < 16")
    case True
    then have "nat_digits 16 n = [digit_char (int n)]" by (subst nat_digits.simps) simp
    then show ?thesis using True n z by (simp add: show_hex_def n_def [symmetric])
  next
    case False
    then have "nat_digits 16 n = nat_digits 16 (n div 16) @ [digit_char (int (n mod 16))]"
      by (subst nat_digits.simps) simp
    moreover have "nat_digits 16 (n div 16) = [digit_char (int (n div 16))]"
      using n(1) by (subst nat_digits.simps) (simp add: less_mult_imp_div_less)
    ultimately show ?thesis using n by (simp add: show_hex_def n_def [symmetric])
  qed
qed

lemma parse_hex_byte:
  assumes "0 \<le> v" "v < 256"
  shows "parse_uint 16 8 [digit_char (v div 16), digit_char (v mod 16)] = Some v"
proof -
  have d: "0 \<le> v div 16" "v div 16 < 16" "0 \<le> v mod 16" "v mod 16 < 16" using assms by auto
  have "digit_val (digit_char (v div 16)) = Some (v div 16)" "digit_val (digit_char (v mod 16)) = Some (v mod 16)"
    using digit_16 [of "nat (v div 16)"] digit_16 [of "nat (v mod 16)"] d by (simp_all add: nat_less_iff)
  moreover have "v div 16 < 16" using assms by linarith
  moreover have "v div 16 * 16 + v mod 16 = v" by simp
  ultimately show ?thesis using assms by (simp add: parse_uint_def)
qed

lemma decode_encodeHex: "decodeHexString (encodeHexString t) = Some t"
proof (induction t)
  case (Cons c t)
  have b: "0 \<le> byte c" "byte c < 256" using byte_bounds by auto
  show ?case
    using Cons parse_hex_byte [OF b] by (simp add: encodeHexString_def show_hex_byte [OF b])
qed (simp add: encodeHexString_def)

end
