(* ===== verification/TeEvent.thy ===== *)
theory TeEvent
  imports TeReport TeDraw
begin

text \<open>
  The callback interface between the parser and its listener: \<open>EventHandler\<close> of
  \<open>stream.go\<close> as the datatype \<open>event\<close> (in four groups), one constructor per method (the three optional methods
  \<open>EraseInDisplaySelective\<close>, \<open>SetCursorStyle\<close> and \<open>SetActiveStatusDisplay\<close> included), and its
  implementation by \<open>Screen\<close> as \<open>screen_handle\<close>. \<open>screen_reachable\<close> holds of every screen the
  program can build from \<open>NewScreen\<close> by method calls.
\<close>

section \<open>The interface\<close>

datatype motion =
    EvBackspace
  | EvTab
  | EvLineFeed
  | EvNextLine
  | EvCarriageReturn
  | EvIndex
  | EvReverseIndex
  | EvSetTabStop
  | EvClearTabStop "int list"
  | EvSaveCursor
  | EvRestoreCursor
  | EvSaveCursorDEC
  | EvRestoreCursorDEC
  | EvCursorUp "int list"
  | EvCursorDown "int list"
  | EvCursorForward "int list"
  | EvCursorBack "int list"
  | EvCursorDown1 "int list"
  | EvCursorUp1 "int list"
  | EvCursorToColumn "int list"
  | EvCursorToColumnAbsolute "int list"
  | EvCursorPosition "int list"
  | EvCursorBackTab "int list"
  | EvCursorForwardTab "int list"
  | EvCursorToLine "int list"
  | EvForwardIndex
  | EvBackIndex
  | EvSetMargins "int list"
  | EvSetLeftRightMargins int int

datatype edit =
    EvAlignmentDisplay
  | EvInsertCharacters "int list"
  | EvScrollUp "int list"
  | EvScrollDown "int list"
  | EvRepeatLast "int list"
  | EvEraseInDisplay int bool "int list"
  | EvEraseInLine int bool "int list"
  | EvInsertLines "int list"
  | EvDeleteLines "int list"
  | EvDeleteCharacters "int list"
  | EvEraseCharacters "int list"
  | EvInsertColumns int
  | EvDeleteColumns int
  | EvEraseRectangle int int int int
  | EvSelectiveEraseRectangle int int int int
  | EvFillRectangle rune int int int int
  | EvCopyRectangle int int int int int int
  | EvDraw string
  | EvEraseInDisplaySelective int

datatype setting =
    EvBell
  | EvShiftOut
  | EvShiftIn
  | EvReset
  | EvStartProtectedArea
  | EvEndProtectedArea
  | EvSetCharacterProtection int
  | EvSoftReset
  | EvSaveModes "int list"
  | EvRestoreModes "int list"
  | EvSelectGraphicRendition "int list" bool
  | EvDebug "string list"
  | EvSetMode "int list" bool
  | EvResetMode "int list" bool
  | EvDefineCharset string string
  | EvSetConformance int int
  | EvSetCursorStyle int
  | EvSetActiveStatusDisplay int

datatype report =
    EvReportDeviceAttributes int bool rune "int list"
  | EvReportDeviceStatus int bool rune "int list"
  | EvReportTerminalVersion
  | EvReportMode int bool
  | EvRequestStatusString string
  | EvSetTitle string
  | EvSetIconName string
  | EvSetSelectionData string string
  | EvQuerySelectionData string
  | EvSetColor int string
  | EvQueryColor int
  | EvResetColor int bool
  | EvSetDynamicColor int string
  | EvQueryDynamicColor int
  | EvSetSpecialColor int string
  | EvQuerySpecialColor int
  | EvResetSpecialColor int bool
  | EvResetDynamicColor int bool
  | EvSetTitleMode "int list" bool
  | EvWindowOp "int list"

datatype event = Motion motion | Edit edit | Setting setting | Report report

section \<open>The screen as a listener\<close>

fun screen_motion :: "textlib \<Rightarrow> motion \<Rightarrow> Screen \<Rightarrow> Screen option" where
  "screen_motion E EvBackspace s = Some (Backspace s)"
| "screen_motion E EvTab s = Tab s"
| "screen_motion E EvLineFeed s = LineFeed s"
| "screen_motion E EvNextLine s = NextLine s"
| "screen_motion E EvCarriageReturn s = Some (CarriageReturn s)"
| "screen_motion E EvIndex s = Index s"
| "screen_motion E EvReverseIndex s = ReverseIndex s"
| "screen_motion E EvSetTabStop s = SetTabStop s"
| "screen_motion E (EvClearTabStop a) s = Some (ClearTabStop a s)"
| "screen_motion E EvSaveCursor s = Some (SaveCursor s)"
| "screen_motion E EvRestoreCursor s = RestoreCursor s"
| "screen_motion E EvSaveCursorDEC s = Some (SaveCursorDEC s)"
| "screen_motion E EvRestoreCursorDEC s = RestoreCursorDEC s"
| "screen_motion E (EvCursorUp a) s = Some (CursorUp a s)"
| "screen_motion E (EvCursorDown a) s = Some (CursorDown a s)"
| "screen_motion E (EvCursorForward a) s = Some (CursorForward a s)"
| "screen_motion E (EvCursorBack a) s = Some (CursorBack a s)"
| "screen_motion E (EvCursorDown1 a) s = Some (CursorDown1 a s)"
| "screen_motion E (EvCursorUp1 a) s = Some (CursorUp1 a s)"
| "screen_motion E (EvCursorToColumn a) s = Some (CursorToColumn a s)"
| "screen_motion E (EvCursorToColumnAbsolute a) s = Some (CursorToColumnAbsolute a s)"
| "screen_motion E (EvCursorPosition a) s = Some (CursorPosition a s)"
| "screen_motion E (EvCursorBackTab a) s = Some (CursorBackTab a s)"
| "screen_motion E (EvCursorForwardTab a) s = CursorForwardTab a s"
| "screen_motion E (EvCursorToLine a) s = Some (CursorToLine a s)"
| "screen_motion E EvForwardIndex s = ForwardIndex s"
| "screen_motion E EvBackIndex s = BackIndex s"
| "screen_motion E (EvSetMargins a) s = Some (SetMargins a s)"
| "screen_motion E (EvSetLeftRightMargins a b) s = Some (SetLeftRightMargins a b s)"

fun screen_edit :: "textlib \<Rightarrow> edit \<Rightarrow> Screen \<Rightarrow> Screen option" where
  "screen_edit E EvAlignmentDisplay s = AlignmentDisplay s"
| "screen_edit E (EvInsertCharacters a) s = InsertCharacters a s"
| "screen_edit E (EvScrollUp a) s = ScrollUp a s"
| "screen_edit E (EvScrollDown a) s = ScrollDown a s"
| "screen_edit E (EvRepeatLast a) s = RepeatLast E a s"
| "screen_edit E (EvEraseInDisplay a b c) s = EraseInDisplay a b s"
| "screen_edit E (EvEraseInLine a b c) s = EraseInLine a b s"
| "screen_edit E (EvInsertLines a) s = InsertLines a s"
| "screen_edit E (EvDeleteLines a) s = DeleteLines a s"
| "screen_edit E (EvDeleteCharacters a) s = DeleteCharacters a s"
| "screen_edit E (EvEraseCharacters a) s = EraseCharacters a s"
| "screen_edit E (EvInsertColumns a) s = InsertColumns a s"
| "screen_edit E (EvDeleteColumns a) s = DeleteColumns a s"
| "screen_edit E (EvEraseRectangle a b c d) s = EraseRectangle a b c d s"
| "screen_edit E (EvSelectiveEraseRectangle a b c d) s = SelectiveEraseRectangle a b c d s"
| "screen_edit E (EvFillRectangle a b c d e) s = FillRectangle a b c d e s"
| "screen_edit E (EvCopyRectangle a b c d e f) s = CopyRectangle a b c d e f s"
| "screen_edit E (EvDraw a) s = Draw E a s"
| "screen_edit E (EvEraseInDisplaySelective a) s = EraseInDisplaySelective a s"

fun screen_setting :: "textlib \<Rightarrow> setting \<Rightarrow> Screen \<Rightarrow> Screen option" where
  "screen_setting E EvBell s = Some s"
| "screen_setting E EvShiftOut s = Some (ShiftOut s)"
| "screen_setting E EvShiftIn s = Some (ShiftIn s)"
| "screen_setting E EvReset s = Reset s"
| "screen_setting E EvStartProtectedArea s = Some (StartProtectedArea s)"
| "screen_setting E EvEndProtectedArea s = Some (EndProtectedArea s)"
| "screen_setting E (EvSetCharacterProtection a) s = Some (SetCharacterProtection a s)"
| "screen_setting E EvSoftReset s = Some (SoftReset s)"
| "screen_setting E (EvSaveModes a) s = Some (SaveModes a s)"
| "screen_setting E (EvRestoreModes a) s = RestoreModes a s"
| "screen_setting E (EvSelectGraphicRendition a b) s = SelectGraphicRendition a b s"
| "screen_setting E (EvDebug a) s = Some s"
| "screen_setting E (EvSetMode a b) s = SetMode a b s"
| "screen_setting E (EvResetMode a b) s = ResetMode a b s"
| "screen_setting E (EvDefineCharset a b) s = Some (DefineCharset a b s)"
| "screen_setting E (EvSetConformance a b) s = SetConformance a b s"
| "screen_setting E (EvSetCursorStyle a) s = Some (SetCursorStyle a s)"
| "screen_setting E (EvSetActiveStatusDisplay a) s = Some (SetActiveStatusDisplay a s)"

fun screen_report :: "textlib \<Rightarrow> report \<Rightarrow> Screen \<Rightarrow> Screen option" where
  "screen_report E (EvReportDeviceAttributes a b c d) s = Some (ReportDeviceAttributes a b c s)"
| "screen_report E (EvReportDeviceStatus a b c d) s = Some (ReportDeviceStatus a b c d s)"
| "screen_report E EvReportTerminalVersion s = Some (ReportTerminalVersion s)"
| "screen_report E (EvReportMode a b) s = Some (ReportMode a b s)"
| "screen_report E (EvRequestStatusString a) s = Some (RequestStatusString a s)"
| "screen_report E (EvSetTitle a) s = Some (SetTitle a s)"
| "screen_report E (EvSetIconName a) s = Some (SetIconName a s)"
| "screen_report E (EvSetSelectionData a b) s = Some (SetSelectionData a b s)"
| "screen_report E (EvQuerySelectionData a) s = Some (QuerySelectionData a s)"
| "screen_report E (EvSetColor a b) s = Some (SetColor a b s)"
| "screen_report E (EvQueryColor a) s = Some (QueryColor a s)"
| "screen_report E (EvResetColor a b) s = Some (ResetColor a b s)"
| "screen_report E (EvSetDynamicColor a b) s = Some (SetDynamicColor a b s)"
| "screen_report E (EvQueryDynamicColor a) s = Some (QueryDynamicColor a s)"
| "screen_report E (EvSetSpecialColor a b) s = Some (SetSpecialColor a b s)"
| "screen_report E (EvQuerySpecialColor a) s = Some (QuerySpecialColor a s)"
| "screen_report E (EvResetSpecialColor a b) s = Some (ResetSpecialColor a b s)"
| "screen_report E (EvResetDynamicColor a b) s = Some (ResetDynamicColor a b s)"
| "screen_report E (EvSetTitleMode a b) s = Some (SetTitleMode a b s)"
| "screen_report E (EvWindowOp a) s = WindowOp a s"

fun screen_handle :: "textlib \<Rightarrow> event \<Rightarrow> Screen \<Rightarrow> Screen option" where
  "screen_handle E (Motion e) s = screen_motion E e s"
| "screen_handle E (Edit e) s = screen_edit E e s"
| "screen_handle E (Setting e) s = screen_setting E e s"
| "screen_handle E (Report e) s = screen_report E e s"

section \<open>Every event keeps the screen well-formed\<close>

text \<open>
  \<open>event_safe\<close> excludes the one event that can panic on a well-formed screen: a truecolour
  SGR with a component outside the range of a byte.
\<close>

fun event_safe :: "event \<Rightarrow> bool" where
  "event_safe (Setting (EvSelectGraphicRendition attrs private)) = sgr_safe attrs"
| "event_safe e = True"

lemma screen_motion_wf: "wf_screen s \<Longrightarrow> returns wf_screen (screen_motion E e s)"
  by (cases e) (auto simp: SetTabStop_wf intro!: wf_returns wf_intro)

lemma screen_edit_wf: "wf_screen s \<Longrightarrow> returns wf_screen (screen_edit E e s)"
  by (cases e) (auto intro!: wf_returns wf_intro)

lemma screen_setting_wf:
  "wf_screen s \<Longrightarrow> event_safe (Setting e) \<Longrightarrow> returns wf_screen (screen_setting E e s)"
  by (cases e) (auto simp: SGR_wf intro!: wf_returns wf_intro)

lemma screen_report_wf: "wf_screen s \<Longrightarrow> returns wf_screen (screen_report E e s)"
  by (cases e) (auto intro!: wf_returns wf_intro)

lemma screen_handle_safe:
  "wf_screen s \<Longrightarrow> event_safe e \<Longrightarrow> returns wf_screen (screen_handle E e s)"
  by (cases e) (simp_all add: screen_motion_wf screen_edit_wf screen_setting_wf screen_report_wf)

lemma screen_handle_wf:
  assumes "wf_screen s" "screen_handle E e s = Some t"
  shows "wf_screen t"
proof (cases "event_safe e")
  case True
  then show ?thesis using screen_handle_safe [OF assms(1) True, of E] assms(2) by simp
next
  case False
  then obtain attrs p where "e = Setting (EvSelectGraphicRendition attrs p)"
    by (cases e rule: event_safe.cases) auto
  then show ?thesis using assms by (auto intro: SGR_keeps_wf)
qed

section \<open>Reachable screens\<close>

inductive screen_reachable :: "textlib \<Rightarrow> Screen \<Rightarrow> bool" for E where
  start: "NewScreen cols lines = Some s \<Longrightarrow> screen_reachable E s"
| event: "screen_reachable E s \<Longrightarrow> screen_handle E e s = Some t \<Longrightarrow> screen_reachable E t"
| resize: "screen_reachable E s \<Longrightarrow> Resize lines cols s = Some t \<Longrightarrow> screen_reachable E t"

lemma screen_reachable_wf: "screen_reachable E s \<Longrightarrow> wf_screen s"
proof (induction rule: screen_reachable.induct)
  case (start cols lines s)
  then show ?case using NewScreen_wf [of lines cols] by simp
next
  case (event s e t)
  then show ?case by (simp add: screen_handle_wf)
next
  case (resize s lines cols t)
  then show ?case using Resize_wf [of s lines cols] by simp
qed

end
