(* ===== verification/TeResize.thy ===== *)
theory TeResize
  imports TeModes
begin

text \<open>
  What \<open>Resize\<close> does to the contents: growing keeps every cell where it is and pads with
  blanks; shrinking drops rows at the top and columns at the right.
\<close>

lemma reshape_cell:
  assumes g: "\<forall>l \<in> set g. int (length l) = C" "length g \<le> nat lines" and b: "inside lines columns y x"
  shows "cell_at (reshape lines columns blank g) y x =
    (if y < int (length g) \<and> x < C then cell_at g y x else blank)"
proof (cases "y < int (length g)")
  case True
  then have y: "nat y < length g" using b by (auto simp: inside_def)
  then have C: "int (length (g ! nat y)) = C" using g(1) by simp
  have x: "0 \<le> x" "x < columns" using b by (auto simp: inside_def)
  have "fit_row columns blank (g ! nat y) ! nat x = (if x < C then g ! nat y ! nat x else blank)"
  proof (cases "x < C")
    case True
    then have "nat x < length (g ! nat y)" using x C by auto
    then show ?thesis using x True by (simp add: fit_row_def nth_append)
  next
    case False
    then have "\<not> nat x < length (g ! nat y)" "nat x - length (g ! nat y) < nat (columns - C)"
      using x C by auto
    then show ?thesis using x False C by (simp add: fit_row_def nth_append len_def)
  qed
  then show ?thesis
    using True y by (simp add: reshape_def cell_at_def nth_append)
next
  case False
  then have "\<not> nat y < length g" "nat y - length g < nat lines - length g" "nat x < nat columns"
    using b by (auto simp: inside_def)
  then show ?thesis using False b by (simp add: reshape_def cell_at_def nth_append blankLine_def)
qed

lemma home_fields:
  assumes "Margins s = None" "ModeDECLRMM \<notin> Mode s" "1 \<le> Lines s" "1 \<le> Columns s"
  shows "row (CursorPosition [0, 0] s) = 0" "col (CursorPosition [0, 0] s) = 0"
  using assms by (simp_all add: CursorPosition_def first_param_def second_param_def Let_def isModeSet_def
      ensureVB_def ensureHB_def atRow_def atCol_def at_least_1_def)

lemma home_regions:
  assumes "Margins s = None" "ModeDECLRMM \<notin> Mode s"
  shows "scrollRegion (CursorPosition [0, 0] s) = (0, Lines s - 1)"
    "horizontalMargins (CursorPosition [0, 0] s) = (0, Columns s - 1)"
    "isModeSet (CursorPosition [0, 0] s) ModeDECLRMM = False"
    "defaultCell (CursorPosition [0, 0] s) = defaultCell s"
proof -
  obtain c w where e: "CursorPosition [0, 0] s = s\<lparr>Cursor := c, wrapNext := w\<rparr>"
    using CursorPosition_shape by blast
  show "scrollRegion (CursorPosition [0, 0] s) = (0, Lines s - 1)"
    "horizontalMargins (CursorPosition [0, 0] s) = (0, Columns s - 1)"
    "isModeSet (CursorPosition [0, 0] s) ModeDECLRMM = False"
    "defaultCell (CursorPosition [0, 0] s) = defaultCell s"
    unfolding e using assms
    by (simp_all add: scrollRegion_def horizontalMargins_def isModeSet_def defaultCell_def defaultAttr_def)
qed

text \<open>Deleting \<open>n\<close> lines at the home position moves every row up by \<open>n\<close>.\<close>

lemma delete_top_lines:
  assumes wf: "wf_screen s" and m: "Margins s = None" "ModeDECLRMM \<notin> Mode s" and n: "1 \<le> n" "n \<le> Lines s"
    and del: "DeleteLines [n] (CursorPosition [0, 0] s) = Some t" and yx: "inside (Lines s) (Columns s) y x"
  shows "cell_at (Buffer t) y x = (if y + n < Lines s then cell_at (Buffer s) (y + n) x else defaultCell s)"
proof -
  let ?c = "CursorPosition [0, 0] s"
  note h = home_regions [OF m] home_fields [OF m wf_Lines [OF wf] wf_Columns [OF wf]]
  have wc: "wf_screen ?c" using wf by (rule CursorPosition_wf)
  have at: "0 \<le> row ?c" "row ?c \<le> Lines s - 1" "isModeSet ?c ModeDECLRMM \<Longrightarrow> 0 \<le> col ?c \<and> col ?c \<le> Columns s - 1"
    using h wf_Lines [OF wf] by simp_all
  have "min (at_least_1 (first_param 1 [n])) (Lines s - 1 - row ?c + 1) = n"
    using n h by (simp add: first_param_def at_least_1_def)
  with DeleteLines_paints [OF wc h(1,2) at, of "[n]"] del obtain u where u: "t = CarriageReturn u"
    "paints ({row ?c..Lines s - 1} \<times> {0..Columns s - 1}) (up_by n (Lines s - 1) (defaultCell ?c) (Buffer ?c))
        (markDirtyRange (row ?c) (Lines ?c - 1) ?c) u"
    by auto
  obtain c w where e: "CarriageReturn u = u\<lparr>Cursor := c, wrapNext := w\<rparr>" using CarriageReturn_shape by blast
  have "cell_at (Buffer u) y x = up_by n (Lines s - 1) (defaultCell s) (Buffer s) y x"
    using paints_cell [OF u(2), of y x] yx h by (simp add: inside_def)
  then show ?thesis unfolding u(1) e by (auto simp: up_by_def)
qed

lemma restoreCursorState_reverse:
  assumes "restoreCursorState b s = Some t"
  shows "isModeSet t ModeDECSCNM = isModeSet s ModeDECSCNM"
proof -
  have cp: "Mode (CursorPosition ps v) = Mode v" for ps v
  proof -
    obtain c w where e: "CursorPosition ps v = v\<lparr>Cursor := c, wrapNext := w\<rparr>" using CursorPosition_shape by blast
    show ?thesis unfolding e by simp
  qed
  have en: "Mode (ensureVB k (ensureHB v)) = Mode v" for k v
  proof -
    obtain c w where e: "ensureVB k (ensureHB v) = v\<lparr>Cursor := c, wrapNext := w\<rparr>" using ensure_shape by blast
    show ?thesis unfolding e by simp
  qed
  show ?thesis
    using assms
    by (auto simp add: restoreCursorState_def Let_def bind_eq_Some_conv isModeSet_def cp en if_distrib [where f = Some, symmetric]
        simp del: ModeDECOM_def ModeDECAWM_def ModeDECSCNM_def split: if_splits) (auto simp: ModeDECOM_def ModeDECAWM_def)
qed

lemma SaveCursor_reads:
  "Buffer (SaveCursor s) = Buffer s" "Margins (SaveCursor s) = Margins s" "Mode (SaveCursor s) = Mode s"
  "Lines (SaveCursor s) = Lines s" "Columns (SaveCursor s) = Columns s" "defaultCell (SaveCursor s) = defaultCell s"
  by (simp_all add: SaveCursor_def saveCursorState_def Let_def defaultCell_def defaultAttr_def isModeSet_def)

lemma edits_defaultCell: "edits s t \<Longrightarrow> defaultCell t = defaultCell s"
  by (auto simp: edits_def defaultCell_def defaultAttr_def isModeSet_def)

text \<open>The shrinking step of \<open>Resize\<close>: the rows that remain are the last \<open>lines\<close> ones.\<close>

lemma shrink_cells:
  assumes wf: "wf_screen s" and m: "Margins s = None" "ModeDECLRMM \<notin> Mode s"
    and l: "0 < lines" "lines < Lines s"
  shows "returns (\<lambda>t. \<exists>u. wf_screen u \<and> Lines u = Lines s \<and> Columns u = Columns s \<and>
       t = u\<lparr>Buffer := take (nat lines) (Buffer u)\<rparr> \<and> defaultCell u = defaultCell s \<and>
       (\<forall>y x. inside lines (Columns s) y x \<longrightarrow> cell_at (Buffer u) y x = cell_at (Buffer s) (y + (Lines s - lines)) x))
     (do { s \<leftarrow> DeleteLines [Lines s - lines] (CursorPosition [0, 0] (SaveCursor s));
       s \<leftarrow> RestoreCursor s;
       b \<leftarrow> slice (Buffer s) 0 lines;
       Some (s\<lparr>Buffer := b\<rparr>) })"
proof -
  let ?v = "SaveCursor s" and ?n = "Lines s - lines"
  let ?c = "CursorPosition [0, 0] ?v"
  note sr = SaveCursor_reads
  have wv: "wf_screen ?v" and wc: "wf_screen ?c" using wf by (simp_all add: SaveCursor_wf CursorPosition_wf)
  then obtain t where t: "DeleteLines [?n] ?c = Some t" "wf_screen t"
    using DeleteLines_wf [of ?c "[?n]"] by (auto simp: returns_ex)
  note e = DeleteLines_edits [OF t(1)]
  have td: "Lines t = Lines s" "Columns t = Columns s" using edits_fields(1,2) [OF e] sr by simp_all
  obtain u where u: "RestoreCursor t = Some u" "wf_screen u"
    using RestoreCursor_wf(1) [OF t(2)] by (auto simp: returns_ex)
  note r = restoreCursorState_fields [of True t u, OF u(1) [unfolded RestoreCursor_def]]
  have dc: "defaultCell u = defaultCell s"
    using restoreCursorState_reverse [OF u(1) [unfolded RestoreCursor_def]] edits_defaultCell [OF e]
      home_regions(4) [of ?v] m sr by (simp add: defaultCell_def defaultAttr_def)
  have mv: "Margins ?v = None" "ModeDECLRMM \<notin> Mode ?v" "1 \<le> ?n" "?n \<le> Lines ?v" using m l sr by simp_all
  have "cell_at (Buffer u) y x = cell_at (Buffer s) (y + ?n) x" if "inside lines (Columns s) y x" for y x
    using delete_top_lines [OF wv mv t(1), of y x] that l by (simp add: r(3) sr inside_def)
  moreover have "slice (Buffer u) 0 lines = Some (take (nat lines) (Buffer u))"
    using grid_ok_length [OF wf_grid [OF u(2)]] l r td by (simp add: slice_def)
  ultimately show ?thesis using t(1) u r td dc by auto
qed

text \<open>The grid of \<open>take (nat lines)\<close> rows of a well-formed screen.\<close>

lemma taken_rows:
  assumes "wf_screen u"
  shows "\<forall>l \<in> set (take n (Buffer u)). int (length l) = Columns u" "length (take (nat k) (Buffer u)) \<le> nat k"
  using wf_grid [OF assms] by (auto simp: grid_ok_def dest: in_set_takeD)

lemma resized_cells:
  assumes u: "wf_screen u" and b: "1 \<le> l" "1 \<le> c" and t: "t = u\<lparr>Buffer := take (nat l) (Buffer u)\<rparr>"
  shows "returns (\<lambda>t'. wf_screen t' \<and> Lines t' = l \<and> Columns t' = c \<and> (\<forall>y x. inside l c y x \<longrightarrow>
      cell_at (Buffer t') y x =
        (if y < Lines u \<and> x < Columns u then cell_at (Buffer u) y x else defaultCell u))) (resized l c t)"
proof -
  have len: "int (length (Buffer u)) = Lines u" using grid_ok_length [OF wf_grid [OF u]] .
  have "cell_at (reshape l c (defaultCell t) (take (nat l) (Buffer u))) y x =
      (if y < Lines u \<and> x < Columns u then cell_at (Buffer u) y x else defaultCell u)" if "inside l c y x" for y x
  proof -
    have "cell_at (take (nat l) (Buffer u)) y x = cell_at (Buffer u) y x" "defaultCell t = defaultCell u"
      using that t by (auto simp: cell_at_def inside_def defaultCell_def defaultAttr_def isModeSet_def)
    moreover have "(y < int (length (take (nat l) (Buffer u)))) = (y < Lines u)"
      using that len by (auto simp: inside_def)
    ultimately show ?thesis
      using reshape_cell [OF taken_rows [OF u] that, of "defaultCell t"] by simp
  qed
  then show ?thesis by (intro returns_mono [OF resized_wf [OF u b t]]) simp
qed

lemma Resize_cells:
  assumes wf: "wf_screen s" and m: "Margins s = None" "ModeDECLRMM \<notin> Mode s"
    and l: "l = max 1 lines" and c: "c = max 1 columns" and d: "d = max 0 (Lines s - l)"
  shows "returns (\<lambda>t. wf_screen t \<and> Lines t = l \<and> Columns t = c \<and> (\<forall>y x. inside l c y x \<longrightarrow>
      cell_at (Buffer t) y x =
        (if y + d < Lines s \<and> x < Columns s then cell_at (Buffer s) (y + d) x else defaultCell s)))
    (Resize lines columns s)"
proof -
  have m1: "(if lines \<le> 0 then 1 else lines) = l" "(if columns \<le> 0 then 1 else columns) = c" "1 \<le> l" "1 \<le> c"
    by (auto simp: l c)
  have ne: "(Buffer s = []) = False" using wf_Buffer_ne [OF wf] by simp
  show ?thesis
  proof (cases "Lines s = l \<and> Columns s = c")
    case True
    then show ?thesis
      unfolding Resize_def Let_def m1 using wf ne d by (simp add: inside_def)
  next
    case False
    define s1 where "s1 = markDirtyRange 0 (l - 1) s"
    have 1: "wf_screen s1" "Lines s1 = Lines s" "Columns s1 = Columns s" "Margins s1 = None" "ModeDECLRMM \<notin> Mode s1"
      "Buffer s1 = Buffer s" "defaultCell s1 = defaultCell s"
      using wf m by (simp_all add: s1_def defaultCell_def defaultAttr_def isModeSet_def)
    have step: "returns (\<lambda>t. \<exists>u. wf_screen u \<and> Columns u = Columns s \<and> t = u\<lparr>Buffer := take (nat l) (Buffer u)\<rparr> \<and>
         defaultCell u = defaultCell s \<and> Lines u = Lines s \<and>
         (\<forall>y x. inside l (Columns s) y x \<longrightarrow> y + d < Lines s \<longrightarrow> cell_at (Buffer u) y x = cell_at (Buffer s) (y + d) x))
       (if l < Lines s1 then do {
               s \<leftarrow> DeleteLines [Lines s1 - l] (CursorPosition [0, 0] (SaveCursor s1));
               s \<leftarrow> RestoreCursor s;
               b \<leftarrow> slice (Buffer s) 0 l;
               Some (s\<lparr>Buffer := b\<rparr>) }
             else Some s1)"
    proof (cases "l < Lines s1")
      case True
      with m1 have "0 < l" by simp
      from shrink_cells [OF 1(1,4,5) this True] show ?thesis
        unfolding if_P [OF True] by (rule returns_mono) (use True d 1 in \<open>auto simp: max_def\<close>)
    next
      case False
      have "length (Buffer s1) \<le> nat l"
        using grid_ok_length [OF wf_grid [OF 1(1)]] False by simp
      then have "s1 = s1\<lparr>Buffer := take (nat l) (Buffer s1)\<rparr>" by simp
      moreover have "d = 0" using False d 1 by simp
      ultimately show ?thesis using False 1 by auto
    qed
    have "returns (\<lambda>t. wf_screen t \<and> Lines t = l \<and> Columns t = c \<and> (\<forall>y x. inside l c y x \<longrightarrow>
      cell_at (Buffer t) y x =
        (if y + d < Lines s \<and> x < Columns s then cell_at (Buffer s) (y + d) x else defaultCell s)))
       ((if l < Lines s1 then do {
               s \<leftarrow> DeleteLines [Lines s1 - l] (CursorPosition [0, 0] (SaveCursor s1));
               s \<leftarrow> RestoreCursor s;
               b \<leftarrow> slice (Buffer s) 0 l;
               Some (s\<lparr>Buffer := b\<rparr>) }
             else Some s1) \<bind> resized l c)"
    proof (rule returns_bind [OF step], elim exE conjE)
      fix t u
      assume u: "wf_screen u" "t = u\<lparr>Buffer := take (nat l) (Buffer u)\<rparr>" "Columns u = Columns s"
        "defaultCell u = defaultCell s" "Lines u = Lines s"
        "\<forall>y x. inside l (Columns s) y x \<longrightarrow> y + d < Lines s \<longrightarrow> cell_at (Buffer u) y x = cell_at (Buffer s) (y + d) x"
      have "(y < Lines s) = (y + d < Lines s)" if "inside l c y x" for y x
        using that d by (auto simp: inside_def max_def)
      with u(3-6) show "returns (\<lambda>t. wf_screen t \<and> Lines t = l \<and> Columns t = c \<and> (\<forall>y x. inside l c y x \<longrightarrow>
          cell_at (Buffer t) y x =
          (if y + d < Lines s \<and> x < Columns s then cell_at (Buffer s) (y + d) x else defaultCell s)))
        (resized l c t)"
        by (intro returns_mono [OF resized_cells [OF u(1) m1(3,4) u(2)]]) (auto simp: inside_def)
    qed
    then show ?thesis
      unfolding Resize_def Let_def m1 s1_def [symmetric] resized_def [abs_def] using False
      by (simp only: ne if_False simp_thms l [symmetric] c [symmetric])
  qed
qed

end
