(* ===== verification/TeAlt.thy ===== *)
theory TeAlt
  imports TeModes
begin

text \<open>
  The alternate screen (DECSET 1049): what \<open>enterAltScreen\<close> hides and what \<open>exitAltScreen\<close>
  brings back; and where a restored cursor is put.
\<close>

text \<open>The fields the alternate screen hides from the program.\<close>

definition same_hidden :: "Screen \<Rightarrow> Screen \<Rightarrow> bool" where
  "same_hidden s t \<longleftrightarrow> Lines t = Lines s \<and> Columns t = Columns s \<and> altBuffer t = altBuffer s \<and>
     altSavepoints t = altSavepoints s \<and> altLineWrapped t = altLineWrapped s \<and>
     altWrapNext t = altWrapNext s \<and> altActive t = altActive s \<and> altSavedCursor t = altSavedCursor s"

lemma applySetMode_alt:
  "applySetMode 1049 True s = Some (enterAltScreen True True True (s\<lparr>Mode := insert ModeAltBufCursor (Mode s)\<rparr>))"
  by (simp add: applySetMode_def applySetMode_body_def Let_def)

lemma applyResetMode_alt:
  "applyResetMode 1049 True s = Some (exitAltScreen True True (s\<lparr>Mode := Mode s - {ModeAltBufCursor}\<rparr>))"
  by (simp add: applyResetMode_def applyResetMode_body_def Let_def)

lemma enterAltScreen_hidden:
  assumes "\<not> altActive s"
  shows "altActive (enterAltScreen cl True mv s)" "altBuffer (enterAltScreen cl True mv s) = Buffer s"
    "altSavepoints (enterAltScreen cl True mv s) = Savepoints s"
    "altLineWrapped (enterAltScreen cl True mv s) = lineWrapped s"
    "altWrapNext (enterAltScreen cl True mv s) = wrapNext s"
    "altSavedCursor (enterAltScreen cl True mv s) = Some (Cursor s)"
    "Lines (enterAltScreen cl True mv s) = Lines s" "Columns (enterAltScreen cl True mv s) = Columns s"
proof -
  have *: "altActive (CursorPosition ps t) = altActive t \<and> altBuffer (CursorPosition ps t) = altBuffer t \<and>
    altSavepoints (CursorPosition ps t) = altSavepoints t \<and> altLineWrapped (CursorPosition ps t) = altLineWrapped t \<and>
    altWrapNext (CursorPosition ps t) = altWrapNext t \<and> altSavedCursor (CursorPosition ps t) = altSavedCursor t \<and>
    Lines (CursorPosition ps t) = Lines t \<and> Columns (CursorPosition ps t) = Columns t" for ps t
  proof -
    obtain c w where e: "CursorPosition ps t = t\<lparr>Cursor := c, wrapNext := w\<rparr>" using CursorPosition_shape by blast
    show ?thesis unfolding e by simp
  qed
  show "altActive (enterAltScreen cl True mv s)" "altBuffer (enterAltScreen cl True mv s) = Buffer s"
    "altSavepoints (enterAltScreen cl True mv s) = Savepoints s"
    "altLineWrapped (enterAltScreen cl True mv s) = lineWrapped s"
    "altWrapNext (enterAltScreen cl True mv s) = wrapNext s"
    "altSavedCursor (enterAltScreen cl True mv s) = Some (Cursor s)"
    "Lines (enterAltScreen cl True mv s) = Lines s" "Columns (enterAltScreen cl True mv s) = Columns s"
    using assms * by (simp_all add: enterAltScreen_def Let_def)
qed

lemma exitAltScreen_restores:
  assumes "altActive s" "altSavedCursor s = Some c" "Row c < Lines s"
  shows "Buffer (exitAltScreen cl True s) = altBuffer s" "Savepoints (exitAltScreen cl True s) = altSavepoints s"
    "lineWrapped (exitAltScreen cl True s) = altLineWrapped s" "wrapNext (exitAltScreen cl True s) = altWrapNext s"
    "Cursor (exitAltScreen cl True s) = c\<lparr>Col := min (Col c) (Columns s - 1)\<rparr>" "\<not> altActive (exitAltScreen cl True s)"
  using assms by (simp_all add: exitAltScreen_def atCol_def Let_def min_def)

text \<open>A restored cursor is kept on the screen and between the top and bottom margins.\<close>

lemma at_own_place [simp]: "atCol (col v) v = v" "atRow (row v) v = v"
  by (simp_all add: atCol_def atRow_def)

lemma ensureHB_restored:
  assumes "0 \<le> col v" "1 \<le> Columns v" "ModeDECLRMM \<in> Mode v \<Longrightarrow> leftMargin v \<le> rightMargin v \<and> rightMargin v < Columns v"
  shows "ensureHB v = atCol (min (col v) (Columns v - 1)) v"
proof -
  have "min (col v) (Columns v - 1) = col v" if "col v < Columns v" using that by simp
  then show ?thesis
    using assms by (auto simp: ensureHB_def horizontalMargins_def isModeSet_def min_def max_def)
qed

lemma ensureVB_restored:
  assumes "0 \<le> row v" "row v < Lines v"
  shows "ensureVB True v = atRow (case Margins v of None \<Rightarrow> row v | Some m \<Rightarrow> min (Bottom m) (max (Top m) (row v))) v"
  using assms by (auto simp: ensureVB_def min_def max_def atRow_def Let_def split: option.split)

lemma ensured_cursor:
  assumes "row v < Lines v" "0 \<le> row v" "0 \<le> col v" "1 \<le> Columns v"
    "ModeDECLRMM \<in> Mode v \<Longrightarrow> leftMargin v \<le> rightMargin v \<and> rightMargin v < Columns v"
  shows "ensureVB True (ensureHB v) = v\<lparr>Cursor := (Cursor v)\<lparr>
      Row := (case Margins v of None \<Rightarrow> row v | Some m \<Rightarrow> min (Bottom m) (max (Top m) (row v))),
      Col := min (col v) (Columns v - 1)\<rparr>\<rparr>"
proof -
  define w where "w = atCol (min (col v) (Columns v - 1)) v"
  have "row w = row v" "Lines w = Lines v" "Margins w = Margins v" by (simp_all add: w_def atCol_def)
  moreover have "ensureHB v = w" using ensureHB_restored [OF assms(3-5)] by (simp add: w_def)
  ultimately have "ensureVB True (ensureHB v) =
      atRow (case Margins v of None \<Rightarrow> row v | Some m \<Rightarrow> min (Bottom m) (max (Top m) (row v))) w"
    using ensureVB_restored [of w] assms(1,2) by (simp cong: option.case_cong)
  moreover have "c\<lparr>Col := a, Row := b\<rparr> = c\<lparr>Row := b, Col := a\<rparr>" for c a b by (cases c) simp
  ultimately show ?thesis by (simp add: w_def atRow_def atCol_def)
qed

end
