(* ===== verification/TeStream.thy ===== *)
theory TeStream
  imports TeEvent
begin

text \<open>
  The parser \<open>pkg/te/stream.go\<close>: the state \<open>Stream\<close>, one definition per handler, and
  \<open>FeedBytes\<close> with its recovery from a panic of the listener. The listener is a parameter: the
  record \<open>listener\<close> holds its event handler and which of the optional interfaces it has.
  \<open>escapeOverrides\<close> is nil everywhere in the program and has no field here.
\<close>

section \<open>Listeners\<close>

text \<open>
  A call of a listener method returns (\<open>Done\<close>) or panics (\<open>Panicked\<close>); either way it leaves a
  state behind. \<open>modeQuery\<close> is the optional method \<open>isModeSet\<close>.
\<close>

datatype 'a outcome = Done 'a | Panicked 'a

record 's listener =
  deliver :: "event \<Rightarrow> 's \<Rightarrow> 's outcome"
  selective :: bool
  styles :: bool
  statusLine :: bool
  modeQuery :: "(int \<Rightarrow> 's \<Rightarrow> bool) option"

fun run :: "('a \<Rightarrow> 'a outcome) list \<Rightarrow> 'a \<Rightarrow> 'a outcome" where
  "run [] x = Done x"
| "run (f # fs) x = (case f x of Done y \<Rightarrow> run fs y | Panicked y \<Rightarrow> Panicked y)"

section \<open>Parser state\<close>

datatype parserState =
    stateGround | stateEscape | stateCSI | stateSharp | stateOSC | stateDCS | stateAPC | statePM
  | stateSOS | stateCharset | stateEscapePercent | stateEscapeSpace

record Stream =
  stAttached :: bool
  stStrict :: bool
  useUTF8 :: bool
  use8BitControls :: bool
  pstate :: parserState
  stParams :: "int list"
  stCurrent :: string
  stPrivate :: bool
  csiPrefix :: rune
  csiIntermediate :: rune
  pendingQuote :: bool
  takingText :: bool
  oscEsc :: bool
  strBuf :: string
  paramStrings :: "string list"
  pendingBytes :: bytes

type_synonym 's parser = "Stream \<times> 's"

definition emit :: "'s listener \<Rightarrow> event \<Rightarrow> 's parser \<Rightarrow> 's parser outcome" where
  "emit L e x = (case deliver L e (snd x) of
      Done t \<Rightarrow> Done (fst x, t) | Panicked t \<Rightarrow> Panicked (fst x, t))"

definition update :: "(Stream \<Rightarrow> Stream) \<Rightarrow> 's parser \<Rightarrow> 's parser outcome" where
  "update f x = Done (f (fst x), snd x)"

abbreviation ground :: "Stream \<Rightarrow> Stream" where
  "ground st \<equiv> st\<lparr>pstate := stateGround\<rparr>"

abbreviation ru :: "char \<Rightarrow> rune" where
  "ru c \<equiv> byte c"

definition maxStringPayload :: int where
  "maxStringPayload = 2 ^ 19"

definition appendStringPayload :: "rune \<Rightarrow> Stream \<Rightarrow> Stream" where
  "appendStringPayload ch st =
    (if len (strBuf st) < maxStringPayload then st\<lparr>strBuf := strBuf st @ encode_rune ch\<rparr> else st)"

definition zeroStream :: Stream where
  "zeroStream = \<lparr>stAttached = False, stStrict = False, useUTF8 = False, use8BitControls = False,
     pstate = stateGround, stParams = [], stCurrent = [], stPrivate = False, csiPrefix = 0,
     csiIntermediate = 0, pendingQuote = False, takingText = False, oscEsc = False, strBuf = [],
     paramStrings = [], pendingBytes = []\<rparr>"

definition Attach :: "Stream \<Rightarrow> Stream" where
  "Attach st = st\<lparr>stAttached := True, pstate := stateGround, stParams := [], stCurrent := [],
     stPrivate := False, csiPrefix := 0, csiIntermediate := 0, pendingQuote := False, strBuf := [],
     takingText := False, oscEsc := False, use8BitControls := False, pendingBytes := [],
     paramStrings := []\<rparr>"

definition NewStream :: "bool \<Rightarrow> bool \<Rightarrow> Stream" where
  "NewStream hasScreen strict =
    (let st = zeroStream\<lparr>stStrict := strict, useUTF8 := True\<rparr>
     in if hasScreen then Attach st else st)"

text \<open>\<open>same\<close> tells whether the argument is the listener attached.\<close>

definition Detach :: "bool \<Rightarrow> Stream \<Rightarrow> Stream" where
  "Detach same st = (if same then st\<lparr>stAttached := False\<rparr> else st)"

definition resetCSI :: "Stream \<Rightarrow> Stream" where
  "resetCSI st = st\<lparr>stParams := [], paramStrings := [], stCurrent := [], stPrivate := False,
     csiPrefix := 0, csiIntermediate := 0, pendingQuote := False\<rparr>"

definition abortSequence :: "Stream \<Rightarrow> Stream" where
  "abortSequence st = (resetCSI (ground st))\<lparr>oscEsc := False, strBuf := []\<rparr>"

section \<open>Parameters\<close>

fun paramValue :: "int \<Rightarrow> string \<Rightarrow> int" where
  "paramValue value [] = value"
| "paramValue value (c # cs) =
     (if c = CHR '':'' then value
      else (let v = value * 10 + (byte c - 48) in if v > 9999 then 9999 else paramValue v cs))"

definition appendParam :: "Stream \<Rightarrow> Stream" where
  "appendParam st = st\<lparr>stParams := stParams st @ [paramValue 0 (stCurrent st)],
     paramStrings := paramStrings st @ [stCurrent st], stCurrent := []\<rparr>"

fun atoiLoop :: "int \<Rightarrow> rune list \<Rightarrow> int" where
  "atoiLoop value [] = value"
| "atoiLoop value (r # rs) =
     (if r < ru (CHR ''0'') \<or> r > ru (CHR ''9'') then atoiLoop value rs
      else (let v = value * 10 + (r - ru (CHR ''0'')) in if v > 9999 then 9999 else atoiLoop v rs))"

definition atoiClamp :: "string \<Rightarrow> int" where
  "atoiClamp s = atoiLoop 0 (runes s)"

definition defaultParam :: "int list \<Rightarrow> nat \<Rightarrow> int \<Rightarrow> int" where
  "defaultParam params index fallback =
    (if index < length params then (if params ! index = 0 then fallback else params ! index)
     else fallback)"

text \<open>One parameter with colons, in \<open>expandSGRParams\<close>.\<close>

definition expandColon :: "int \<Rightarrow> string list \<Rightarrow> int list" where
  "expandColon lead parts =
    (if lead = 38 \<or> lead = 48 \<or> lead = 58 then
       (let kind = (if length parts \<ge> 2 then atoiClamp (parts ! 1) else 0) in
        if kind = 2 then
          (let tail = drop 2 parts; n = length tail in
           if n \<ge> 3 then [lead, 2, atoiClamp (tail ! (n - 3)), atoiClamp (tail ! (n - 2)),
                         atoiClamp (tail ! (n - 1))]
           else [lead])
        else if kind = 5 then (if length parts \<ge> 3 then [lead, 5, atoiClamp (parts ! 2)] else [lead])
        else [lead])
     else if lead = 4 then
       (let style = (if length parts \<ge> 2 then atoiClamp (parts ! 1) else 1)
        in [sgrUnderlineStyleBase + (if style > 5 then 5 else style)])
     else [lead])"

definition expandSGRParams :: "Stream \<Rightarrow> int list \<Rightarrow> int list" where
  "expandSGRParams st params =
    (if \<not> (\<exists>s \<in> set (paramStrings st). CHR '':'' \<in> set s) \<or> length (paramStrings st) \<noteq> length params
     then params
     else concat (map (\<lambda>(s, p). if CHR '':'' \<in> set s then expandColon p (split_at (CHR '':'') s) else [p])
            (zip (paramStrings st) params)))"

section \<open>Control sequences\<close>

text \<open>
  What \<open>dispatchCSI\<close> delivers: at most one event. \<open>prefix_ignored\<close> is the gate on the private
  prefixes, \<open>csiSimple\<close> the cases of the switch, and \<open>csiExtended\<close> its default branch.
\<close>

definition prefix_ignored :: "rune \<Rightarrow> rune \<Rightarrow> bool" where
  "prefix_ignored prefix final \<longleftrightarrow>
    prefix = ru (CHR ''<'') \<or> prefix = ru (CHR ''='') \<or>
    prefix = ru (CHR ''>'') \<and> final \<notin> {ru (CHR ''c''), ru (CHR ''t''), ru (CHR ''T''), ru (CHR ''q'')}"

text \<open>Finals whose event takes the parameter list as it is.\<close>

definition csiListed :: "rune \<Rightarrow> int list \<Rightarrow> event option" where
  "csiListed final params =
    (if final = ru (CHR ''@'') then Some (Edit (EvInsertCharacters params))
     else if final = ru (CHR ''A'') then Some (Motion (EvCursorUp params))
     else if final = ru (CHR ''B'') then Some (Motion (EvCursorDown params))
     else if final = ru (CHR ''C'') then Some (Motion (EvCursorForward params))
     else if final = ru (CHR ''D'') then Some (Motion (EvCursorBack params))
     else if final = ru (CHR ''E'') then Some (Motion (EvCursorDown1 params))
     else if final = ru (CHR ''F'') then Some (Motion (EvCursorUp1 params))
     else if final = ru (CHR ''G'') then Some (Motion (EvCursorToColumn params))
     else if final = ru (CHR ''H'') \<or> final = ru (CHR ''f'') then Some (Motion (EvCursorPosition params))
     else if final = ru (CHR ''L'') then Some (Edit (EvInsertLines params))
     else if final = ru (CHR ''M'') then Some (Edit (EvDeleteLines params))
     else if final = ru (CHR ''P'') then Some (Edit (EvDeleteCharacters params))
     else if final = ru (CHR ''X'') then Some (Edit (EvEraseCharacters params))
     else if final = ru (CHR ''I'') then Some (Motion (EvCursorForwardTab params))
     else if final = ru (CHR ''Z'') then
       (if length params \<le> 1 then Some (Motion (EvCursorBackTab params))
        else Some (Setting (EvDebug (map show_int params))))
     else if final = ru (CHR ''S'') then Some (Edit (EvScrollUp params))
     else if final = ru (CHR ''T'') then Some (Edit (EvScrollDown params))
     else if final = ru (CHR ''b'') then Some (Edit (EvRepeatLast params))
     else if final = ru (CHR ''a'') then Some (Motion (EvCursorForward params))
     else if final = ru (CHR ''`'') then Some (Motion (EvCursorToColumnAbsolute params))
     else if final = ru (CHR ''d'') then Some (Motion (EvCursorToLine params))
     else if final = ru (CHR ''e'') then Some (Motion (EvCursorDown params))
     else if final = ru (CHR ''g'') then Some (Motion (EvClearTabStop params))
     else if final = ru (CHR 0x27) then Some (Motion (EvCursorToColumnAbsolute params))
     else None)"

text \<open>The default branch: finals selected by a prefix or an intermediate.\<close>

definition csiExtended :: "'s listener \<Rightarrow> Stream \<Rightarrow> rune \<Rightarrow> int list \<Rightarrow> event option" where
  "csiExtended L st final params =
    (let prefix = csiPrefix st; inter = csiIntermediate st; p = (\<lambda>i. defaultParam params i 0);
         gt = ru (CHR ''>''); dollar = ru (CHR ''$'') in
     if prefix = gt \<and> final = ru (CHR ''t'') then Some (Report (EvSetTitleMode params False))
     else if prefix = gt \<and> final = ru (CHR ''T'') then Some (Report (EvSetTitleMode params True))
     else if prefix = gt \<and> final = ru (CHR ''q'') then Some (Report EvReportTerminalVersion)
     else if inter = ru (CHR 0x22) \<and> final = ru (CHR ''p'') then Some (Setting (EvSetConformance (p 0) (p 1)))
     else if inter = ru (CHR 0x22) \<and> final = ru (CHR ''q'') then Some (Setting (EvSetCharacterProtection (p 0)))
     else if inter = ru (CHR '' '') \<and> final = ru (CHR ''q'') then
       (if styles L then Some (Setting (EvSetCursorStyle (p 0))) else None)
     else if final = ru (CHR ''t'') then Some (Report (EvWindowOp params))
     else if inter = dollar \<and> final = ru (CHR ''p'') then Some (Report (EvReportMode (p 0) (stPrivate st)))
     else if inter = ru (CHR ''!'') \<and> final = ru (CHR ''p'') then Some (Setting EvSoftReset)
     else if inter = ru (CHR 0x27) \<and> final = ru (CHR ''}'') then Some (Edit (EvInsertColumns (defaultParam params 0 1)))
     else if inter = ru (CHR 0x27) \<and> final = ru (CHR ''~'') then Some (Edit (EvDeleteColumns (defaultParam params 0 1)))
     else if inter = dollar \<and> final = ru (CHR ''}'') then
       (if statusLine L then Some (Setting (EvSetActiveStatusDisplay (p 0))) else None)
     else if inter = dollar \<and> final = ru (CHR ''z'') then Some (Edit (EvEraseRectangle (p 0) (p 1) (p 2) (p 3)))
     else if inter = dollar \<and> final = ru (CHR ''{'') then
       Some (Edit (EvSelectiveEraseRectangle (p 0) (p 1) (p 2) (p 3)))
     else if inter = dollar \<and> final = ru (CHR ''x'') then
       Some (Edit (EvFillRectangle (p 0) (p 1) (p 2) (p 3) (p 4)))
     else if inter = dollar \<and> final = ru (CHR ''v'') then
       Some (Edit (EvCopyRectangle (p 0) (p 1) (p 2) (p 3) (p 5) (p 6)))
     else if inter = dollar \<and> final = ru (CHR ''y'') then Some (Report (EvReportMode (p 0) (stPrivate st)))
     else Some (Setting (EvDebug (map show_int params))))"

definition csiEvent :: "'s listener \<Rightarrow> Stream \<Rightarrow> 's \<Rightarrow> rune \<Rightarrow> int list \<Rightarrow> event option" where
  "csiEvent L st s final params =
    (let prv = stPrivate st; p = (\<lambda>i. defaultParam params i 0); rest = drop 1 params in
     if prefix_ignored (csiPrefix st) final then None
     else if csiListed final params \<noteq> None then csiListed final params
     else if final = ru (CHR ''J'') then
       (if p 0 = 3 \<and> \<not> prv then None
        else if prv \<and> selective L then Some (Edit (EvEraseInDisplaySelective (p 0)))
        else Some (Edit (EvEraseInDisplay (p 0) prv rest)))
     else if final = ru (CHR ''K'') then Some (Edit (EvEraseInLine (p 0) prv rest))
     else if final = ru (CHR ''c'') then Some (Report (EvReportDeviceAttributes (p 0) prv (csiPrefix st) rest))
     else if final = ru (CHR ''h'') then Some (Setting (EvSetMode params prv))
     else if final = ru (CHR ''l'') then Some (Setting (EvResetMode params prv))
     else if final = ru (CHR ''m'') then
       Some (Setting (EvSelectGraphicRendition (expandSGRParams st params) prv))
     else if final = ru (CHR ''n'') then Some (Report (EvReportDeviceStatus (p 0) prv (csiPrefix st) rest))
     else if final = ru (CHR ''r'') then
       (if prv then Some (Setting (EvRestoreModes params)) else Some (Motion (EvSetMargins params)))
     else if final = ru (CHR ''s'') then
       (if prv then Some (Setting (EvSaveModes params))
        else if length params \<ge> 2 then Some (Motion (EvSetLeftRightMargins (p 0) (p 1)))
        else (case modeQuery L of
                Some q \<Rightarrow> if q ModeDECLRMM s then None else Some (Motion EvSaveCursorDEC)
              | None \<Rightarrow> Some (Motion EvSaveCursorDEC)))
     else if final = ru (CHR ''u'') then Some (Motion EvRestoreCursorDEC)
     else csiExtended L st final params)"

definition dispatchCSI :: "'s listener \<Rightarrow> rune \<Rightarrow> int list \<Rightarrow> 's parser \<Rightarrow> 's parser outcome" where
  "dispatchCSI L final params x =
    (case csiEvent L (fst x) (snd x) final params of None \<Rightarrow> Done x | Some e \<Rightarrow> emit L e x)"

section \<open>Ground and escape\<close>

definition utf8SafeCharset :: "rune \<Rightarrow> bool" where
  "utf8SafeCharset ch \<longleftrightarrow> ch \<in> {ru (CHR ''0''), ru (CHR ''B''), ru (CHR ''A'')}"

definition SelectOtherCharset :: "string \<Rightarrow> Stream \<Rightarrow> Stream" where
  "SelectOtherCharset code st =
    (if code = ''@'' then st\<lparr>useUTF8 := False\<rparr>
     else if code = ''G'' \<or> code = ''8'' then st\<lparr>useUTF8 := True\<rparr> else st)"

definition isControlInCSI :: "rune \<Rightarrow> bool" where
  "isControlInCSI ch \<longleftrightarrow> ch \<in> {0x07, 0x08, 0x09, 0x0A, 0x0B, 0x0C, 0x0D}"

definition isPlainText :: "rune \<Rightarrow> bool" where
  "isPlainText ch \<longleftrightarrow>
    ch \<noteq> RuneError \<and> ch \<notin> {0x1B, 0x9B, 0x9D, 0x00, 0x7F} \<and>
    ch \<notin> {0x07, 0x08, 0x09, 0x0A, 0x0B, 0x0C, 0x0D, 0x0E, 0x0F, 0x84, 0x85, 0x88, 0x8D, 0x90, 0x96,
          0x97, 0x98, 0x9A, 0x9E, 0x9F}"

definition dispatchControl :: "'s listener \<Rightarrow> rune \<Rightarrow> 's parser \<Rightarrow> 's parser outcome" where
  "dispatchControl L ch =
    (if ch = 0x07 then emit L (Setting EvBell)
     else if ch = 0x08 then emit L (Motion EvBackspace)
     else if ch = 0x09 then emit L (Motion EvTab)
     else if ch \<in> {0x0A, 0x0B, 0x0C} then emit L (Motion EvLineFeed)
     else if ch = 0x0D then emit L (Motion EvCarriageReturn)
     else Done)"

definition enterString :: "parserState \<Rightarrow> Stream \<Rightarrow> Stream" where
  "enterString k st = st\<lparr>pstate := k, strBuf := [], oscEsc := False\<rparr>"

definition handleGround :: "'s listener \<Rightarrow> rune \<Rightarrow> 's parser \<Rightarrow> 's parser outcome" where
  "handleGround L ch =
    (if ch = 0x07 then emit L (Setting EvBell)
     else if ch = 0x08 then emit L (Motion EvBackspace)
     else if ch = 0x09 then emit L (Motion EvTab)
     else if ch \<in> {0x0A, 0x0B, 0x0C} then emit L (Motion EvLineFeed)
     else if ch = 0x0D then emit L (Motion EvCarriageReturn)
     else if ch = 0x0E then emit L (Setting EvShiftOut)
     else if ch = 0x0F then emit L (Setting EvShiftIn)
     else if ch = 0x1B then update (\<lambda>st. st\<lparr>pstate := stateEscape\<rparr>)
     else if ch = 0x84 then emit L (Motion EvIndex)
     else if ch = 0x85 then run [emit L (Motion EvLineFeed), emit L (Motion EvCarriageReturn)]
     else if ch = 0x88 then emit L (Motion EvSetTabStop)
     else if ch = 0x96 then emit L (Setting EvStartProtectedArea)
     else if ch = 0x97 then emit L (Setting EvEndProtectedArea)
     else if ch = 0x8D then emit L (Motion EvReverseIndex)
     else if ch = 0x90 then update (enterString stateDCS)
     else if ch = 0x9A then emit L (Report (EvReportDeviceAttributes 0 True (ru (CHR ''?'')) []))
     else if ch = 0x98 then update (\<lambda>st. st\<lparr>pstate := stateSOS\<rparr>)
     else if ch = 0x9B then update (\<lambda>st. resetCSI (st\<lparr>pstate := stateCSI\<rparr>))
     else if ch = 0x9D then update (enterString stateOSC)
     else if ch = 0x9E then update (\<lambda>st. st\<lparr>pstate := statePM\<rparr>)
     else if ch = 0x9F then update (\<lambda>st. st\<lparr>pstate := stateAPC\<rparr>)
     else if ch = 0x00 \<or> ch = 0x7F then Done
     else emit L (Edit (EvDraw (encode_rune ch))))"

text \<open>The part of \<open>handleEscape\<close> that changes the parser state, and the events of the rest.\<close>

definition escapeState :: "rune \<Rightarrow> Stream \<Rightarrow> Stream" where
  "escapeState ch st0 =
    (let st = ground st0 in
     if ch = ru (CHR ''['') then resetCSI (st\<lparr>pstate := stateCSI\<rparr>)
     else if ch = ru (CHR '']'') then enterString stateOSC st
     else if ch = ru (CHR ''P'') then enterString stateDCS st
     else if ch = ru (CHR ''_'') then st\<lparr>pstate := stateAPC, oscEsc := False\<rparr>
     else if ch = ru (CHR ''^'') then st\<lparr>pstate := statePM, oscEsc := False\<rparr>
     else if ch = ru (CHR ''X'') then st\<lparr>pstate := stateSOS, oscEsc := False\<rparr>
     else if ch = ru (CHR ''#'') then st\<lparr>pstate := stateSharp\<rparr>
     else if ch = ru (CHR '' '') then st\<lparr>pstate := stateEscapeSpace\<rparr>
     else if ch = ru (CHR ''%'') then st\<lparr>stCurrent := [], pstate := stateEscapePercent\<rparr>
     else if ch = ru (CHR ''('') \<or> ch = ru (CHR '')'') then
       st\<lparr>stCurrent := encode_rune ch, pstate := stateCharset\<rparr>
     else st)"

definition escapeEvents :: "rune \<Rightarrow> event list" where
  "escapeEvents ch =
    (if ch = ru (CHR ''c'') then [Setting EvReset]
     else if ch = ru (CHR ''D'') then [Motion EvIndex]
     else if ch = ru (CHR ''E'') then [Motion EvLineFeed, Motion EvCarriageReturn]
     else if ch = ru (CHR ''M'') then [Motion EvReverseIndex]
     else if ch = ru (CHR ''H'') then [Motion EvSetTabStop]
     else if ch = ru (CHR ''V'') then [Setting EvStartProtectedArea]
     else if ch = ru (CHR ''W'') then [Setting EvEndProtectedArea]
     else if ch = ru (CHR ''7'') then [Motion EvSaveCursorDEC]
     else if ch = ru (CHR ''8'') then [Motion EvRestoreCursorDEC]
     else if ch = ru (CHR ''6'') then [Motion EvBackIndex]
     else if ch = ru (CHR ''9'') then [Motion EvForwardIndex]
     else if ch = ru (CHR ''Z'') then [Report (EvReportDeviceAttributes 0 True (ru (CHR ''?'')) [])]
     else [])"

definition handleEscape :: "'s listener \<Rightarrow> rune \<Rightarrow> 's parser \<Rightarrow> 's parser outcome" where
  "handleEscape L ch = run (update (escapeState ch) # map (emit L) (escapeEvents ch))"

section \<open>The CSI state\<close>

definition isHPAIntroducer :: "rune \<Rightarrow> bool" where
  "isHPAIntroducer ch \<longleftrightarrow> ch = ru (CHR ''}'') \<or> ch = ru (CHR ''~'')"

text \<open>The branches of \<open>handleCSI\<close> that only record a byte; \<open>None\<close> when it is not one of them.\<close>

definition csiCollect :: "rune \<Rightarrow> Stream \<Rightarrow> Stream option" where
  "csiCollect ch st =
    (if ch = ru (CHR ''?'') then Some (st\<lparr>stPrivate := True, csiPrefix := ch\<rparr>)
     else if ch \<in> {ru (CHR ''<''), ru (CHR ''=''), ru (CHR ''>'')} then Some (st\<lparr>csiPrefix := ch\<rparr>)
     else if ch = ru (CHR 0x27) then
       Some ((appendParam st)\<lparr>csiIntermediate := ch, pendingQuote := True\<rparr>)
     else if ru (CHR '' '') \<le> ch \<and> ch \<le> ru (CHR ''/'') then Some (st\<lparr>csiIntermediate := ch\<rparr>)
     else if ru (CHR ''0'') \<le> ch \<and> ch \<le> ru (CHR ''9'') \<or> ch = ru (CHR '':'') then
       Some (st\<lparr>stCurrent := stCurrent st @ encode_rune ch\<rparr>)
     else if ch = ru (CHR '';'') then Some (appendParam st)
     else None)"

definition handleCSI :: "'s listener \<Rightarrow> rune \<Rightarrow> 's parser \<Rightarrow> 's parser outcome" where
  "handleCSI L ch x =
    (let st = fst x in
     if pendingQuote st then
       (let x = (ground (st\<lparr>pendingQuote := False\<rparr>), snd x) in
        if isHPAIntroducer ch
        then run [dispatchCSI L ch (stParams st), update resetCSI] x
        else run [dispatchCSI L (ru (CHR 0x27)) (stParams st), update resetCSI, handleGround L ch] x)
     else if ch = 0x1B then Done ((resetCSI st)\<lparr>pstate := stateEscape\<rparr>, snd x)
     else (case csiCollect ch st of
             Some st' \<Rightarrow> Done (st', snd x)
           | None \<Rightarrow>
               if isControlInCSI ch then dispatchControl L ch x
               else (let st' = appendParam st in
                     dispatchCSI L ch (stParams st') (ground st', snd x))))"

section \<open>Control strings\<close>

text \<open>The pairs \<open>index;spec\<close> of OSC 4 and OSC 5.\<close>

fun colorPairs :: "(int \<Rightarrow> report) \<Rightarrow> (int \<Rightarrow> string \<Rightarrow> report) \<Rightarrow> string list \<Rightarrow> event list" where
  "colorPairs query assign (i # spec # rest) =
     (case Atoi i of
        None \<Rightarrow> []
      | Some k \<Rightarrow> [Report (if spec = ''?'' then query k else assign k spec)])
     @ colorPairs query assign rest"
| "colorPairs query assign _ = []"

text \<open>OSC 52.\<close>

definition selectionEvents :: "string list \<Rightarrow> event list" where
  "selectionEvents chunks =
    (let selection = (if length chunks > 1 \<and> chunks ! 1 \<noteq> [] \<and> chunks ! 1 \<noteq> ''?'' then chunks ! 1 else ''s0'') in
     if length chunks = 2 \<and> chunks ! 1 = ''?'' then [Report (EvQuerySelectionData selection)]
     else if length chunks > 2 then
       [Report (if chunks ! 2 = ''?'' then EvQuerySelectionData selection
                else EvSetSelectionData selection (chunks ! 2))]
     else [])"

text \<open>OSC 10 and 11.\<close>

definition dynamicEvents :: "bool \<Rightarrow> int \<Rightarrow> string list \<Rightarrow> event list" where
  "dynamicEvents ten k chunks =
    (if length chunks > 1 then
       (if chunks ! 1 = ''?'' then
          Report (EvQueryDynamicColor k) #
          (if ten \<and> length chunks > 2 \<and> chunks ! 2 = ''?'' then [Report (EvQueryDynamicColor 11)] else [])
        else
          Report (EvSetDynamicColor k (chunks ! 1)) #
          (if ten \<and> length chunks > 2 then [Report (EvSetDynamicColor 11 (chunks ! 2))] else []))
     else [])"

definition resetColorEvents :: "string list \<Rightarrow> event list" where
  "resetColorEvents chunks =
    (if length chunks = 1 \<or> chunks ! 1 = [] then [Report (EvResetColor 0 True)]
     else (case Atoi (chunks ! 1) of Some k \<Rightarrow> [Report (EvResetColor k False)] | None \<Rightarrow> []))"

definition resetSpecialEvents :: "string list \<Rightarrow> event list" where
  "resetSpecialEvents chunks =
    (if length chunks = 1 \<or> chunks ! 1 = [] then [Report (EvResetSpecialColor 0 True)]
     else concat (map (\<lambda>c. if c = [] then []
                           else (case Atoi c of Some k \<Rightarrow> [Report (EvResetSpecialColor k False)] | None \<Rightarrow> []))
                  (drop 1 chunks)))"

definition oscEvents :: "string \<Rightarrow> event list" where
  "oscEvents payload =
    (let chunks = split_at (CHR '';'') payload; option = hd chunks; rest = join_with '';'' (tl chunks) in
     if option = ''0'' then [Report (EvSetIconName rest), Report (EvSetTitle rest)]
     else if option = ''1'' then [Report (EvSetIconName rest)]
     else if option = ''2'' then [Report (EvSetTitle rest)]
     else if option = ''52'' then selectionEvents chunks
     else if option = ''4'' then colorPairs EvQueryColor EvSetColor (tl chunks)
     else if option = ''104'' then resetColorEvents chunks
     else if option = ''10'' then dynamicEvents True 10 chunks
     else if option = ''11'' then dynamicEvents False 11 chunks
     else if option \<in> {''110'', ''111'', ''112'', ''113'', ''114'', ''115'', ''116'', ''117'', ''118'', ''119''}
       then (case Atoi option of Some k \<Rightarrow> [Report (EvResetDynamicColor (k - 100) False)] | None \<Rightarrow> [])
     else if option = ''5'' then colorPairs EvQuerySpecialColor EvSetSpecialColor (tl chunks)
     else if option = ''105'' then resetSpecialEvents chunks
     else [])"

text \<open>The cases that return before the final \<open>st.current = ""\<close>.\<close>

definition oscReturns :: "string \<Rightarrow> bool" where
  "oscReturns payload =
    (let chunks = split_at (CHR '';'') payload in
     hd chunks = ''52'' \<and> length chunks = 2 \<and> chunks ! 1 = ''?'' \<or>
     hd chunks = ''104'' \<and> (length chunks = 1 \<or> chunks ! 1 = []))"

definition finishOSC :: "'s listener \<Rightarrow> 's parser \<Rightarrow> 's parser outcome" where
  "finishOSC L x =
    (let payload = strBuf (fst x); x = ((fst x)\<lparr>strBuf := []\<rparr>, snd x) in
     if payload = [] then Done x
     else run (map (emit L) (oscEvents payload) @
               (if oscReturns payload then [] else [update (\<lambda>st. st\<lparr>stCurrent := []\<rparr>)])) x)"

definition finishDCS :: "'s listener \<Rightarrow> 's parser \<Rightarrow> 's parser outcome" where
  "finishDCS L x =
    (let data = strBuf (fst x); x = ((fst x)\<lparr>strBuf := []\<rparr>, snd x) in
     if has_prefix ''$q'' data then emit L (Report (EvRequestStatusString (drop 2 data))) x else Done x)"

text \<open>
  \<open>handleOSC\<close> and the DCS part of \<open>handleString\<close> differ in what they do at the end of the
  string; \<open>finish\<close> is that part.
\<close>

definition handlePayload ::
  "'s listener \<Rightarrow> ('s parser \<Rightarrow> 's parser outcome) \<Rightarrow> rune \<Rightarrow> 's parser \<Rightarrow> 's parser outcome" where
  "handlePayload L finish ch x =
    (if oscEsc (fst x) then
       (if ch = 0x5C
        then run [update (\<lambda>st. ground (st\<lparr>oscEsc := False\<rparr>)), finish] x
        else run [update (\<lambda>st. st\<lparr>oscEsc := False\<rparr>), finish, update (\<lambda>st. st\<lparr>pstate := stateEscape\<rparr>),
                  handleEscape L ch] x)
     else if ch = 0x07 \<or> ch = 0x9C then run [update ground, finish] x
     else if ch = 0x1B then update (\<lambda>st. st\<lparr>oscEsc := True\<rparr>) x
     else update (appendStringPayload ch) x)"

definition handleOSC :: "'s listener \<Rightarrow> rune \<Rightarrow> 's parser \<Rightarrow> 's parser outcome" where
  "handleOSC L = handlePayload L (finishOSC L)"

definition handleString :: "'s listener \<Rightarrow> rune \<Rightarrow> 's parser \<Rightarrow> 's parser outcome" where
  "handleString L ch x =
    (if pstate (fst x) = stateDCS then handlePayload L (finishDCS L) ch x
     else if oscEsc (fst x) then
       (if ch = 0x5C then update (\<lambda>st. ground (st\<lparr>oscEsc := False\<rparr>)) x
        else run [update (\<lambda>st. st\<lparr>oscEsc := False, pstate := stateEscape\<rparr>), handleEscape L ch] x)
     else if ch = 0x07 \<or> ch = 0x9C then update ground x
     else if ch = 0x1B then update (\<lambda>st. st\<lparr>oscEsc := True\<rparr>) x
     else Done x)"

section \<open>Feeding\<close>

definition feedRune :: "'s listener \<Rightarrow> rune \<Rightarrow> 's parser \<Rightarrow> 's parser outcome" where
  "feedRune L ch x =
    (if (ch = 0x18 \<or> ch = 0x1A) \<and> pstate (fst x) \<noteq> stateGround then
       run [update abortSequence, if ch = 0x1A then emit L (Edit (EvDraw (encode_rune ch))) else Done] x
     else (case pstate (fst x) of
         stateGround \<Rightarrow> handleGround L ch x
       | stateEscape \<Rightarrow> handleEscape L ch x
       | stateSharp \<Rightarrow>
           run [update ground, if ch = ru (CHR ''8'') then emit L (Edit EvAlignmentDisplay) else Done] x
       | stateCharset \<Rightarrow>
           run [update ground, if useUTF8 (fst x) \<and> \<not> utf8SafeCharset ch then Done
                else emit L (Setting (EvDefineCharset (encode_rune ch) (stCurrent (fst x))))] x
       | stateEscapePercent \<Rightarrow> update (SelectOtherCharset (encode_rune ch) \<circ> ground) x
       | stateCSI \<Rightarrow> handleCSI L ch x
       | stateOSC \<Rightarrow> handleOSC L ch x
       | stateEscapeSpace \<Rightarrow>
           update (\<lambda>st. if ch = ru (CHR ''F'') then (ground st)\<lparr>use8BitControls := False\<rparr>
                        else if ch = ru (CHR ''G'') then (ground st)\<lparr>use8BitControls := True\<rparr>
                        else ground st) x
       | _ \<Rightarrow> handleString L ch x))"

text \<open>The rune at the front of the data and its width; \<open>None\<close> when it is not complete yet.\<close>

definition nextRune :: "bool \<Rightarrow> bytes \<Rightarrow> (rune \<times> nat) option" where
  "nextRune utf8 data =
    (let b = byte (hd data) in
     if b < 0x80 then Some (b, 1)
     else if b \<ge> 0xC0 then
       (if utf8 \<and> \<not> FullRune data then None
        else (case DecodeRune data of (r, n) \<Rightarrow>
                if r \<noteq> RuneError \<or> n > 1 then Some (r, n) else Some (b, 1)))
     else Some (b, 1))"

lemma nextRune_size: "data \<noteq> [] \<Longrightarrow> nextRune u data = Some (r, n) \<Longrightarrow> 1 \<le> n \<and> n \<le> length data"
  using DecodeRune_size [of data] by (cases data) (auto simp: nextRune_def Let_def split: if_splits prod.splits)

definition flushText :: "'s listener \<Rightarrow> rune list \<Rightarrow> 's parser \<Rightarrow> 's parser outcome" where
  "flushText L text = (if text = [] then Done else emit L (Edit (EvDraw (string_of_runes text))))"

text \<open>The loop of \<open>FeedBytes\<close>, with the buffered text and the rest of the data.\<close>

function feedLoop :: "'s listener \<Rightarrow> bytes \<Rightarrow> rune list \<Rightarrow> 's parser \<Rightarrow> rune list \<times> 's parser outcome" where
  "feedLoop L data text x =
    (if data = [] then (text, Done x)
     else (case nextRune (useUTF8 (fst x)) data of
             None \<Rightarrow> (text, Done ((fst x)\<lparr>pendingBytes := data\<rparr>, snd x))
           | Some (ch, n) \<Rightarrow>
               if isPlainText ch \<and> pstate (fst x) = stateGround
               then feedLoop L (drop n data) (text @ [ch]) x
               else (case run [flushText L text, feedRune L ch] x of
                       Panicked y \<Rightarrow> ([], Panicked y)
                     | Done y \<Rightarrow> feedLoop L (drop n data) [] y)))"
  by pat_completeness auto
termination
  by (relation "measure (\<lambda>(L, data, text, x). length data)") (auto dest: nextRune_size)

declare feedLoop.simps [simp del]

text \<open>A trailing \<open>'\<close> is the complete HPA sequence.\<close>

definition endQuote :: "'s listener \<Rightarrow> 's parser \<Rightarrow> 's parser outcome" where
  "endQuote L x =
    (let st = fst x in
     if pstate st = stateCSI \<and> pendingQuote st
     then run [dispatchCSI L (ru (CHR 0x27)) (stParams st), update resetCSI]
            (ground (st\<lparr>pendingQuote := False\<rparr>), snd x)
     else Done x)"

definition feedData :: "'s listener \<Rightarrow> bytes \<Rightarrow> 's parser \<Rightarrow> 's parser outcome" where
  "feedData L data x =
    (let data = pendingBytes (fst x) @ data; x = ((fst x)\<lparr>pendingBytes := []\<rparr>, snd x) in
     case feedLoop L data [] x of
       (text, Panicked y) \<Rightarrow> Panicked y
     | (text, Done y) \<Rightarrow> run [endQuote L, flushText L text] y)"

text \<open>The deferred recovery.\<close>

definition recoverStream :: "Stream \<Rightarrow> Stream" where
  "recoverStream st = (resetCSI (ground st))\<lparr>oscEsc := False, pendingBytes := [], strBuf := []\<rparr>"

datatype feedError = ErrNoListener | HandlerPanic

definition FeedBytes :: "'s listener \<Rightarrow> bytes \<Rightarrow> 's parser \<Rightarrow> feedError option \<times> 's parser" where
  "FeedBytes L data x =
    (if \<not> stAttached (fst x) then (Some ErrNoListener, x)
     else (case feedData L data x of
             Done y \<Rightarrow> (None, y)
           | Panicked y \<Rightarrow> (Some HandlerPanic, (recoverStream (fst y), snd y))))"

definition FeedString :: "'s listener \<Rightarrow> string \<Rightarrow> 's parser \<Rightarrow> feedError option \<times> 's parser" where
  "FeedString = FeedBytes"

section \<open>\<open>ByteStream\<close>\<close>

text \<open>
  \<open>byte_stream.go\<close> decodes UTF-8 itself, keeping an incomplete rune in a buffer of its own, and
  feeds the runes on as a string.
\<close>

function byteRunes :: "bytes \<Rightarrow> rune list \<Rightarrow> rune list \<times> bytes" where
  "byteRunes buffer out =
    (if buffer = [] \<or> \<not> FullRune buffer then (out, buffer)
     else (case DecodeRune buffer of (r, n) \<Rightarrow>
             if r = RuneError \<and> n = 1 then byteRunes (tl buffer) (out @ [byte (hd buffer)])
             else byteRunes (drop n buffer) (out @ [r])))"
  by pat_completeness auto
termination
  by (relation "measure (\<lambda>(buffer, out). length buffer)") (auto dest: DecodeRune_drop)

declare byteRunes.simps [simp del]

definition byteStreamFeed ::
  "'s listener \<Rightarrow> bytes \<Rightarrow> bytes \<times> 's parser \<Rightarrow> feedError option \<times> bytes \<times> 's parser" where
  "byteStreamFeed L data = (\<lambda>(buffer, x).
    if useUTF8 (fst x) then
      (case byteRunes (buffer @ data) [] of (out, buffer') \<Rightarrow>
         case FeedString L (string_of_runes out) x of (err, y) \<Rightarrow> (err, buffer', y))
    else (case FeedString L (string_of_runes (map byte data)) x of (err, y) \<Rightarrow> (err, buffer, y)))"

end
