(* ===== verification/TeFeed.thy ===== *)
theory TeFeed
  imports TeStream
begin

text \<open>
  What feeding keeps: the invariant \<open>stream_ok\<close> of the parser (parameters between 0 and 9999,
  bounded payload and carry) together with any invariant of the listener. The contract between
  the parser and its listener is the locale \<open>listener_contract\<close>; it is interpreted on the screen
  and on the screen with a record of the events delivered.
\<close>

section \<open>Invariants through outcomes\<close>

definition outcome_ok :: "('a \<Rightarrow> bool) \<Rightarrow> ('a \<Rightarrow> bool) \<Rightarrow> 'a outcome \<Rightarrow> bool" where
  "outcome_ok P Q r = (case r of Done y \<Rightarrow> P y | Panicked y \<Rightarrow> Q y)"

lemma outcome_ok_simps [simp]:
  "outcome_ok P Q (Done y) = P y" "outcome_ok P Q (Panicked y) = Q y"
  by (simp_all add: outcome_ok_def)

lemma run_ok:
  "(\<And>f x. f \<in> set fs \<Longrightarrow> P x \<Longrightarrow> outcome_ok P Q (f x)) \<Longrightarrow> P x \<Longrightarrow> outcome_ok P Q (run fs x)"
proof (induction fs arbitrary: x)
  case (Cons f fs)
  then have "outcome_ok P Q (f x)" by simp
  then show ?case using Cons by (cases "f x") auto
qed simp

lemma outcome_if:
  "(b \<Longrightarrow> outcome_ok P Q (f x)) \<Longrightarrow> (\<not> b \<Longrightarrow> outcome_ok P Q (g x)) \<Longrightarrow> outcome_ok P Q ((if b then f else g) x)"
  by simp

lemma outcome_if':
  "(b \<Longrightarrow> outcome_ok P Q y) \<Longrightarrow> (\<not> b \<Longrightarrow> outcome_ok P Q z) \<Longrightarrow> outcome_ok P Q (if b then y else z)"
  by simp

section \<open>The parser invariant\<close>

definition csi_char :: "char \<Rightarrow> bool" where
  "csi_char c \<longleftrightarrow> (48 \<le> byte c \<and> byte c \<le> 57) \<or> c = CHR '':''"

definition stream_ok :: "Stream \<Rightarrow> bool" where
  "stream_ok st \<longleftrightarrow>
    list_all (\<lambda>p. 0 \<le> p \<and> p \<le> 9999) (stParams st) \<and>
    length (paramStrings st) = length (stParams st) \<and>
    len (strBuf st) \<le> maxStringPayload + 3 \<and>
    (pstate st = stateCSI \<longrightarrow> list_all csi_char (stCurrent st)) \<and>
    length (pendingBytes st) \<le> 3"

lemma paramValue_bounds:
  "list_all csi_char cs \<Longrightarrow> 0 \<le> v \<Longrightarrow> v \<le> 9999 \<Longrightarrow> 0 \<le> paramValue v cs \<and> paramValue v cs \<le> 9999"
  by (induction v cs rule: paramValue.induct) (auto simp: csi_char_def Let_def)

lemma appendParam_ok: "stream_ok st \<Longrightarrow> pstate st = stateCSI \<Longrightarrow> stream_ok (appendParam st)"
  using paramValue_bounds [of "stCurrent st" 0] by (simp add: stream_ok_def appendParam_def)

lemma encode_rune_length: "length (encode_rune r) \<le> 4"
  by (simp add: encode_rune_def Let_def)

lemma appendStringPayload_ok: "stream_ok st \<Longrightarrow> stream_ok (appendStringPayload ch st)"
  using encode_rune_length [of ch] by (auto simp: stream_ok_def appendStringPayload_def len_def)

lemma stream_ok_updates [simp]:
  "stream_ok (st\<lparr>useUTF8 := b\<rparr>) = stream_ok st" "stream_ok (st\<lparr>use8BitControls := b\<rparr>) = stream_ok st"
  "stream_ok (st\<lparr>stPrivate := b\<rparr>) = stream_ok st" "stream_ok (st\<lparr>csiPrefix := r\<rparr>) = stream_ok st"
  "stream_ok (st\<lparr>csiIntermediate := r\<rparr>) = stream_ok st" "stream_ok (st\<lparr>pendingQuote := b\<rparr>) = stream_ok st"
  "stream_ok (st\<lparr>oscEsc := b\<rparr>) = stream_ok st" "stream_ok (st\<lparr>stAttached := b\<rparr>) = stream_ok st"
  by (simp_all add: stream_ok_def)

lemma stream_ok_state: "stream_ok st \<Longrightarrow> k \<noteq> stateCSI \<Longrightarrow> stream_ok (st\<lparr>pstate := k\<rparr>)"
  by (simp add: stream_ok_def)

lemma stream_ok_clear:
  "stream_ok st \<Longrightarrow> stream_ok (st\<lparr>strBuf := []\<rparr>)" "stream_ok st \<Longrightarrow> stream_ok (st\<lparr>stCurrent := []\<rparr>)"
  "stream_ok st \<Longrightarrow> stream_ok (st\<lparr>pendingBytes := []\<rparr>)" "stream_ok st \<Longrightarrow> stream_ok (resetCSI st)"
  "stream_ok st \<Longrightarrow> stream_ok (resetCSI (st\<lparr>pstate := k\<rparr>))"
  "stream_ok st \<Longrightarrow> stream_ok (abortSequence st)" "stream_ok st \<Longrightarrow> stream_ok (recoverStream st)"
  by (simp_all add: stream_ok_def resetCSI_def maxStringPayload_def abortSequence_def recoverStream_def len_def)

lemma stream_ok_current:
  "stream_ok st \<Longrightarrow> k \<noteq> stateCSI \<Longrightarrow> stream_ok (st\<lparr>pstate := k, stCurrent := c\<rparr>)"
  "stream_ok st \<Longrightarrow> k \<noteq> stateCSI \<Longrightarrow> stream_ok (st\<lparr>stCurrent := c, pstate := k\<rparr>)"
  by (simp_all add: stream_ok_def)

lemma enterString_ok: "stream_ok st \<Longrightarrow> k \<noteq> stateCSI \<Longrightarrow> stream_ok (enterString k st)"
  by (simp add: stream_ok_def enterString_def maxStringPayload_def len_def)

lemma stream_ok_Attach: "stream_ok (Attach st)"
  by (simp add: stream_ok_def Attach_def maxStringPayload_def len_def)

lemma SelectOtherCharset_ok [simp]: "stream_ok (SelectOtherCharset c st) = stream_ok st"
  by (simp add: SelectOtherCharset_def)

lemma escapeState_ok: "stream_ok st \<Longrightarrow> stream_ok (escapeState ch st)"
  unfolding escapeState_def Let_def
  by (auto intro!: stream_ok_clear(5) enterString_ok stream_ok_state stream_ok_current
      simp: stream_ok_def resetCSI_def enterString_def maxStringPayload_def len_def)

lemma csi_digit: "48 \<le> ch \<Longrightarrow> ch \<le> 57 \<or> ch = 58 \<Longrightarrow> list_all csi_char (encode_rune ch)"
proof -
  assume a: "48 \<le> ch" "ch \<le> 57 \<or> ch = 58"
  then have "encode_rune ch = [byte_char ch]" by (auto intro: encode_rune_ascii)
  moreover have "byte (byte_char ch) = ch" using a by auto
  moreover have "byte_char 58 = CHR '':''" using byte_char_byte [of "CHR '':''"] by (simp add: byte_def)
  ultimately show ?thesis using a by (auto simp: csi_char_def)
qed

lemma csiCollect_ok:
  assumes "csiCollect ch st = Some st'" "stream_ok st" "pstate st = stateCSI"
  shows "stream_ok st'"
proof -
  have d: "stream_ok (st\<lparr>stCurrent := stCurrent st @ encode_rune ch\<rparr>)"
    if "48 \<le> ch" "ch \<le> 57 \<or> ch = 58"
    using assms(2) csi_digit [OF that] by (simp add: stream_ok_def)
  show ?thesis
    using assms d appendParam_ok [OF assms(2,3)]
    by (auto simp: csiCollect_def byte_def split: if_splits)
qed

lemma incomplete_short:
  assumes "data \<noteq> []" "nextRune u data = None"
  shows "length data \<le> 3"
proof -
  have "\<not> FullRune data"
    using assms by (auto simp: nextRune_def Let_def split: if_splits prod.splits)
  with assms(1) show ?thesis
    by (cases data) (auto simp: FullRune_def first_byte_def split: if_splits)
qed

section \<open>The contract with the listener\<close>

text \<open>
  \<open>ok\<close> is the listener's invariant, \<open>bad\<close> what its state satisfies after a panic.
\<close>

locale listener_contract =
  fixes L :: "'s listener" and ok :: "'s \<Rightarrow> bool" and bad :: "'s \<Rightarrow> bool"
  assumes delivers: "ok s \<Longrightarrow> outcome_ok ok bad (deliver L e s)"
begin

abbreviation good :: "'s parser \<Rightarrow> bool" where
  "good x \<equiv> stream_ok (fst x) \<and> ok (snd x)"

abbreviation failed :: "'s parser \<Rightarrow> bool" where
  "failed x \<equiv> stream_ok (fst x) \<and> bad (snd x)"

lemma emit_good: "good x \<Longrightarrow> outcome_ok good failed (emit L e x)"
  using delivers [of "snd x" e] by (cases "deliver L e (snd x)") (auto simp: emit_def)

lemma Done_good: "good x \<Longrightarrow> outcome_ok good failed (Done x)"
  by simp

lemma update_good: "good x \<Longrightarrow> stream_ok (f (fst x)) \<Longrightarrow> outcome_ok good failed (update f x)"
  by (simp add: update_def)

lemma dispatch_good: "good x \<Longrightarrow> outcome_ok good failed (dispatchCSI L f ps x)"
  by (auto simp: dispatchCSI_def intro: emit_good split: option.split)

lemma run_good:
  "good x \<Longrightarrow> (\<And>f y. f \<in> set fs \<Longrightarrow> good y \<Longrightarrow> outcome_ok good failed (f y)) \<Longrightarrow>
   outcome_ok good failed (run fs x)"
  by (rule run_ok)

lemma emits_good: "good x \<Longrightarrow> outcome_ok good failed (run (map (emit L) es) x)"
  by (rule run_good) (auto intro: emit_good)

lemma ground_good: "good x \<Longrightarrow> outcome_ok good failed (handleGround L ch x)"
proof -
  assume g: "good x"
  have r: "outcome_ok good failed (run [emit L (Motion EvLineFeed), emit L (Motion EvCarriageReturn)] x)"
    using emits_good [OF g, of "[Motion EvLineFeed, Motion EvCarriageReturn]"] by simp
  show ?thesis
    unfolding handleGround_def
    by (intro outcome_if emit_good [OF g] Done_good [OF g] r update_good [OF g])
      (use g in \<open>simp_all add: stream_ok_state stream_ok_clear(5) enterString_ok\<close>)
qed

lemma escape_good: "good x \<Longrightarrow> outcome_ok good failed (handleEscape L ch x)"
  unfolding handleEscape_def
  by (rule run_good) (auto intro: emit_good update_good escapeState_ok)

lemma control_good: "good x \<Longrightarrow> outcome_ok good failed (dispatchControl L ch x)"
  unfolding dispatchControl_def by (intro outcome_if emit_good Done_good)

lemma csi_good:
  assumes g: "good x" and k: "pstate (fst x) = stateCSI"
  shows "outcome_ok good failed (handleCSI L ch x)"
proof -
  let ?q = "(ground ((fst x)\<lparr>pendingQuote := False\<rparr>), snd x)"
  have q: "good ?q" using g stream_ok_state [of "(fst x)\<lparr>pendingQuote := False\<rparr>" stateGround] by simp
  have reset: "outcome_ok good failed (update resetCSI y)" if "good y" for y
    using that by (intro update_good stream_ok_clear) auto
  have r1: "outcome_ok good failed (run [dispatchCSI L ch (stParams (fst x)), update resetCSI] ?q)"
    by (rule run_good [OF q]) (auto intro: dispatch_good reset)
  have r2: "outcome_ok good failed
      (run [dispatchCSI L (ru (CHR 0x27)) (stParams (fst x)), update resetCSI, handleGround L ch] ?q)"
    by (rule run_good [OF q]) (auto intro: dispatch_good reset ground_good)
  have esc: "stream_ok ((resetCSI (fst x))\<lparr>pstate := stateEscape\<rparr>)"
    using g by (intro stream_ok_state stream_ok_clear) auto
  have fin: "good (ground (appendParam (fst x)), snd x)"
    using g k appendParam_ok stream_ok_state by auto
  show ?thesis
    unfolding handleCSI_def Let_def
    using g k r1 r2 esc control_good [OF g] dispatch_good [OF fin, of ch] csiCollect_ok
    by (intro outcome_if') (auto split: option.split intro!: outcome_if')
qed

lemma payload_good:
  assumes g: "good x" and fin: "\<And>y. good y \<Longrightarrow> outcome_ok good failed (finish y)"
  shows "outcome_ok good failed (handlePayload L finish ch x)"
  unfolding handlePayload_def
  by (intro outcome_if' run_good [OF g] update_good [OF g])
    (use g fin in \<open>auto intro!: update_good escape_good stream_ok_state appendStringPayload_ok\<close>)

lemma finishOSC_good: "good x \<Longrightarrow> outcome_ok good failed (finishOSC L x)"
  unfolding finishOSC_def Let_def
  by (intro outcome_if' run_good) (auto intro: emit_good update_good stream_ok_clear split: if_splits)

lemma finishDCS_good: "good x \<Longrightarrow> outcome_ok good failed (finishDCS L x)"
  unfolding finishDCS_def Let_def
  by (intro outcome_if' emit_good) (auto intro: stream_ok_clear)

lemma string_good: "good x \<Longrightarrow> outcome_ok good failed (handleString L ch x)"
  unfolding handleString_def
  by (intro outcome_if' run_good payload_good finishDCS_good update_good Done_good)
    (auto intro!: update_good escape_good stream_ok_state)

lemma feedRune_good:
  assumes g: "good x"
  shows "outcome_ok good failed (feedRune L ch x)"
proof (cases "(ch = 0x18 \<or> ch = 0x1A) \<and> pstate (fst x) \<noteq> stateGround")
  case True
  then show ?thesis
    unfolding feedRune_def if_P [OF True]
    by (intro run_good [OF g]) (auto intro: emit_good update_good stream_ok_clear split: if_splits)
next
  case False
  have "outcome_ok good failed (run [update ground, if b then emit L e else Done] x)" for b e
    by (intro run_good [OF g]) (auto intro: emit_good update_good stream_ok_state split: if_splits)
  moreover have "outcome_ok good failed (run [update ground, if b then Done else emit L e] x)" for b e
    by (intro run_good [OF g]) (auto intro: emit_good update_good stream_ok_state split: if_splits)
  moreover have "outcome_ok good failed (update (SelectOtherCharset (encode_rune ch) \<circ> ground) x)"
    using g by (intro update_good) (auto intro: stream_ok_state)
  moreover have "outcome_ok good failed (update (\<lambda>st. if b then (ground st)\<lparr>use8BitControls := False\<rparr>
      else if c then (ground st)\<lparr>use8BitControls := True\<rparr> else ground st) x)" for b c
    using g stream_ok_state [of "fst x" stateGround] by (intro update_good) auto
  ultimately show ?thesis
    unfolding feedRune_def if_not_P [OF False] handleOSC_def
    using ground_good [OF g] escape_good [OF g] csi_good [OF g] string_good [OF g]
      payload_good [OF g finishOSC_good]
    by (cases "pstate (fst x)") (simp_all only: parserState.case)
qed

lemma flush_good: "good x \<Longrightarrow> outcome_ok good failed (flushText L text x)"
  by (simp add: flushText_def emit_good)

lemma feedLoop_good: "good x \<Longrightarrow> outcome_ok good failed (snd (feedLoop L data text x))"
proof (induction "length data" arbitrary: data "text" x rule: less_induct)
  case less
  show ?case
  proof (cases "data = [] \<or> nextRune (useUTF8 (fst x)) data = None")
    case True
    then show ?thesis
      using less.prems incomplete_short by (subst feedLoop.simps) (auto simp: stream_ok_def)
  next
    case False
    then obtain ch n where n: "data \<noteq> []" "nextRune (useUTF8 (fst x)) data = Some (ch, n)" by auto
    then have l: "length (drop n data) < length data" using nextRune_size by fastforce
    have r: "outcome_ok good failed (run [flushText L text, feedRune L ch] x)"
      using less.prems by (rule run_good) (auto intro: flush_good feedRune_good)
    show ?thesis
    proof (cases "isPlainText ch \<and> pstate (fst x) = stateGround")
      case True
      then show ?thesis using less.hyps [OF l less.prems] n by (subst feedLoop.simps) simp
    next
      case f: False
      then show ?thesis
        using less.hyps [OF l] r n
        by (subst feedLoop.simps) (cases "run [flushText L text, feedRune L ch] x"; auto simp del: run.simps)
    qed
  qed
qed

lemma endQuote_good: "good x \<Longrightarrow> outcome_ok good failed (endQuote L x)"
  unfolding endQuote_def Let_def
  by (intro outcome_if' run_good Done_good)
    (auto intro: dispatch_good update_good stream_ok_clear stream_ok_state)

lemma feedData_good: "good x \<Longrightarrow> outcome_ok good failed (feedData L data x)"
proof -
  assume g: "good x"
  have "good ((fst x)\<lparr>pendingBytes := []\<rparr>, snd x)" using g stream_ok_clear by auto
  from feedLoop_good [OF this, of "pendingBytes (fst x) @ data" "[]"]
  obtain t r where l: "feedLoop L (pendingBytes (fst x) @ data) [] ((fst x)\<lparr>pendingBytes := []\<rparr>, snd x) = (t, r)"
    "outcome_ok good failed r"
    by (cases "feedLoop L (pendingBytes (fst x) @ data) [] ((fst x)\<lparr>pendingBytes := []\<rparr>, snd x)") simp
  have "outcome_ok good failed (run [endQuote L, flushText L t] y)" if "good y" for y
    using that by (rule run_good) (auto intro: endQuote_good flush_good)
  then show ?thesis
    using l unfolding feedData_def Let_def by (cases r) (simp_all del: run.simps)
qed

text \<open>The contract of \<open>FeedBytes\<close>: no error keeps both invariants, a panic keeps the parser usable.\<close>

theorem FeedBytes_good:
  assumes "good x" "stAttached (fst x)" "FeedBytes L data x = (err, y)"
  shows "stream_ok (fst y) \<and> (err = None \<and> ok (snd y) \<or>
    err = Some HandlerPanic \<and> bad (snd y) \<and> pstate (fst y) = stateGround)"
  using feedData_good [OF assms(1), of data] assms(2,3)
  by (cases "feedData L data x")
    (auto simp: FeedBytes_def stream_ok_clear, simp_all add: recoverStream_def resetCSI_def)

end

section \<open>The screen as a listener\<close>

text \<open>
  The only panic of a well-formed screen is the one of SGR, which assigns the cursor attributes
  last: the screen a panic leaves behind is the one before the call.
\<close>

definition screenListener :: "textlib \<Rightarrow> Screen listener" where
  "screenListener E =
    \<lparr>deliver = (\<lambda>e s. case screen_handle E e s of Some t \<Rightarrow> Done t | None \<Rightarrow> Panicked s),
     selective = True, styles = True, statusLine = True, modeQuery = Some (\<lambda>m s. isModeSet s m)\<rparr>"

text \<open>A listener that also records what it is delivered.\<close>

definition recording :: "'s listener \<Rightarrow> ('s \<times> event list) listener" where
  "recording L =
    \<lparr>deliver = (\<lambda>e (s, es). case deliver L e s of Done t \<Rightarrow> Done (t, es @ [e]) | Panicked t \<Rightarrow> Panicked (t, es @ [e])),
     selective = selective L, styles = styles L, statusLine = statusLine L,
     modeQuery = map_option (\<lambda>q m (s, es). q m s) (modeQuery L)\<rparr>"

interpretation screen: listener_contract "screenListener E" wf_screen wf_screen for E
proof
  fix s e assume "wf_screen s"
  then show "outcome_ok wf_screen wf_screen (deliver (screenListener E) e s)"
    by (auto simp: screenListener_def split: option.split intro: screen_handle_wf)
qed

interpretation recorded: listener_contract "recording (screenListener E)" "\<lambda>(s, es). wf_screen s"
  "\<lambda>(s, es). wf_screen s \<and> es \<noteq> [] \<and> \<not> event_safe (last es)" for E
proof
  fix x :: "Screen \<times> event list" and e
  assume "case x of (s, es) \<Rightarrow> wf_screen s"
  then obtain s es where x: "x = (s, es)" "wf_screen s" by (cases x) auto
  then show "outcome_ok (\<lambda>(s, es). wf_screen s) (\<lambda>(s, es). wf_screen s \<and> es \<noteq> [] \<and> \<not> event_safe (last es))
      (deliver (recording (screenListener E)) e x)"
    using screen_handle_safe [OF x(2), of e E]
    by (auto simp: recording_def screenListener_def split: option.split intro: screen_handle_wf)
qed

text \<open>Any listener, when nothing is asked of it.\<close>

interpretation unconstrained: listener_contract L "\<lambda>_. True" "\<lambda>_. True" for L
  by unfold_locales (auto simp: outcome_ok_def split: outcome.split)

section \<open>Many chunks\<close>

text \<open>
  The caller feeds chunk after chunk and logs the errors, as the region does with what it reads
  from its terminal.
\<close>

definition feedChunks :: "'s listener \<Rightarrow> bytes list \<Rightarrow> 's parser \<Rightarrow> 's parser" where
  "feedChunks L chunks x = foldl (\<lambda>y data. snd (FeedBytes L data y)) x chunks"

lemma feedChunks_wf:
  "stream_ok (fst x) \<and> wf_screen (snd x) \<Longrightarrow>
   stream_ok (fst (feedChunks (screenListener E) chunks x)) \<and> wf_screen (snd (feedChunks (screenListener E) chunks x))"
proof (induction chunks arbitrary: x)
  case (Cons data chunks)
  obtain err y where y: "FeedBytes (screenListener E) data x = (err, y)" by (cases "FeedBytes (screenListener E) data x")
  have "stream_ok (fst y) \<and> wf_screen (snd y)"
  proof (cases "stAttached (fst x)")
    case True
    with screen.FeedBytes_good [OF _ True y] Cons.prems show ?thesis by auto
  next
    case False
    with y Cons.prems show ?thesis by (auto simp: FeedBytes_def)
  qed
  from Cons.IH [OF this] show ?case by (simp add: feedChunks_def y)
qed (simp add: feedChunks_def)

end
