(* ===== verification/TeParse.thy ===== *)
theory TeParse
  imports TeFeed
begin

text \<open>
  What the parser reads is what a terminal program prints: CSI sequences with numeric
  parameters, titles, runes split between two chunks, and the aborts.
\<close>

section \<open>Decimal parameters\<close>

lemma digit_not_colon: "d < 10 \<Longrightarrow> digit_char (int d) \<noteq> CHR '':''"
  using byte_digit [of d] by (auto simp: byte_def)

lemma paramValue_digits: "n \<le> 9999 \<Longrightarrow> paramValue 0 (nat_digits 10 n @ cs) = paramValue (int n) cs"
proof (induction n arbitrary: cs rule: less_induct)
  case (less n)
  show ?case
  proof (cases "n < 10")
    case True
    then show ?thesis
      using byte_digit [OF True] digit_not_colon [OF True] by (simp add: nat_digits.simps [of 10 n])
  next
    case False
    have d: "n mod 10 < 10" by simp
    have "paramValue 0 (nat_digits 10 (n div 10) @ digit_char (int (n mod 10)) # cs) =
        paramValue (int (n div 10)) (digit_char (int (n mod 10)) # cs)"
      using less False by simp
    also have "\<dots> = paramValue (int n) cs"
      using byte_digit [OF d] digit_not_colon [OF d] less.prems
      by (simp add: Let_def) (simp add: zdiv_int zmod_int)
    finally show ?thesis using False by (simp add: nat_digits.simps [of 10 n])
  qed
qed

lemma paramValue_show: "0 \<le> p \<Longrightarrow> p \<le> 9999 \<Longrightarrow> paramValue 0 (show_int p) = p"
  using paramValue_digits [of "nat p" "[]"] by (simp add: show_int_def)

definition is_digit :: "char \<Rightarrow> bool" where
  "is_digit c \<longleftrightarrow> 48 \<le> byte c \<and> byte c \<le> 57"

lemma digits_nat: "list_all is_digit (nat_digits 10 n)"
proof (induction n rule: less_induct)
  case (less n)
  have "is_digit (digit_char (int d))" if "d < 10" for d
    using byte_digit [OF that] that by (simp add: is_digit_def)
  then show ?case using less by (cases "n < 10") (simp_all add: nat_digits.simps [of 10 n])
qed

lemma digits_show: "0 \<le> p \<Longrightarrow> list_all is_digit (show_int p)"
  using digits_nat by (simp add: show_int_def)

section \<open>Feeding single bytes\<close>

lemma ru_literals:
  "ru (CHR ''?'') = 63" "ru (CHR ''<'') = 60" "ru (CHR ''='') = 61" "ru (CHR ''>'') = 62"
  "ru (CHR 0x27) = 39" "ru (CHR '' '') = 32" "ru (CHR ''/'') = 47" "ru (CHR ''0'') = 48"
  "ru (CHR ''9'') = 57" "ru (CHR '':'') = 58" "ru (CHR '';'') = 59" "ru (CHR ''['') = 91"
  "ru (CHR 0x1B) = 27" "ru (CHR ''}'') = 125" "ru (CHR ''~'') = 126"
  by (simp_all add: byte_def)

text \<open>An ASCII byte outside the ground state, or a control in it, is one call of \<open>feedRune\<close>.\<close>

lemma feedLoop_ascii:
  assumes "byte c < 0x80" "pstate (fst x) \<noteq> stateGround \<or> \<not> isPlainText (byte c)"
  shows "feedLoop L (c # cs) [] x =
    (case feedRune L (byte c) x of Panicked y \<Rightarrow> ([], Panicked y) | Done y \<Rightarrow> feedLoop L cs [] y)"
proof -
  have "run [flushText L [], feedRune L (byte c)] x = feedRune L (byte c) x"
    by (cases "feedRune L (byte c) x") (simp_all add: flushText_def)
  then show ?thesis
    using assms
    by (subst feedLoop.simps) (cases "feedRune L (byte c) x"; auto simp: nextRune_def simp del: run.simps)
qed

lemma feedLoop_csi:
  assumes "byte c < 0x80" "byte c \<noteq> 0x18" "byte c \<noteq> 0x1A" "pstate (fst x) = stateCSI"
  shows "feedLoop L (c # cs) [] x =
    (case handleCSI L (byte c) x of Panicked y \<Rightarrow> ([], Panicked y) | Done y \<Rightarrow> feedLoop L cs [] y)"
  using assms by (subst feedLoop_ascii) (auto simp: feedRune_def)

lemma feedLoop_digits:
  "list_all is_digit ds \<Longrightarrow> pstate st = stateCSI \<Longrightarrow> \<not> pendingQuote st \<Longrightarrow>
   feedLoop L (ds @ cs) [] (st, s) = feedLoop L cs [] (st\<lparr>stCurrent := stCurrent st @ ds\<rparr>, s)"
proof (induction ds arbitrary: st)
  case (Cons d ds)
  then have d: "48 \<le> byte d" "byte d \<le> 57" by (simp_all add: is_digit_def)
  then have "csiCollect (byte d) st = Some (st\<lparr>stCurrent := stCurrent st @ [d]\<rparr>)"
    by (simp add: csiCollect_def encode_rune_ascii ru_literals)
  then have "feedLoop L (d # ds @ cs) [] (st, s) =
      feedLoop L (ds @ cs) [] (st\<lparr>stCurrent := stCurrent st @ [d]\<rparr>, s)"
    using d Cons.prems by (subst feedLoop_csi) (simp_all add: handleCSI_def)
  then show ?case using Cons by simp
qed simp

lemma feedLoop_semicolon:
  "pstate st = stateCSI \<Longrightarrow> \<not> pendingQuote st \<Longrightarrow>
   feedLoop L (CHR '';'' # cs) [] (st, s) = feedLoop L cs [] (appendParam st, s)"
  by (subst feedLoop_csi) (simp_all add: handleCSI_def csiCollect_def ru_literals)

text \<open>The parameters of a sequence, up to the final byte.\<close>

lemma feedLoop_params:
  assumes "ps \<noteq> []" "\<forall>p \<in> set ps. 0 \<le> p \<and> p \<le> 9999"
    and "pstate st = stateCSI" "\<not> pendingQuote st" "stCurrent st = []"
  shows "feedLoop L (join_with '';'' (map show_int ps) @ cs) [] (st, s) =
    feedLoop L cs [] (st\<lparr>stParams := stParams st @ butlast ps,
      paramStrings := paramStrings st @ map show_int (butlast ps), stCurrent := show_int (last ps)\<rparr>, s)"
  using assms
proof (induction ps arbitrary: st rule: induct_list012)
  case (2 p)
  then show ?case by (simp add: feedLoop_digits digits_show)
next
  case (3 p q ps)
  define st' where "st' = appendParam (st\<lparr>stCurrent := show_int p\<rparr>)"
  have st': "st' = st\<lparr>stParams := stParams st @ [p], paramStrings := paramStrings st @ [show_int p], stCurrent := []\<rparr>"
    using 3 by (simp add: st'_def appendParam_def paramValue_show)
  have "feedLoop L (join_with '';'' (map show_int (p # q # ps)) @ cs) [] (st, s) =
      feedLoop L (join_with '';'' (map show_int (q # ps)) @ cs) [] (st', s)"
    using 3 by (simp add: feedLoop_digits digits_show feedLoop_semicolon st'_def)
  also have "\<dots> = feedLoop L cs [] (st'\<lparr>stParams := stParams st' @ butlast (q # ps),
      paramStrings := paramStrings st' @ map show_int (butlast (q # ps)), stCurrent := show_int (last (q # ps))\<rparr>, s)"
    using 3 by (intro "3.IH"(2)) (auto simp: st')
  finally show ?case by (simp add: st')
qed simp

text \<open>The introducer.\<close>

lemma escape_bracket:
  "escapeEvents 91 = []" "escapeState 91 st = resetCSI ((ground st)\<lparr>pstate := stateCSI\<rparr>)"
  by (simp_all add: escapeEvents_def escapeState_def byte_def)

lemma handleGround_ESC: "handleGround L 27 x = Done ((fst x)\<lparr>pstate := stateEscape\<rparr>, snd x)"
  by (simp add: handleGround_def update_def)

lemma feedLoop_ESC:
  assumes "pstate st = stateGround"
  shows "feedLoop L (CHR 0x1B # cs) [] (st, s) = feedLoop L cs [] (st\<lparr>pstate := stateEscape\<rparr>, s)"
  by (subst feedLoop_ascii) (simp_all add: assms ru_literals isPlainText_def feedRune_def handleGround_ESC)

lemma feedLoop_CSI:
  assumes "pstate st = stateGround"
  shows "feedLoop L (ControlCSI @ cs) [] (st, s) = feedLoop L cs [] (resetCSI (st\<lparr>pstate := stateCSI\<rparr>), s)"
proof -
  have "feedLoop L (ControlCSI @ cs) [] (st, s) = feedLoop L (CHR ''['' # cs) [] (st\<lparr>pstate := stateEscape\<rparr>, s)"
    by (simp add: ControlCSI_def ControlESC_def feedLoop_ESC assms)
  also have "\<dots> = feedLoop L cs [] (resetCSI (st\<lparr>pstate := stateCSI\<rparr>), s)"
    by (subst feedLoop_ascii)
      (simp_all add: ru_literals feedRune_def handleEscape_def escape_bracket update_def)
  finally show ?thesis .
qed

section \<open>A printed control sequence\<close>

text \<open>\<open>ESC [ p ; ... ; p final\<close>.\<close>

definition csi :: "int list \<Rightarrow> char \<Rightarrow> string" where
  "csi ps final = ControlCSI @ join_with '';'' (map show_int ps) @ [final]"

lemma dispatchCSI_stream:
  "(case dispatchCSI L f ps (st, s) of Done y \<Rightarrow> fst y | Panicked y \<Rightarrow> fst y) = st"
  by (auto simp: dispatchCSI_def emit_def split: option.split outcome.split)

lemma endQuote_ground: "pstate (fst x) = stateGround \<Longrightarrow> endQuote L x = Done x"
  by (simp add: endQuote_def)

lemma feedData_csi:
  assumes st: "pstate st = stateGround" "pendingBytes st = []"
    and ps: "ps \<noteq> []" "\<forall>p \<in> set ps. 0 \<le> p \<and> p \<le> 9999" and f: "0x40 \<le> byte final" "byte final \<le> 0x7E"
  shows "feedData L (csi ps final) (st, s) =
    dispatchCSI L (byte final) ps ((resetCSI st)\<lparr>stParams := ps, paramStrings := map show_int ps\<rparr>, s)"
proof -
  define st1 where "st1 = resetCSI (st\<lparr>pstate := stateCSI\<rparr>)"
  define st2 where "st2 = st1\<lparr>stParams := butlast ps, paramStrings := map show_int (butlast ps), stCurrent := show_int (last ps)\<rparr>"
  define st3 where "st3 = (resetCSI st)\<lparr>stParams := ps, paramStrings := map show_int ps\<rparr>"
  have st1: "pstate st1 = stateCSI" "\<not> pendingQuote st1" "stCurrent st1 = []" "stParams st1 = []" "paramStrings st1 = []"
    by (simp_all add: st1_def resetCSI_def)
  have l: "0 \<le> last ps" "last ps \<le> 9999" using ps by auto
  have "feedLoop L (csi ps final) [] (st, s) = feedLoop L [final] [] (st2, s)"
    using feedLoop_params [OF ps st1(1-3), of L "[final]" s] st1
    by (simp add: csi_def feedLoop_CSI [OF st(1)] st1_def [symmetric] st2_def)
  also have "\<dots> = (case handleCSI L (byte final) (st2, s) of
      Panicked y \<Rightarrow> ([], Panicked y) | Done y \<Rightarrow> feedLoop L [] [] y)"
    using f st1 by (subst feedLoop_csi) (simp_all add: st2_def)
  also have "handleCSI L (byte final) (st2, s) = dispatchCSI L (byte final) ps (st3, s)"
  proof -
    have "csiCollect (byte final) st2 = None" "\<not> isControlInCSI (byte final)"
      using f by (auto simp: csiCollect_def isControlInCSI_def ru_literals)
    moreover have ms: "map show_int (butlast ps) @ [show_int (last ps)] = map show_int ps"
      using ps(1) by (metis append_butlast_last_id list.simps(8,9) map_append)
    moreover have "ground (appendParam st2) = st3"
      using ps(1) st l
      by (simp add: st3_def st2_def st1_def resetCSI_def appendParam_def paramValue_show ms)
    moreover have "stParams (appendParam st2) = ps"
      using ps l by (simp add: st2_def appendParam_def paramValue_show)
    ultimately show ?thesis using f st1 by (simp add: handleCSI_def st2_def Let_def)
  qed
  finally have "feedLoop L (csi ps final) [] (st, s) =
      (case dispatchCSI L (byte final) ps (st3, s) of Panicked y \<Rightarrow> ([], Panicked y) | Done y \<Rightarrow> ([], Done y))"
    by (simp add: feedLoop.simps [of L "[]"] cong: outcome.case_cong)
  moreover have "pstate (fst y) = stateGround" if "dispatchCSI L (byte final) ps (st3, s) = Done y" for y
    using dispatchCSI_stream [of L "byte final" ps st3 s] that st by (simp add: st3_def resetCSI_def)
  moreover have e: "st\<lparr>pendingBytes := []\<rparr> = st" using st(2) by simp
  ultimately show ?thesis
    unfolding st3_def [symmetric] feedData_def Let_def fst_conv snd_conv st(2) append_Nil e
    by (cases "dispatchCSI L (byte final) ps (st3, s)") (simp_all add: endQuote_ground flushText_def)
qed

section \<open>Runes across chunks\<close>


lemma DecodeRune_full:
  "DecodeRune p = (r, n) \<Longrightarrow> 1 < n \<Longrightarrow> FullRune p"
  by (auto simp: DecodeRune_def FullRune_def split: list.splits option.splits if_splits)

lemma proper_prefix_incomplete:
  assumes d: "DecodeRune p = (r, n)" "1 < n" and k: "0 < k" "k < n"
  shows "\<not> FullRune (take k p)"
proof -
  obtain b bs where p: "p = b # bs" using d by (cases p) (auto simp: DecodeRune_def)
  define rest where "rest = map byte bs"
  obtain m lo hi where f: "first_byte (byte b) = Some (m, lo, hi)"
    using d p by (auto simp: DecodeRune_def split: option.splits)
  have "m \<in> {1, 2, 3, 4}" using f by (auto simp: first_byte_def split: if_splits)
  then have m: "m = n" "n \<le> length rest + 1" "\<not> (rest ! 0 < lo \<or> hi < rest ! 0)"
    "2 < n \<Longrightarrow> is_cont (rest ! 1)"
    using d p f by (auto simp: DecodeRune_def rest_def [symmetric] Suc_le_eq not_less split: if_splits)
  obtain j where j: "k = Suc j" using k by (cases k) auto
  have t: "map byte (take k p) = byte b # take j rest" by (simp add: p j rest_def take_map)
  show ?thesis
    unfolding FullRune_def t using f m k j by (auto simp: nth_take)
qed

lemma encode_rune_long: "scalar r \<Longrightarrow> 0x80 \<le> r \<Longrightarrow> 1 < length (encode_rune r)"
  by (simp add: encode_rune_def scalar_def Let_def RuneError_def)

lemma multibyte_lead:
  "DecodeRune (c # p) = (r, n) \<Longrightarrow> 1 < n \<Longrightarrow> 0xC2 \<le> byte c"
  by (auto simp: DecodeRune_def first_byte_def split: if_splits)

lemma nextRune_encode:
  assumes "scalar r"
  shows "nextRune u (encode_rune r @ cs) = Some (r, length (encode_rune r))"
proof (cases "r < 0x80")
  case True
  then show ?thesis using assms by (simp add: nextRune_def encode_rune_ascii scalar_def)
next
  case False
  then have l: "1 < length (encode_rune r)" using assms by (intro encode_rune_long) auto
  obtain c p where e: "encode_rune r @ cs = c # p" by (cases "encode_rune r") auto
  have d: "DecodeRune (encode_rune r @ cs) = (r, length (encode_rune r))" by (rule decode_encode [OF assms])
  then have "0xC2 \<le> byte c" "FullRune (c # p)" using l multibyte_lead DecodeRune_full unfolding e by blast+
  then show ?thesis using d l unfolding e by (auto simp: nextRune_def)
qed

lemma nextRune_split:
  assumes "scalar r" "encode_rune r = xs @ ys" "xs \<noteq> []" "ys \<noteq> []"
  shows "nextRune True xs = None"
proof -
  have l: "1 < length (encode_rune r)" using assms(2-4) by (cases xs; cases ys) auto
  have d: "DecodeRune (xs @ ys) = (r, length (encode_rune r))"
    using decode_encode [OF assms(1), of "[]"] assms(2) by simp
  obtain c p where e: "xs = c # p" using assms(3) by (cases xs) auto
  have "0xC2 \<le> byte c" using multibyte_lead [of c "p @ ys"] d l e by simp
  moreover have "\<not> FullRune (take (length xs) (xs @ ys))"
    using proper_prefix_incomplete [OF d l, of "length xs"] assms by simp
  ultimately show ?thesis using e by (simp add: nextRune_def)
qed

section \<open>Text\<close>

lemma feedLoop_plain:
  assumes "scalar r" "isPlainText r" "pstate (fst x) = stateGround"
  shows "feedLoop L (encode_rune r @ cs) t x = feedLoop L cs (t @ [r]) x"
  using assms nextRune_encode [OF assms(1), of "useUTF8 (fst x)" cs]
  by (subst feedLoop.simps) simp

lemma feedLoop_rune:
  assumes "scalar r" "\<not> (isPlainText r \<and> pstate (fst x) = stateGround)"
  shows "feedLoop L (encode_rune r @ cs) [] x =
    (case feedRune L r x of Panicked y \<Rightarrow> ([], Panicked y) | Done y \<Rightarrow> feedLoop L cs [] y)"
proof -
  have "run [flushText L [], feedRune L r] x = feedRune L r x"
    by (cases "feedRune L r x") (simp_all add: flushText_def)
  then show ?thesis
    using assms nextRune_encode [OF assms(1), of "useUTF8 (fst x)" cs]
    by (subst feedLoop.simps) (cases "feedRune L r x"; auto simp del: run.simps)
qed

lemma feedLoop_Nil [simp]: "feedLoop L [] t x = (t, Done x)"
  by (simp add: feedLoop.simps)

text \<open>A rune cut in two by a chunk boundary is drawn whole by the second chunk.\<close>

lemma feed_split_rune:
  assumes r: "scalar r" "isPlainText r" "encode_rune r = xs @ ys" "xs \<noteq> []" "ys \<noteq> []"
    and st: "pstate st = stateGround" "useUTF8 st" "pendingBytes st = []"
  shows "feedData L xs (st, s) = Done (st\<lparr>pendingBytes := xs\<rparr>, s)"
    "feedData L ys (st\<lparr>pendingBytes := xs\<rparr>, s) = emit L (Edit (EvDraw (encode_rune r))) (st, s)"
proof -
  have e: "st\<lparr>pendingBytes := []\<rparr> = st" using st(3) by simp
  have "feedLoop L xs [] (st, s) = ([], Done (st\<lparr>pendingBytes := xs\<rparr>, s))"
    using nextRune_split [OF r(1,3-5)] r(4) st by (subst feedLoop.simps) simp
  then show "feedData L xs (st, s) = Done (st\<lparr>pendingBytes := xs\<rparr>, s)"
    unfolding feedData_def Let_def fst_conv snd_conv st(3) append_Nil e
    by (simp add: endQuote_def flushText_def st)
  have "feedLoop L (encode_rune r) [] (st, s) = ([r], Done (st, s))"
    using feedLoop_plain [of r "(st, s)" L "[]" "[]"] r st by simp
  moreover have "run [endQuote L, flushText L [r]] (st, s) = emit L (Edit (EvDraw (encode_rune r))) (st, s)"
    using st(1) by (cases "emit L (Edit (EvDraw (encode_rune r))) (st, s)")
      (simp_all add: endQuote_def flushText_def string_of_runes_def)
  ultimately show "feedData L ys (st\<lparr>pendingBytes := xs\<rparr>, s) = emit L (Edit (EvDraw (encode_rune r))) (st, s)"
    unfolding feedData_def Let_def using e r(3) by (simp del: run.simps)
qed

section \<open>Titles\<close>

text \<open>The runes an OSC string may hold without ending it.\<close>

definition osc_rune :: "rune \<Rightarrow> bool" where
  "osc_rune r \<longleftrightarrow> scalar r \<and> r \<notin> {0x07, 0x18, 0x1A, 0x1B, 0x9C}"

lemma feedLoop_payload:
  "list_all osc_rune rs \<Longrightarrow> pstate st = stateOSC \<Longrightarrow> \<not> oscEsc st \<Longrightarrow>
   len (strBuf st) + len (string_of_runes rs) \<le> maxStringPayload \<Longrightarrow>
   feedLoop L (string_of_runes rs @ cs) [] (st, s) =
   feedLoop L cs [] (st\<lparr>strBuf := strBuf st @ string_of_runes rs\<rparr>, s)"
proof (induction rs arbitrary: st)
  case Nil
  then show ?case by (simp add: string_of_runes_def)
next
  case (Cons r rs)
  then have r: "scalar r" "r \<noteq> 0x07" "r \<noteq> 0x18" "r \<noteq> 0x1A" "r \<noteq> 0x1B" "r \<noteq> 0x9C"
    by (auto simp: osc_rune_def)
  have l: "len (encode_rune r) > 0" by (simp add: len_def)
  moreover have "len (string_of_runes (r # rs)) = len (encode_rune r) + len (string_of_runes rs)"
    "0 \<le> len (string_of_runes rs)" by (simp_all add: string_of_runes_def len_def)
  ultimately have b: "len (strBuf st) < maxStringPayload" using Cons.prems(4) by linarith
  then have "appendStringPayload r st = st\<lparr>strBuf := strBuf st @ encode_rune r\<rparr>"
    using Cons.prems(4) l by (auto simp: appendStringPayload_def string_of_runes_def len_def)
  then have "feedRune L r (st, s) = Done (st\<lparr>strBuf := strBuf st @ encode_rune r\<rparr>, s)"
    using r Cons.prems by (simp add: feedRune_def handleOSC_def handlePayload_def update_def)
  then have "feedLoop L (encode_rune r @ string_of_runes rs @ cs) [] (st, s) =
      feedLoop L (string_of_runes rs @ cs) [] (st\<lparr>strBuf := strBuf st @ encode_rune r\<rparr>, s)"
    using r Cons.prems by (subst feedLoop_rune) auto
  also have "\<dots> = feedLoop L cs [] (st\<lparr>strBuf := (strBuf st @ encode_rune r) @ string_of_runes rs\<rparr>, s)"
    using Cons.prems by (subst Cons.IH) (auto simp: string_of_runes_def len_def)
  finally show ?case by (simp add: string_of_runes_def)
qed

text \<open>\<open>ESC ] payload BEL\<close> from the ground state.\<close>

definition osc :: "string \<Rightarrow> string" where
  "osc payload = [CHR 0x1B, CHR '']''] @ payload @ [CHR 0x07]"

lemma escape_OSC:
  "byte (CHR '']'') = 93" "byte (CHR 0x07) = 7"
  "escapeEvents 93 = []" "escapeState 93 st = enterString stateOSC (ground st)"
  by (simp_all add: escapeEvents_def escapeState_def byte_def)

lemma feedData_osc:
  assumes rs: "list_all osc_rune rs" "len (string_of_runes rs) \<le> maxStringPayload"
    and st: "pstate st = stateGround" "pendingBytes st = []"
  shows "feedData L (osc (string_of_runes rs)) (st, s) =
    (case finishOSC L (st\<lparr>strBuf := string_of_runes rs, oscEsc := False\<rparr>, s) of
       Panicked y \<Rightarrow> Panicked y | Done y \<Rightarrow> endQuote L y)"
proof -
  define st1 where "st1 = enterString stateOSC st"
  have "feedLoop L (osc (string_of_runes rs)) [] (st, s) =
      feedLoop L (string_of_runes rs @ [CHR 0x07]) [] (st1, s)"
  proof -
    have "feedLoop L (osc (string_of_runes rs)) [] (st, s) =
        feedLoop L (CHR '']'' # string_of_runes rs @ [CHR 0x07]) [] (st\<lparr>pstate := stateEscape\<rparr>, s)"
      by (simp add: osc_def feedLoop_ESC st)
    also have "\<dots> = feedLoop L (string_of_runes rs @ [CHR 0x07]) [] (st1, s)"
      by (subst feedLoop_ascii)
        (simp_all add: ru_literals feedRune_def handleEscape_def escape_OSC update_def st1_def st enterString_def)
    finally show ?thesis .
  qed
  also have "\<dots> = feedLoop L [CHR 0x07] [] (st1\<lparr>strBuf := string_of_runes rs\<rparr>, s)"
    using rs by (subst feedLoop_payload) (simp_all add: st1_def enterString_def len_def)
  also have "\<dots> = (case finishOSC L (st\<lparr>strBuf := string_of_runes rs, oscEsc := False\<rparr>, s) of
       Panicked y \<Rightarrow> ([], Panicked y) | Done y \<Rightarrow> ([], Done y))"
  proof -
    have g: "st\<lparr>pstate := stateGround\<rparr> = st" using st(1) by simp
    then have "ground (st1\<lparr>strBuf := string_of_runes rs\<rparr>) = st\<lparr>strBuf := string_of_runes rs, oscEsc := False\<rparr>"
      using st by (cases st) (simp add: st1_def enterString_def)
    then show ?thesis
      by (subst feedLoop_ascii)
        (simp_all add: ru_literals escape_OSC feedRune_def handleOSC_def handlePayload_def update_def st1_def enterString_def
          split: outcome.split)
  qed
  moreover have e: "st\<lparr>pendingBytes := []\<rparr> = st" using st(2) by simp
  ultimately show ?thesis
    unfolding feedData_def Let_def fst_conv snd_conv st(2) append_Nil e
    by (cases "finishOSC L (st\<lparr>strBuf := string_of_runes rs, oscEsc := False\<rparr>, s)")
      (auto simp: flushText_def split: outcome.split)
qed

section \<open>Readings used by the properties\<close>

lemma CursorPosition_plain:
  assumes "\<not> isModeSet s ModeDECOM" "\<not> isModeSet s ModeDECLRMM" "1 \<le> r" "r \<le> Lines s" "1 \<le> c" "c \<le> Columns s"
  shows "CursorPosition [r, c] s = atCol (c - 1) (atRow (r - 1) (s\<lparr>wrapNext := False\<rparr>))"
  using assms
  by (auto simp: CursorPosition_def first_param_def second_param_def at_least_1_def ensureHB_def ensureVB_def
      atCol_def atRow_def isModeSet_def Let_def split: option.split)

lemma osc_digits:
  "osc_rune 50" "osc_rune 59" "string_of_runes (50 # 59 # rs) = ''2;'' @ string_of_runes rs"
  using byte_char_byte [of "CHR ''2''"] byte_char_byte [of "CHR '';''"]
  by (simp_all add: osc_rune_def scalar_def string_of_runes_def encode_rune_def byte_def)

lemma expand_shown:
  assumes "paramStrings st = map show_int ps" "\<forall>p \<in> set ps. 0 \<le> p"
  shows "expandSGRParams st ps = ps"
proof -
  have "CHR '':'' \<notin> set (show_int p)" if "p \<in> set ps" for p
    using digits_show [of p] assms(2) that by (auto simp: list_all_iff is_digit_def byte_def)
  then have "\<not> (\<exists>s \<in> set (paramStrings st). CHR '':'' \<in> set s)" unfolding assms(1) by auto
  then show ?thesis by (simp add: expandSGRParams_def)
qed

lemma new_stream [simp]:
  "stAttached (NewStream True b)" "pstate (NewStream True b) = stateGround" "pendingBytes (NewStream True b) = []"
  "useUTF8 (NewStream True b)" "stream_ok (NewStream True b)"
  by (simp_all add: NewStream_def Attach_def zeroStream_def stream_ok_def len_def maxStringPayload_def)

end
