(* ===== verification/TeHistory.thy ===== *)
theory TeHistory
  imports Complex_Main TeEvent TeResize
begin

text \<open>
  The scrollback of \<open>pkg/te/history_screen.go\<close>: \<open>HistoryScreen\<close> embeds a \<open>Screen\<close> and keeps the
  rows that scroll off it in two bounded queues. The sequence numbers are 64-bit words.
  \<open>Ratio\<close> is a rational: the product with the number of lines is exact in the code for the
  default 0.5 and for every other dyadic ratio. The methods \<open>HistoryScreen\<close> does not override
  are promoted from \<open>Screen\<close> and run without its page handling.
\<close>

section \<open>Bounded queues\<close>

record historyDeque =
  items :: "Cell list list"
  dmax :: int

definition dequeAppend :: "Cell list \<Rightarrow> historyDeque \<Rightarrow> historyDeque \<times> bool" where
  "dequeAppend line d =
    (if dmax d = 0 then (d, False)
     else if len (items d) = dmax d then (d\<lparr>items := tl (items d) @ [line]\<rparr>, True)
     else (d\<lparr>items := items d @ [line]\<rparr>, False))"

definition dequePrepend :: "Cell list \<Rightarrow> historyDeque \<Rightarrow> historyDeque" where
  "dequePrepend line d =
    (if dmax d = 0 then d
     else if len (items d) = dmax d then d\<lparr>items := line # butlast (items d)\<rparr>
     else d\<lparr>items := line # items d\<rparr>)"

definition dequePop :: "historyDeque \<Rightarrow> Cell list option \<times> historyDeque" where
  "dequePop d =
    (if items d = [] then (None, d) else (Some (last (items d)), d\<lparr>items := butlast (items d)\<rparr>))"

definition dequePopLeft :: "historyDeque \<Rightarrow> Cell list option \<times> historyDeque" where
  "dequePopLeft d =
    (if items d = [] then (None, d) else (Some (hd (items d)), d\<lparr>items := tl (items d)\<rparr>))"

section \<open>State\<close>

record History =
  HTop :: historyDeque
  HBottom :: historyDeque
  Ratio :: rat
  HSize :: int
  Position :: int
  TotalAdded :: "64 word"
  FirstSeq :: "64 word"

record HistoryScreen =
  hscr :: Screen
  history :: History

definition NewHistoryScreenWithRatio :: "int \<Rightarrow> int \<Rightarrow> int \<Rightarrow> rat \<Rightarrow> HistoryScreen option" where
  "NewHistoryScreenWithRatio cols lines n ratio = do {
     s \<leftarrow> NewScreen cols lines;
     Some \<lparr>hscr = s, history = \<lparr>HTop = \<lparr>items = [], dmax = n\<rparr>, HBottom = \<lparr>items = [], dmax = n\<rparr>,
       Ratio = ratio, HSize = n, Position = n, TotalAdded = 0, FirstSeq = 0\<rparr>\<rparr> }"

definition NewHistoryScreen :: "int \<Rightarrow> int \<Rightarrow> int \<Rightarrow> HistoryScreen option" where
  "NewHistoryScreen cols lines n = NewHistoryScreenWithRatio cols lines n (1 / 2)"

text \<open>A row appended to \<open>Top\<close>; \<open>retain\<close> when it is paged back, \<open>pushTop\<close> when it scrolls off.\<close>

definition retain :: "Cell list \<Rightarrow> History \<Rightarrow> History" where
  "retain line H =
    (case dequeAppend line (HTop H) of (d, evicted) \<Rightarrow>
       H\<lparr>HTop := d, FirstSeq := (if evicted then FirstSeq H + 1 else FirstSeq H)\<rparr>)"

definition pushTop :: "Cell list \<Rightarrow> History \<Rightarrow> History" where
  "pushTop line H = (let H = retain line H in H\<lparr>TotalAdded := TotalAdded H + 1\<rparr>)"

definition resetHistory :: "History \<Rightarrow> History" where
  "resetHistory H = H\<lparr>HTop := (HTop H)\<lparr>items := []\<rparr>, HBottom := (HBottom H)\<lparr>items := []\<rparr>,
     Position := HSize H, FirstSeq := TotalAdded H\<rparr>"

section \<open>Paging\<close>

definition pageRows :: "HistoryScreen \<Rightarrow> historyDeque \<Rightarrow> int" where
  "pageRows h d = minInt (len (items d)) \<lceil>rat_of_int (Lines (hscr h)) * Ratio (history h)\<rceil>"

definition afterEvent :: "bool \<Rightarrow> HistoryScreen \<Rightarrow> HistoryScreen" where
  "afterEvent paging h =
    (let s = hscr h;
         s = (if paging then s\<lparr>Buffer := map (\<lambda>line. if len line > Columns s then take (nat (Columns s)) line else line) (Buffer s)\<rparr>
              else s);
         hid = (\<not> (Position (history h) = HSize (history h) \<and> isModeSet s ModeDECTCEM))
     in h\<lparr>hscr := s\<lparr>Cursor := (Cursor s)\<lparr>Hidden := hid\<rparr>\<rparr>\<rparr>)"

definition PrevPage :: "HistoryScreen \<Rightarrow> HistoryScreen option" where
  "PrevPage h =
    (if Position (history h) > Lines (hscr h) \<and> items (HTop (history h)) \<noteq> [] then
       (let s = hscr h; n = Lines s; mid = pageRows h (HTop (history h)) in do {
          H \<leftarrow> for_each (\<lambda>r H. do { line \<leftarrow> idx (Buffer s) r; Some (H\<lparr>HBottom := dequePrepend line (HBottom H)\<rparr>) })
                 (rev [n - mid..n - 1]) (history h);
          let H = H\<lparr>Position := Position H - mid\<rparr>;
          b \<leftarrow> for_each (\<lambda>r b. do { line \<leftarrow> idx b (r - mid); upd b r line }) (rev [mid..n - 1]) (Buffer s);
          (b, H) \<leftarrow> for_each (\<lambda>r (b, H). case dequePop (HTop H) of (l, d) \<Rightarrow>
                   do { b \<leftarrow> upd b r (case l of Some line \<Rightarrow> line | None \<Rightarrow> blankLine (Columns s) (defaultCell s));
                        Some (b, H\<lparr>HTop := d\<rparr>) })
                 (rev [0..mid - 1]) (b, H);
          Some (afterEvent True (h\<lparr>hscr := markDirtyRange 0 (n - 1) (s\<lparr>Buffer := b\<rparr>), history := H\<rparr>)) })
     else Some (afterEvent True h))"

definition NextPage :: "HistoryScreen \<Rightarrow> HistoryScreen option" where
  "NextPage h =
    (if Position (history h) < HSize (history h) \<and> items (HBottom (history h)) \<noteq> [] then
       (let s = hscr h; n = Lines s; mid = pageRows h (HBottom (history h)) in do {
          H \<leftarrow> for_each (\<lambda>r H. do { line \<leftarrow> idx (Buffer s) r; Some (retain line H) }) [0..mid - 1] (history h);
          let H = H\<lparr>Position := Position H + mid\<rparr>;
          b \<leftarrow> for_each (\<lambda>r b. do { line \<leftarrow> idx b (r + mid); upd b r line }) [0..n - mid - 1] (Buffer s);
          (b, H) \<leftarrow> for_each (\<lambda>r (b, H). case dequePopLeft (HBottom H) of (l, d) \<Rightarrow>
                   do { b \<leftarrow> upd b r (case l of Some line \<Rightarrow> line | None \<Rightarrow> blankLine (Columns s) (defaultCell s));
                        Some (b, H\<lparr>HBottom := d\<rparr>) })
                 [n - mid..n - 1] (b, H);
          Some (afterEvent True (h\<lparr>hscr := markDirtyRange 0 (n - 1) (s\<lparr>Buffer := b\<rparr>), history := H\<rparr>)) })
     else Some (afterEvent True h))"

text \<open>
  The loop of \<open>beforeEvent\<close> pages back to the live view. It would not end if no rows were left
  below, so it is a partial function.
\<close>

partial_function (option) toLive :: "HistoryScreen \<Rightarrow> HistoryScreen option" where
  "toLive h =
    (if Position (history h) < HSize (history h) then NextPage h \<bind> toLive else Some h)"

definition beforeEvent :: "bool \<Rightarrow> HistoryScreen \<Rightarrow> HistoryScreen option" where
  "beforeEvent paging h = (if paging then Some h else toLive h)"

section \<open>Handlers\<close>

definition onScreen :: "(Screen \<Rightarrow> Screen option) \<Rightarrow> HistoryScreen \<Rightarrow> HistoryScreen option" where
  "onScreen f h = map_option (\<lambda>s. h\<lparr>hscr := s\<rparr>) (f (hscr h))"

definition aroundEvent :: "(HistoryScreen \<Rightarrow> HistoryScreen option) \<Rightarrow> HistoryScreen \<Rightarrow> HistoryScreen option" where
  "aroundEvent f h = do { h \<leftarrow> beforeEvent False h; h \<leftarrow> f h; Some (afterEvent False h) }"

definition scrollbackEligible :: "int \<Rightarrow> int \<Rightarrow> Screen \<Rightarrow> bool" where
  "scrollbackEligible tp bt s =
    (case horizontalMargins s of (left, right) \<Rightarrow>
       tp = 0 \<and> bt = Lines s - 1 \<and> left = 0 \<and> right = Columns s - 1 \<and> \<not> altActive s)"

definition indexInternal :: "HistoryScreen \<Rightarrow> HistoryScreen option" where
  "indexInternal h =
    (case scrollRegion (hscr h) of (tp, bt) \<Rightarrow> do {
       h \<leftarrow> (if row (hscr h) = bt \<and> scrollbackEligible tp bt (hscr h)
             then do { line \<leftarrow> idx (Buffer (hscr h)) tp; Some (h\<lparr>history := pushTop line (history h)\<rparr>) }
             else Some h);
       onScreen Index h })"

definition reverseIndexInternal :: "HistoryScreen \<Rightarrow> HistoryScreen option" where
  "reverseIndexInternal h =
    (case scrollRegion (hscr h) of (tp, bt) \<Rightarrow> do {
       h \<leftarrow> (if row (hscr h) = tp \<and> scrollbackEligible tp bt (hscr h)
             then do { line \<leftarrow> idx (Buffer (hscr h)) bt;
                       Some (h\<lparr>history := (history h)\<lparr>HBottom := fst (dequeAppend line (HBottom (history h)))\<rparr>\<rparr>) }
             else Some h);
       onScreen ReverseIndex h })"

definition historyCarriageReturn :: "HistoryScreen \<Rightarrow> HistoryScreen option" where
  "historyCarriageReturn = aroundEvent (onScreen (Some \<circ> CarriageReturn))"

definition historyLineFeed :: "HistoryScreen \<Rightarrow> HistoryScreen option" where
  "historyLineFeed = aroundEvent (\<lambda>h. do {
     h \<leftarrow> indexInternal h;
     if isModeSet (hscr h) ModeLNM then historyCarriageReturn h else Some h })"

definition historyReset :: "HistoryScreen \<Rightarrow> HistoryScreen option" where
  "historyReset = aroundEvent (\<lambda>h. do {
     h \<leftarrow> onScreen Reset h; Some (h\<lparr>history := resetHistory (history h)\<rparr>) })"

definition historyEraseInDisplay :: "int \<Rightarrow> bool \<Rightarrow> HistoryScreen \<Rightarrow> HistoryScreen option" where
  "historyEraseInDisplay how private = aroundEvent (\<lambda>h. do {
     h \<leftarrow> onScreen (EraseInDisplay how private) h;
     Some (if how = 3 then h\<lparr>history := resetHistory (history h)\<rparr> else h) })"

fun history_motion :: "textlib \<Rightarrow> motion \<Rightarrow> HistoryScreen \<Rightarrow> HistoryScreen option" where
  "history_motion E EvLineFeed h = historyLineFeed h"
| "history_motion E EvIndex h = aroundEvent indexInternal h"
| "history_motion E EvReverseIndex h = aroundEvent reverseIndexInternal h"
| "history_motion E EvSaveCursorDEC h = onScreen (screen_motion E EvSaveCursorDEC) h"
| "history_motion E EvRestoreCursorDEC h = onScreen (screen_motion E EvRestoreCursorDEC) h"
| "history_motion E e h = aroundEvent (onScreen (screen_motion E e)) h"

fun history_edit :: "textlib \<Rightarrow> edit \<Rightarrow> HistoryScreen \<Rightarrow> HistoryScreen option" where
  "history_edit E (EvEraseInDisplay how private rest) h = historyEraseInDisplay how private h"
| "history_edit E (EvSelectiveEraseRectangle a b c d) h = onScreen (screen_edit E (EvSelectiveEraseRectangle a b c d)) h"
| "history_edit E (EvEraseInDisplaySelective how) h = onScreen (screen_edit E (EvEraseInDisplaySelective how)) h"
| "history_edit E e h = aroundEvent (onScreen (screen_edit E e)) h"

fun history_setting :: "textlib \<Rightarrow> setting \<Rightarrow> HistoryScreen \<Rightarrow> HistoryScreen option" where
  "history_setting E EvReset h = historyReset h"
| "history_setting E (EvDebug a) h = onScreen (screen_setting E (EvDebug a)) h"
| "history_setting E (EvSetCursorStyle a) h = onScreen (screen_setting E (EvSetCursorStyle a)) h"
| "history_setting E (EvSetActiveStatusDisplay a) h = onScreen (screen_setting E (EvSetActiveStatusDisplay a)) h"
| "history_setting E e h = aroundEvent (onScreen (screen_setting E e)) h"

fun history_report :: "textlib \<Rightarrow> report \<Rightarrow> HistoryScreen \<Rightarrow> HistoryScreen option" where
  "history_report E EvReportTerminalVersion h = onScreen (screen_report E EvReportTerminalVersion) h"
| "history_report E (EvResetDynamicColor a b) h = onScreen (screen_report E (EvResetDynamicColor a b)) h"
| "history_report E e h = aroundEvent (onScreen (screen_report E e)) h"

fun history_handle :: "textlib \<Rightarrow> event \<Rightarrow> HistoryScreen \<Rightarrow> HistoryScreen option" where
  "history_handle E (Motion e) h = history_motion E e h"
| "history_handle E (Edit e) h = history_edit E e h"
| "history_handle E (Setting e) h = history_setting E e h"
| "history_handle E (Report e) h = history_report E e h"

section \<open>Sequence numbers and foreign rows\<close>

definition SetFirstSeq :: "64 word \<Rightarrow> HistoryScreen \<Rightarrow> HistoryScreen" where
  "SetFirstSeq n h = h\<lparr>history := (history h)\<lparr>FirstSeq := n\<rparr>\<rparr>"

definition SetTotalAdded :: "64 word \<Rightarrow> HistoryScreen \<Rightarrow> HistoryScreen" where
  "SetTotalAdded n h =
    (let H = (history h)\<lparr>TotalAdded := n\<rparr>
     in h\<lparr>history := (if items (HTop H) = [] then H\<lparr>FirstSeq := n\<rparr> else H)\<rparr>)"

definition Scrollback :: "HistoryScreen \<Rightarrow> int" where
  "Scrollback h = len (items (HTop (history h)))"

definition PrependHistory :: "Cell list list \<Rightarrow> HistoryScreen \<Rightarrow> HistoryScreen" where
  "PrependHistory lines h =
    (if lines = [] then h
     else (let H = history h; existing = len (items (HTop H)); room = dmax (HTop H) - existing;
               room = (if room < 0 then 0 else room);
               kept = (if len lines > room then room else len lines)
           in h\<lparr>history := H\<lparr>HTop := (HTop H)\<lparr>items := drop (nat (len lines - kept)) lines @ items (HTop H)\<rparr>,
                            FirstSeq := FirstSeq H - of_int kept\<rparr>\<rparr>))"

definition ResetHistory :: "HistoryScreen \<Rightarrow> HistoryScreen" where
  "ResetHistory h = h\<lparr>history := resetHistory (history h)\<rparr>"

section \<open>Resizing\<close>

definition rowBlank :: "Screen \<Rightarrow> Cell list \<Rightarrow> bool" where
  "rowBlank s line \<longleftrightarrow> list_all (\<lambda>c. c = defaultCell s) line"

text \<open>Blank rows below the cursor row are dropped first, at most \<open>drop\<close> of them.\<close>

fun trimBlankRows :: "Screen \<Rightarrow> int \<Rightarrow> nat \<Rightarrow> Cell grid \<Rightarrow> (nat \<times> Cell grid) option" where
  "trimBlankRows s r 0 g = Some (0, g)"
| "trimBlankRows s r (Suc d) g =
     (let lst = len g - 1 in
      if lst \<le> r then Some (Suc d, g)
      else do { line \<leftarrow> idx g lst;
                if \<not> rowBlank s line then Some (Suc d, g) else trimBlankRows s r d (take (nat lst) g) })"

text \<open>The rest of the surplus scrolls into the history; the result is the rows kept and the cursor row.\<close>

definition shrinkRows :: "Screen \<Rightarrow> int \<Rightarrow> nat \<Rightarrow> Cell grid \<Rightarrow> History \<Rightarrow> (int \<times> Cell grid \<times> History) option" where
  "shrinkRows s r n g H = do {
     (d, g) \<leftarrow> trimBlankRows s r n g;
     H \<leftarrow> for_each (\<lambda>i H. do { line \<leftarrow> idx g i; Some (pushTop line H) }) [0..int d - 1] H;
     g \<leftarrow> slice g (int d) (len g);
     Some (if r \<ge> int d then r - int d else 0, g, H) }"

definition resizeInactiveBuffer :: "int \<Rightarrow> int \<Rightarrow> HistoryScreen \<Rightarrow> HistoryScreen option" where
  "resizeInactiveBuffer lines columns h =
    (let s = hscr h in
     if \<not> altActive s then
       Some (if altBuffer s \<noteq> []
             then h\<lparr>hscr := s\<lparr>altBuffer := makeBlankCells lines columns, altLineWrapped := Some Map.empty, altWrapNext := False\<rparr>\<rparr>
             else h)
     else do {
       (s, H) \<leftarrow> (if lines < len (altBuffer s) then do {
            (r, g, H) \<leftarrow> shrinkRows s (case altSavedCursor s of Some c \<Rightarrow> Row c | None \<Rightarrow> 0)
               (nat (len (altBuffer s) - lines)) (altBuffer s) (history h);
            Some (s\<lparr>altBuffer := g, altSavedCursor := map_option (\<lambda>c. c\<lparr>Row := r\<rparr>) (altSavedCursor s)\<rparr>, H) }
          else Some (s, history h));
       b \<leftarrow> fitRowsWidth columns (defaultCell s) (altBuffer s);
       let b = b @ replicate (nat (lines - len b)) (blankLine columns (defaultCell s));
       Some (h\<lparr>hscr := s\<lparr>altBuffer := b, altLineWrapped := Some Map.empty, altWrapNext := False\<rparr>, history := H\<rparr>) })"

definition historyResize :: "int \<Rightarrow> int \<Rightarrow> HistoryScreen \<Rightarrow> HistoryScreen option" where
  "historyResize lines0 columns0 h =
    (let lines = (if lines0 \<le> 0 then 1 else lines0);
         columns = (if columns0 \<le> 0 then 1 else columns0); s = hscr h in
     if Buffer s = [] then onScreen (Resize lines columns) h
     else if Lines s = lines \<and> Columns s = columns then Some h
     else do {
       (s, H) \<leftarrow> (if lines < Lines s then do {
            (r, g, H) \<leftarrow> shrinkRows s (row s) (nat (Lines s - lines)) (Buffer s) (history h);
            Some (atRow r (s\<lparr>Buffer := g\<rparr>), H) }
          else Some (s, history h));
       b \<leftarrow> fitRowsWidth columns (defaultCell s) (Buffer s);
       let b = (if lines > Lines s then b @ replicate (nat (lines - Lines s)) (blankLine columns (defaultCell s)) else b);
       h \<leftarrow> resizeInactiveBuffer lines columns (h\<lparr>hscr := s\<lparr>Buffer := b\<rparr>, history := H\<rparr>);
       let s = (hscr h)\<lparr>Lines := lines, Columns := columns\<rparr>;
       let s = (SetMargins [0, 0] s)\<lparr>leftMargin := 0\<rparr>;
       let s = (if col s \<ge> columns then atCol (columns - 1) s else s);
       Some (h\<lparr>hscr := markDirtyRange 0 (lines - 1) (s\<lparr>lineWrapped := Some Map.empty, wrapNext := False\<rparr>)\<rparr>) })"

end
