(* ===== verification/TeScrollback.thy ===== *)
theory TeScrollback
  imports TeHistory TeFeed
begin

text \<open>
  What the scrollback keeps: the invariant of a live history screen under every event and under
  resizing, the sequence numbers as positions in an append-only log, and paging back and forth.
\<close>

section \<open>The invariant\<close>

definition history_ok :: "History \<Rightarrow> bool" where
  "history_ok H \<longleftrightarrow>
    0 \<le> HSize H \<and> dmax (HTop H) = HSize H \<and> dmax (HBottom H) = HSize H \<and>
    len (items (HTop H)) \<le> HSize H \<and> len (items (HBottom H)) \<le> HSize H \<and>
    HSize H - Position H \<le> len (items (HBottom H)) \<and> 0 < Ratio H \<and> Ratio H \<le> 1"

text \<open>\<open>live\<close>: not paged back.\<close>

definition live :: "HistoryScreen \<Rightarrow> bool" where
  "live h \<longleftrightarrow> wf_screen (hscr h) \<and> history_ok (history h) \<and> Position (history h) = HSize (history h)"

lemma len_tl_append: "xs \<noteq> [] \<Longrightarrow> len (tl xs @ [x]) = len xs"
  by (cases xs) (auto simp: len_def)

lemma len_Cons_butlast: "xs \<noteq> [] \<Longrightarrow> len (x # butlast xs) = len xs"
  by (cases xs) (auto simp: len_def)

lemma dequeAppend_len:
  assumes "0 \<le> dmax d" "len (items d) \<le> dmax d"
  shows "dmax (fst (dequeAppend line d)) = dmax d" "len (items (fst (dequeAppend line d))) \<le> dmax d"
    "len (items d) \<le> len (items (fst (dequeAppend line d)))"
  using assms len_tl_append [of "items d" line]
  by (auto simp: dequeAppend_def, auto simp: len_def)

lemma retain_fields [simp]:
  "HBottom (retain line H) = HBottom H" "HSize (retain line H) = HSize H" "Position (retain line H) = Position H"
  "Ratio (retain line H) = Ratio H" "HTop (retain line H) = fst (dequeAppend line (HTop H))"
  "TotalAdded (retain line H) = TotalAdded H"
  by (simp_all add: retain_def split: prod.split)

lemma pushTop_fields [simp]:
  "HBottom (pushTop line H) = HBottom H" "HSize (pushTop line H) = HSize H" "Position (pushTop line H) = Position H"
  "Ratio (pushTop line H) = Ratio H" "HTop (pushTop line H) = fst (dequeAppend line (HTop H))"
  by (simp_all add: pushTop_def Let_def)

lemma retain_ok: "history_ok H \<Longrightarrow> history_ok (retain line H)"
  using dequeAppend_len [of "HTop H" line] by (auto simp: history_ok_def)

lemma pushTop_ok: "history_ok H \<Longrightarrow> history_ok (pushTop line H)"
  using dequeAppend_len [of "HTop H" line] by (auto simp: history_ok_def)

lemma resetHistory_ok: "history_ok H \<Longrightarrow> history_ok (resetHistory H)"
  by (simp add: history_ok_def resetHistory_def len_def)

lemma bottom_ok:
  "history_ok H \<Longrightarrow> history_ok (H\<lparr>HBottom := fst (dequeAppend line (HBottom H))\<rparr>)"
  using dequeAppend_len [of "HBottom H" line] by (auto simp: history_ok_def)

lemma wf_Hidden [simp]: "wf_screen (s\<lparr>Cursor := (Cursor s)\<lparr>Hidden := b\<rparr>\<rparr>) = wf_screen s"
  by (simp add: wf_screen_def)

lemma toLive_live: "HSize (history h) \<le> Position (history h) \<Longrightarrow> toLive h = Some h"
  by (subst toLive.simps) simp

lemma beforeEvent_live: "live h \<Longrightarrow> beforeEvent b h = Some h"
  by (simp add: beforeEvent_def live_def toLive_live)

lemma afterEvent_history [simp]: "history (afterEvent b h) = history h"
  by (simp add: afterEvent_def Let_def)

lemma wf_screen_region:
  assumes "wf_screen s" "scrollRegion s = (tp, bt)"
  shows "0 \<le> tp" "tp \<le> bt" "bt < Lines s" "len (Buffer s) = Lines s"
  using assms by (auto simp: wf_screen_def scrollRegion_def grid_ok_def len_def split: option.splits)

section \<open>What every handler keeps\<close>

lemma aroundEvent_of_live: "live h \<Longrightarrow> aroundEvent f h = map_option (afterEvent False) (f h)"
  by (cases "f h") (simp_all add: aroundEvent_def beforeEvent_live)

lemma afterEvent_Buffer [simp]: "Buffer (hscr (afterEvent False h)) = Buffer (hscr h)"
  by (simp add: afterEvent_def Let_def)

text \<open>
  The contract between an invariant and the handlers: an invariant of live screens that survives
  a change of the screen and the four changes of the queues survives every event.
\<close>

locale history_invariant =
  fixes I :: "HistoryScreen \<Rightarrow> bool"
  assumes is_live: "I h \<Longrightarrow> live h"
    and screen: "I h \<Longrightarrow> wf_screen s \<Longrightarrow> I (h\<lparr>hscr := s\<rparr>)"
    and pushed: "I h \<Longrightarrow> I (h\<lparr>history := pushTop line (history h)\<rparr>)"
    and below: "I h \<Longrightarrow> I (h\<lparr>history := (history h)\<lparr>HBottom := fst (dequeAppend line (HBottom (history h)))\<rparr>\<rparr>)"
    and cleared: "I h \<Longrightarrow> I (h\<lparr>history := resetHistory (history h)\<rparr>)"
begin

lemma wf: "I h \<Longrightarrow> wf_screen (hscr h)"
  using is_live by (simp add: live_def)

lemma afterEvent_keeps: "I h \<Longrightarrow> I (afterEvent False h)"
  using screen [of h] wf [of h] by (simp add: afterEvent_def Let_def)

lemma around_keeps: "I h \<Longrightarrow> returns I (f h) \<Longrightarrow> returns I (aroundEvent f h)"
  using beforeEvent_live [OF is_live] by (auto simp: aroundEvent_def returns_ex afterEvent_keeps)

lemma onScreen_keeps: "I h \<Longrightarrow> returns wf_screen (f (hscr h)) \<Longrightarrow> returns I (onScreen f h)"
  by (auto simp: onScreen_def returns_ex screen)

lemma index_keeps:
  assumes "I h"
  shows "returns I (indexInternal h)"
proof -
  obtain tp bt where r: "scrollRegion (hscr h) = (tp, bt)" by fastforce
  show ?thesis
    using wf_screen_region [OF wf [OF assms] r] wf [OF assms] assms unfolding indexInternal_def r
    by (auto simp: idx_in len_def intro!: onScreen_keeps returns_bind pushed Index_wf)
qed

lemma reverse_index_keeps:
  assumes "I h"
  shows "returns I (reverseIndexInternal h)"
proof -
  obtain tp bt where r: "scrollRegion (hscr h) = (tp, bt)" by fastforce
  show ?thesis
    using wf_screen_region [OF wf [OF assms] r] wf [OF assms] assms unfolding reverseIndexInternal_def r
    by (auto simp: idx_in len_def intro!: onScreen_keeps returns_bind below ReverseIndex_wf)
qed

lemma carriage_return_keeps: "I h \<Longrightarrow> returns I (historyCarriageReturn h)"
  unfolding historyCarriageReturn_def
  by (simp add: around_keeps onScreen_keeps wf CarriageReturn_wf)

lemma linefeed_keeps: "I h \<Longrightarrow> returns I (historyLineFeed h)"
  unfolding historyLineFeed_def
  by (rule around_keeps) (auto intro!: returns_bind [OF index_keeps] carriage_return_keeps)

lemma clearing_keeps:
  "I h \<Longrightarrow> returns I (historyReset h)" "I h \<Longrightarrow> returns I (historyEraseInDisplay how private h)"
  unfolding historyReset_def historyEraseInDisplay_def
  by (rule around_keeps; auto intro!: returns_bind [OF onScreen_keeps] cleared Reset_wf EraseInDisplay_wf wf)+

lemma wrapped_keeps: "I h \<Longrightarrow> returns wf_screen (f (hscr h)) \<Longrightarrow> returns I (aroundEvent (onScreen f) h)"
  by (intro around_keeps onScreen_keeps)

lemma handle_keeps:
  assumes "I h" "event_safe e"
  shows "returns I (history_handle E e h)"
proof (cases e)
  case (Motion m)
  then show ?thesis
    using assms(1) linefeed_keeps index_keeps reverse_index_keeps screen_motion_wf [OF wf [OF assms(1)], of E]
    by (cases m) (simp_all only: history_handle.simps history_motion.simps around_keeps wrapped_keeps onScreen_keeps)
next
  case (Edit d)
  then show ?thesis
    using assms(1) clearing_keeps screen_edit_wf [OF wf [OF assms(1)], of E]
    by (cases d) (simp_all only: history_handle.simps history_edit.simps wrapped_keeps onScreen_keeps)
next
  case (Setting t)
  then show ?thesis
    using assms clearing_keeps screen_setting_wf [OF wf [OF assms(1)], of t E]
    by (cases t) (simp_all only: history_handle.simps history_setting.simps wrapped_keeps onScreen_keeps)
next
  case (Report p)
  then show ?thesis
    using assms(1) screen_report_wf [OF wf [OF assms(1)], of E]
    by (cases p) (simp_all only: history_handle.simps history_report.simps wrapped_keeps onScreen_keeps)
qed

end

interpretation live: history_invariant live
proof
  fix h :: HistoryScreen and line
  assume h: "live h"
  show "live (h\<lparr>history := pushTop line (history h)\<rparr>)"
    "live (h\<lparr>history := (history h)\<lparr>HBottom := fst (dequeAppend line (HBottom (history h)))\<rparr>\<rparr>)"
    "live (h\<lparr>history := resetHistory (history h)\<rparr>)"
    using h by (simp_all add: live_def pushTop_ok bottom_ok resetHistory_ok, simp add: resetHistory_def)
qed (simp_all add: live_def)

section \<open>Sequence numbers\<close>

text \<open>
  The log of all rows that ever scrolled off explains the queue and the two counters: the queue
  holds the rows of the log from \<open>FirstSeq\<close> on, and \<open>TotalAdded\<close> is the length of the log.
\<close>

definition tracks :: "Cell list list \<Rightarrow> History \<Rightarrow> bool" where
  "tracks L H \<longleftrightarrow> (\<exists>k \<le> length L. items (HTop H) = drop k L \<and>
    FirstSeq H = word_of_nat k \<and> TotalAdded H = word_of_nat (length L))"

lemma tracks_push:
  assumes "tracks L H" "history_ok H" "0 < HSize H"
  shows "tracks (L @ [line]) (pushTop line H)"
proof -
  obtain k where k: "k \<le> length L" "items (HTop H) = drop k L" "FirstSeq H = word_of_nat k"
    "TotalAdded H = word_of_nat (length L)"
    using assms(1) by (auto simp: tracks_def)
  have m: "dmax (HTop H) = HSize H" "len (items (HTop H)) \<le> HSize H" using assms(2) by (auto simp: history_ok_def)
  show ?thesis
  proof (cases "len (items (HTop H)) = dmax (HTop H)")
    case True
    then have "k < length L" using m k assms(3) by (simp add: len_def)
    then have "tl (drop k L) @ [line] = drop (Suc k) (L @ [line])" by (simp add: drop_Suc tl_drop)
    then show ?thesis
      using True k m assms(3) \<open>k < length L\<close>
      by (auto simp: tracks_def pushTop_def retain_def dequeAppend_def intro!: exI [of _ "Suc k"])
  next
    case False
    then show ?thesis
      using k m assms(3) by (auto simp: tracks_def pushTop_def retain_def dequeAppend_def intro!: exI [of _ k])
  qed
qed

lemma tracks_reset: "tracks L H \<Longrightarrow> tracks L (resetHistory H)"
  by (auto simp: tracks_def resetHistory_def intro!: exI [of _ "length L"])

lemma tracks_bottom [simp]: "tracks L (H\<lparr>HBottom := d\<rparr>) = tracks L H"
  by (simp add: tracks_def)

text \<open>\<open>logged L\<close>: the log has grown from \<open>L\<close> only at its end.\<close>

definition logged :: "Cell list list \<Rightarrow> HistoryScreen \<Rightarrow> bool" where
  "logged L h \<longleftrightarrow> live h \<and> 0 < HSize (history h) \<and> (\<exists>M. tracks (L @ M) (history h))"

interpretation logged: history_invariant "logged L" for L
proof
  fix h :: HistoryScreen and line s
  assume h: "logged L h"
  then obtain M where M: "live h" "0 < HSize (history h)" "tracks (L @ M) (history h)" by (auto simp: logged_def)
  show "live h" by (rule M)
  show "wf_screen s \<Longrightarrow> logged L (h\<lparr>hscr := s\<rparr>)" using M live.screen [OF M(1)] by (auto simp: logged_def)
  have "tracks (L @ M @ [line]) (pushTop line (history h))"
    using tracks_push [OF M(3) _ M(2)] M(1) by (simp add: live_def)
  then show "logged L (h\<lparr>history := pushTop line (history h)\<rparr>)"
    using M live.pushed [OF M(1)] by (auto simp: logged_def)
  show "logged L (h\<lparr>history := (history h)\<lparr>HBottom := fst (dequeAppend line (HBottom (history h)))\<rparr>\<rparr>)"
    using M live.below [OF M(1)] by (auto simp: logged_def)
  show "logged L (h\<lparr>history := resetHistory (history h)\<rparr>)"
    using M live.cleared [OF M(1)] tracks_reset [OF M(3)] by (auto simp: logged_def) (simp add: resetHistory_def)
qed

section \<open>Resizing\<close>

lemma trimBlankRows_spec:
  "0 \<le> r \<Longrightarrow> \<exists>d g' B. trimBlankRows s r n g = Some (d, g') \<and> g = g' @ B \<and> list_all (rowBlank s) B \<and>
     length B + d = n \<and> (r < len g \<longrightarrow> r < len g')"
proof (induction n arbitrary: g)
  case (Suc n)
  show ?case
  proof (cases "len g - 1 \<le> r \<or> \<not> rowBlank s (last g)")
    case True
    then show ?thesis
      using Suc.prems
      by (cases "g = []") (auto simp: Let_def idx_def len_def last_conv_nth nat_diff_distrib intro!: exI [of _ "[]"])
  next
    case False
    then have ne: "g \<noteq> []" using Suc.prems by (auto simp: len_def)
    then have "nat (len g - 1) = length g - 1" by (cases g) (simp_all add: len_def)
    then have t: "take (nat (len g - 1)) g = butlast g" by (simp only: butlast_conv_take)
    have t2: "g = butlast g @ [last g]" using append_butlast_last_id [OF ne] by (rule sym)
    have i: "idx g (len g - 1) = Some (last g)"
      using ne by (simp add: idx_def len_def last_conv_nth nat_diff_distrib Suc_le_eq)
    obtain d g' B where IH: "trimBlankRows s r n (butlast g) = Some (d, g')" "butlast g = g' @ B"
      "list_all (rowBlank s) B" "length B + d = n" "r < len (butlast g) \<longrightarrow> r < len g'"
      using Suc.IH [OF Suc.prems, of "butlast g"] by blast
    have "len (butlast g) = len g - 1" using ne by (cases g) (simp_all add: len_def)
    with False have "r < len (butlast g)" by auto
    moreover have "g = g' @ (B @ [last g])" using IH(2) t2 by simp
    moreover have "trimBlankRows s r (Suc n) g = Some (d, g')"
      using False i IH(1) t by (simp add: Let_def)
    ultimately show ?thesis using False IH(3-5) by (intro exI [of _ d] exI [of _ g'] exI [of _ "B @ [last g]"]) auto
  qed
qed auto

lemma push_rows:
  "d \<le> length g \<Longrightarrow>
   for_each (\<lambda>i H. do { line \<leftarrow> idx g i; Some (pushTop line H) }) [0..int d - 1] H = Some (fold pushTop (take d g) H)"
proof (induction d arbitrary: H)
  case (Suc d)
  have "[0..int (Suc d) - 1] = [0..int d - 1] @ [int d]" by (simp add: upto_rec2)
  then show ?case using Suc by (simp add: for_each_append idx_in take_Suc_conv_app_nth)
qed simp

lemma shrinkRows_spec:
  assumes "0 \<le> r" "n < length g"
  shows "\<exists>d g' B. shrinkRows s r n g H = Some (if r \<ge> int d then r - int d else 0, drop d g', fold pushTop (take d g') H) \<and>
    g = g' @ B \<and> list_all (rowBlank s) B \<and> length B + d = n \<and> (r < len g \<longrightarrow> r < len g')"
proof -
  obtain d g' B where t: "trimBlankRows s r n g = Some (d, g')" "g = g' @ B" "list_all (rowBlank s) B"
    "length B + d = n" "r < len g \<longrightarrow> r < len g'"
    using trimBlankRows_spec [OF assms(1)] by blast
  have d: "d \<le> length g'" using t(2,4) assms(2) by simp
  have "slice g' (int d) (len g') = Some (drop d g')" using d by (simp add: slice_def len_def)
  then have "shrinkRows s r n g H = Some (if r \<ge> int d then r - int d else 0, drop d g', fold pushTop (take d g') H)"
    by (simp add: shrinkRows_def t(1) push_rows [OF d])
  with t show ?thesis by blast
qed

lemma fitRows_some: "1 \<le> columns \<Longrightarrow> fitRowsWidth columns blank g = Some (map (fit_row columns blank) g)"
  by (simp add: fitRowsWidth_eq fit_row_def)

lemma shrunk_grid:
  assumes "length g = nat lines" "1 \<le> lines" "1 \<le> columns"
  shows "grid_ok lines columns (map (fit_row columns blank) g)"
  using assms by (simp add: grid_ok_def fit_row_length)

lemma resizeInactive_spec:
  assumes wf: "wf_screen s0" and alt: "altBuffer (hscr h) = altBuffer s0" "altActive (hscr h) = altActive s0"
      "altSavedCursor (hscr h) = altSavedCursor s0"
      "altLineWrapped (hscr h) = altLineWrapped s0"
    and b: "1 \<le> lines" "1 \<le> columns"
  shows "\<exists>ab w n sc rows. resizeInactiveBuffer lines columns h =
      Some (h\<lparr>hscr := (hscr h)\<lparr>altBuffer := ab, altLineWrapped := w, altWrapNext := n, altSavedCursor := sc\<rparr>,
              history := fold pushTop rows (history h)\<rparr>) \<and>
    (ab \<noteq> [] \<longrightarrow> grid_ok lines columns ab \<and> w \<noteq> None) \<and> (altActive s0 \<longrightarrow> ab \<noteq> []) \<and>
    (\<forall>c. sc = Some c \<longrightarrow> 0 \<le> Row c \<and> 0 \<le> Col c) \<and> (\<not> altActive s0 \<longrightarrow> rows = [])"
proof (cases "altActive s0")
  case False
  have g: "grid_ok lines columns (makeBlankCells lines columns)"
    using b by (auto simp: makeBlankCells_def blankLine_def grid_ok_def)
  show ?thesis
  proof (cases "altBuffer s0 = []")
    case True
    with False alt wf show ?thesis
      by (intro exI [of _ "[]"] exI [of _ "altLineWrapped s0"] exI [of _ "altWrapNext (hscr h)"] exI [of _ "altSavedCursor s0"])
        (simp add: resizeInactiveBuffer_def Let_def wf_screen_def)
  next
    case ne: False
    with False alt wf g show ?thesis
      by (intro exI [of _ "makeBlankCells lines columns"] exI [of _ "Some Map.empty"] exI [of _ False] exI [of _ "altSavedCursor s0"] exI [of _ "[]"])
        (simp add: resizeInactiveBuffer_def Let_def wf_screen_def)
  qed
next
  case True
  define r where "r = (case altSavedCursor s0 of Some c \<Rightarrow> Row c | None \<Rightarrow> 0)"
  have g: "grid_ok (Lines s0) (Columns s0) (altBuffer s0)" "altBuffer s0 \<noteq> []" using wf True by (auto simp: wf_screen_def)
  have r: "0 \<le> r" "\<forall>c. altSavedCursor s0 = Some c \<longrightarrow> 0 \<le> Col c" using wf by (auto simp: r_def wf_screen_def split: option.split)
  obtain sc g' rows where st: "(if lines < len (altBuffer s0) then do {
            (r, g, H) \<leftarrow> shrinkRows (hscr h) r (nat (len (altBuffer s0) - lines)) (altBuffer s0) (history h);
            Some ((hscr h)\<lparr>altBuffer := g, altSavedCursor := map_option (\<lambda>c. c\<lparr>Row := r\<rparr>) (altSavedCursor s0)\<rparr>, H) }
          else Some (hscr h, history h)) =
      Some ((hscr h)\<lparr>altBuffer := g', altSavedCursor := sc\<rparr>, fold pushTop rows (history h))"
    and sc: "\<forall>c. sc = Some c \<longrightarrow> 0 \<le> Row c \<and> 0 \<le> Col c" and l: "length g' \<le> nat lines"
  proof (cases "lines < len (altBuffer s0)")
    case less: True
    then have n: "nat (len (altBuffer s0) - lines) < length (altBuffer s0)" using b by (simp add: len_def)
    obtain d g' B where sh: "shrinkRows (hscr h) r (nat (len (altBuffer s0) - lines)) (altBuffer s0) (history h) =
        Some (if r \<ge> int d then r - int d else 0, drop d g', fold pushTop (take d g') (history h))"
      "altBuffer s0 = g' @ B" "length B + d = nat (len (altBuffer s0) - lines)"
      using shrinkRows_spec [OF r(1) n, of "hscr h" "history h"] by blast
    have "length (drop d g') = nat lines" using sh(2,3) less b unfolding len_def by simp
    with less sh(1) r(2) show ?thesis
      by (intro that [where g' = "drop d g'" and sc = "map_option (\<lambda>c. c\<lparr>Row := if r \<ge> int d then r - int d else 0\<rparr>) (altSavedCursor s0)" and rows = "take d g'"]) auto
  next
    case ge: False
    have "hscr h = (hscr h)\<lparr>altBuffer := altBuffer s0, altSavedCursor := altSavedCursor s0\<rparr>"
      using alt by simp
    with ge wf show ?thesis
      by (intro that [where g' = "altBuffer s0" and sc = "altSavedCursor s0" and rows = "[]"]) (auto simp: len_def wf_screen_def)
  qed
  define ab where "ab = map (fit_row columns (defaultCell (hscr h))) g' @ replicate (nat (lines - len g')) (blankLine columns (defaultCell (hscr h)))"
  have d: "defaultCell ((hscr h)\<lparr>altBuffer := g', altSavedCursor := sc\<rparr>) = defaultCell (hscr h)" by (simp add: defaultCell_def defaultAttr_def isModeSet_def)
  have "grid_ok lines columns ab"
    using reshape_ok [of columns g' lines "defaultCell (hscr h)"] l b
    by (simp add: ab_def reshape_def len_def nat_diff_distrib)
  moreover have "ab \<noteq> []" using grid_ok_length [OF \<open>grid_ok lines columns ab\<close>] b by auto
  moreover have "resizeInactiveBuffer lines columns h =
      Some (h\<lparr>hscr := (hscr h)\<lparr>altBuffer := ab, altLineWrapped := Some Map.empty, altWrapNext := False, altSavedCursor := sc\<rparr>,
              history := fold pushTop rows (history h)\<rparr>)"
    using True st unfolding resizeInactiveBuffer_def Let_def alt r_def [symmetric]
    by (simp add: d fitRows_some b ab_def len_def)
  ultimately show ?thesis using sc True by blast
qed

lemma historyResize_spec:
  assumes wf: "wf_screen (hscr h)" and m: "ModeDECLRMM \<notin> Mode (hscr h)"
  shows "\<exists>t rows. historyResize lines columns h = Some (h\<lparr>hscr := t, history := fold pushTop rows (history h)\<rparr>) \<and>
    wf_screen t \<and> Lines t = max 1 lines \<and> Columns t = max 1 columns \<and>
    (\<not> altActive (hscr h) \<and> 1 \<le> lines \<and> lines \<le> Lines (hscr h) \<and> columns = Columns (hscr h) \<longrightarrow>
       (\<exists>B. Buffer (hscr h) = rows @ Buffer t @ B \<and> list_all (rowBlank (hscr h)) B))"
proof -
  define l where "l = max 1 lines"
  define c where "c = max 1 columns"
  define s where "s = hscr h"
  have me: "(if lines \<le> 0 then 1 else lines) = l" "(if columns \<le> 0 then 1 else columns) = c"
    by (auto simp: l_def c_def)
  have b: "1 \<le> l" "1 \<le> c" by (auto simp: l_def c_def)
  have wfs: "wf_screen s" "grid_ok (Lines s) (Columns s) (Buffer s)" "0 \<le> row s" "row s < Lines s"
    "int (length (Buffer s)) = Lines s" using wf by (auto simp: s_def wf_screen_def grid_ok_def)
  have ne: "Buffer s \<noteq> []" using wf_Buffer_ne [OF wfs(1)] .
  show ?thesis
  proof (cases "Lines s = l \<and> Columns s = c")
    case True
    then show ?thesis
      using wf ne unfolding historyResize_def Let_def me l_def [symmetric] c_def [symmetric] s_def [symmetric]
      by (intro exI [of _ s] exI [of _ "[]"]) (simp add: s_def)
  next
    case False
    obtain r g rows where st: "(if l < Lines s then do {
            (r, g, H) \<leftarrow> shrinkRows s (row s) (nat (Lines s - l)) (Buffer s) (history h);
            Some (atRow r (s\<lparr>Buffer := g\<rparr>), H) }
          else Some (s, history h)) = Some (atRow r (s\<lparr>Buffer := g\<rparr>), fold pushTop rows (history h))"
      and rg: "0 \<le> r" "r < min l (Lines s)" "int (length g) = min l (Lines s)"
      and parts: "l < Lines s \<longrightarrow> (\<exists>B. Buffer s = rows @ g @ B \<and> list_all (rowBlank s) B)"
    proof (cases "l < Lines s")
      case less: True
      then have n: "nat (Lines s - l) < length (Buffer s)" using b wfs(5) by linarith
      obtain d g' B where sh: "shrinkRows s (row s) (nat (Lines s - l)) (Buffer s) (history h) =
          Some (if row s \<ge> int d then row s - int d else 0, drop d g', fold pushTop (take d g') (history h))"
        "Buffer s = g' @ B" "length B + d = nat (Lines s - l)" "list_all (rowBlank s) B" "row s < len (Buffer s) \<longrightarrow> row s < len g'"
        using shrinkRows_spec [OF wfs(3) n, of s "history h"] by blast
      have "int (length (drop d g')) = l" using sh(2,3) n less b wfs(5) by simp
      moreover have "\<exists>Ba. g' @ B = take d g' @ drop d g' @ Ba \<and> list_all (rowBlank s) Ba"
        using sh(4) by (intro exI [of _ B]) simp
      ultimately show ?thesis
        using less sh wfs(3-5) b by (intro that [of "if row s \<ge> int d then row s - int d else 0" "drop d g'" "take d g'"]) (auto simp: len_def)
    next
      case ge: False
      have "s = atRow (row s) (s\<lparr>Buffer := Buffer s\<rparr>)" by (simp add: atRow_def)
      with ge wfs show ?thesis by (intro that [of "row s" "Buffer s" "[]"]) auto
    qed
    define bl where "bl = (if l > Lines s
      then map (fit_row c (defaultCell s)) g @ replicate (nat (l - Lines s)) (blankLine c (defaultCell s))
      else map (fit_row c (defaultCell s)) g)"
    define fin where "fin h = (let s = (hscr h)\<lparr>Lines := l, Columns := c\<rparr>;
       s = (SetMargins [0, 0] s)\<lparr>leftMargin := 0\<rparr>;
       s = (if col s \<ge> c then atCol (c - 1) s else s)
     in h\<lparr>hscr := markDirtyRange 0 (l - 1) (s\<lparr>lineWrapped := Some Map.empty, wrapNext := False\<rparr>)\<rparr>)" for h :: HistoryScreen
    have d: "defaultCell (atRow r (s\<lparr>Buffer := g\<rparr>)) = defaultCell s" "Lines (atRow r (s\<lparr>Buffer := g\<rparr>)) = Lines s"
      by (simp_all add: defaultCell_def defaultAttr_def isModeSet_def)
    have bl: "grid_ok l c bl"
      using rg(3) b fit_row_length [of c "defaultCell s"] wfs(5)
      by (auto simp: bl_def grid_ok_def blankLine_def)
    let ?h = "h\<lparr>hscr := (atRow r (s\<lparr>Buffer := g\<rparr>))\<lparr>Buffer := bl\<rparr>, history := fold pushTop rows (history h)\<rparr>"
    have alts: "altBuffer (hscr ?h) = altBuffer s" "altActive (hscr ?h) = altActive s"
      "altSavedCursor (hscr ?h) = altSavedCursor s" "altLineWrapped (hscr ?h) = altLineWrapped s"
      by (simp_all add: atRow_def)
    obtain ab w n sc rows' where alt: "resizeInactiveBuffer l c ?h =
      Some (?h\<lparr>hscr := (hscr ?h)\<lparr>altBuffer := ab, altLineWrapped := w, altWrapNext := n, altSavedCursor := sc\<rparr>,
              history := fold pushTop rows' (history ?h)\<rparr>)"
      and ab: "ab \<noteq> [] \<longrightarrow> grid_ok l c ab \<and> w \<noteq> None" "altActive s \<longrightarrow> ab \<noteq> []"
        "\<forall>c. sc = Some c \<longrightarrow> 0 \<le> Row c \<and> 0 \<le> Col c" "\<not> altActive s \<longrightarrow> rows' = []"
      using resizeInactive_spec [OF wfs(1) alts b] by blast
    define t0 where "t0 = (atRow r s)\<lparr>Buffer := bl, altBuffer := ab, altLineWrapped := w, altWrapNext := n,
      altSavedCursor := sc, Lines := l, Columns := c, Margins := None, leftMargin := 0\<rparr>"
    define t where "t = markDirtyRange 0 (l - 1)
      ((if col t0 \<ge> c then atCol (c - 1) t0 else t0)\<lparr>lineWrapped := Some Map.empty, wrapNext := False\<rparr>)"
    have "historyResize lines columns h = Some (h\<lparr>hscr := t, history := fold pushTop (rows @ rows') (history h)\<rparr>)"
    proof -
      have "historyResize lines columns h = resizeInactiveBuffer l c ?h \<bind> (\<lambda>h. Some (fin h))"
        using False ne unfolding historyResize_def Let_def me s_def [symmetric]
        by (auto simp: st d fitRows_some b bl_def fin_def Let_def)
      also have "\<dots> = Some (h\<lparr>hscr := t, history := fold pushTop (rows @ rows') (history h)\<rparr>)"
        unfolding alt by (simp add: fin_def t_def t0_def SetMargins_def first_param_def second_param_def atRow_def Let_def)
      finally show ?thesis .
    qed
    moreover have "wf_screen t" "Lines t = l" "Columns t = c" "Buffer t = bl"
    proof -
      define tc where "tc = (if col t0 \<ge> c then c - 1 else col t0)"
      have c: "0 \<le> tc" "tc < c" using b wfs(1) by (auto simp: tc_def t0_def atRow_def wf_screen_def)
      have t: "t = s\<lparr>Cursor := (Cursor s)\<lparr>Row := r, Col := tc\<rparr>, Buffer := bl, altBuffer := ab, altLineWrapped := w,
        altWrapNext := n, altSavedCursor := sc, Lines := l, Columns := c, Margins := None, leftMargin := 0,
        lineWrapped := Some Map.empty, wrapNext := False, Dirty := Dirty t\<rparr>"
        by (simp add: t_def t0_def tc_def atRow_def atCol_def markDirtyRange_def Let_def)
      show "Lines t = l" "Columns t = c" "Buffer t = bl" by (subst t, simp)+
      show "wf_screen t"
        by (subst t) (use wfs(1) bl ab b rg c m [folded s_def] in \<open>simp add: wf_screen_def\<close>)
    qed
    moreover have "\<exists>B. Buffer s = (rows @ rows') @ bl @ B \<and> list_all (rowBlank s) B"
      if "\<not> altActive s \<and> 1 \<le> lines \<and> lines \<le> Lines s \<and> columns = Columns s"
    proof -
      have "l < Lines s" "c = Columns s" using that False wf_Columns [OF wfs(1)] by (auto simp: l_def c_def)
      then obtain B where B: "Buffer s = rows @ g @ B" "list_all (rowBlank s) B" using parts by blast
      then have "\<forall>line \<in> set g. int (length line) = c"
        using wfs(2) \<open>c = Columns s\<close> by (simp add: grid_ok_def)
      then have "map (fit_row c (defaultCell s)) g = g"
        by (intro map_idI) (auto simp: fit_row_def len_def)
      with B ab(4) that \<open>l < Lines s\<close> show ?thesis by (simp add: bl_def)
    qed
    ultimately show ?thesis unfolding s_def [symmetric] l_def c_def
      by (intro exI [of _ t] exI [of _ "rows @ rows'"]) simp
  qed
qed


text \<open>
  Rows pushed one after the other: the queue holds the newest rows of the old ones and the pushed
  ones, as many as it has room for, and \<open>FirstSeq\<close> counts the rows that fell out at the front.
\<close>

lemma push_one:
  assumes "len (items (HTop H)) \<le> dmax (HTop H)"
  shows "items (HTop (pushTop line H)) = drop (Suc (length (items (HTop H))) - nat (dmax (HTop H))) (items (HTop H) @ [line])"
    "TotalAdded (pushTop line H) = TotalAdded H + 1" "dmax (HTop (pushTop line H)) = dmax (HTop H)"
    "FirstSeq (pushTop line H) = FirstSeq H +
      (if dmax (HTop H) = 0 then 0 else word_of_nat (Suc (length (items (HTop H))) - nat (dmax (HTop H))))"
  using assms(1) by (auto simp: pushTop_def retain_def dequeAppend_def len_def nat_eq_iff drop_Suc Suc_diff_le)

lemma push_many:
  assumes "len (items (HTop H)) \<le> dmax (HTop H)"
  defines "d \<equiv> (\<lambda>n. n - nat (dmax (HTop H)))"
  shows "items (HTop (fold pushTop rows H)) = drop (d (length (items (HTop H)) + length rows)) (items (HTop H) @ rows) \<and>
    TotalAdded (fold pushTop rows H) = TotalAdded H + word_of_nat (length rows) \<and>
    FirstSeq (fold pushTop rows H) = FirstSeq H +
      (if dmax (HTop H) = 0 then 0 else word_of_nat (d (length (items (HTop H)) + length rows))) \<and>
    dmax (HTop (fold pushTop rows H)) = dmax (HTop H)"
  using assms(1) unfolding d_def
proof (induction rows arbitrary: H)
  case (Cons line rows)
  define m its where "m = nat (dmax (HTop H))" and "its = items (HTop H)"
  have m: "length its \<le> m" "dmax (HTop H) = int m" using Cons.prems by (auto simp: m_def its_def len_def)
  note p = push_one [OF Cons.prems, of line, folded its_def, unfolded m(2) nat_int]
  have its1: "items (HTop (pushTop line H)) = drop (Suc (length its) - m) (its @ [line])" using p(1) by simp
  have IH: "items (HTop (fold pushTop rows (pushTop line H))) =
      drop (length (items (HTop (pushTop line H))) + length rows - m) (items (HTop (pushTop line H)) @ rows) \<and>
    TotalAdded (fold pushTop rows (pushTop line H)) = TotalAdded (pushTop line H) + word_of_nat (length rows) \<and>
    FirstSeq (fold pushTop rows (pushTop line H)) = FirstSeq (pushTop line H) +
      (if int m = 0 then 0 else word_of_nat (length (items (HTop (pushTop line H))) + length rows - m)) \<and>
    dmax (HTop (fold pushTop rows (pushTop line H))) = int m"
    using Cons.IH [of "pushTop line H"] m its1 unfolding p(3) by (simp add: len_def)
  show ?case
  proof (cases "length its < m")
    case True
    then have "items (HTop (pushTop line H)) = its @ [line]" using its1 by simp
    then show ?thesis
      using IH True p unfolding its_def [symmetric] m(2) by simp
  next
    case False
    then have e: "length its = m" using m by simp
    then have "items (HTop (pushTop line H)) = drop 1 (its @ [line])" using its1 by simp
    then show ?thesis
      using IH e p unfolding its_def [symmetric] m(2) by (cases its) (auto simp: drop_Cons')
  qed
qed (simp add: len_def nat_le_iff)

context history_invariant
begin

lemma pushes_keep: "I h \<Longrightarrow> I (h\<lparr>history := fold pushTop rows (history h)\<rparr>)"
proof (induction rows arbitrary: h)
  case (Cons line rows)
  from Cons.IH [OF pushed [OF Cons.prems]] show ?case by simp
qed simp

lemma resize_keeps:
  assumes "I h" "ModeDECLRMM \<notin> Mode (hscr h)"
  shows "returns I (historyResize lines columns h)"
proof -
  obtain t rows where "historyResize lines columns h = Some (h\<lparr>hscr := t, history := fold pushTop rows (history h)\<rparr>)"
    "wf_screen t" using historyResize_spec [OF wf [OF assms(1)] assms(2)] by blast
  moreover have "h\<lparr>hscr := t, history := H\<rparr> = h\<lparr>history := H, hscr := t\<rparr>" for H by simp
  ultimately show ?thesis using screen [OF pushes_keep [OF assms(1)]] by (simp only: returns_Some)
qed

end

section \<open>Line feeds\<close>

lemma Index_full:
  assumes wf: "wf_screen s" and "scrollRegion s = (0, Lines s - 1)" "horizontalMargins s = (0, Columns s - 1)"
    and "row s = Lines s - 1" "canScrollHorizontal s"
  shows "Index s = Some ((markDirtyRange 0 (Lines s - 1) (s\<lparr>wrapNext := False\<rparr>))\<lparr>Buffer :=
    tl (Buffer s) @ [blankLine (Columns s) (defaultCell s)]\<rparr>)"
proof -
  from Index_paints [OF assms] obtain t where t: "Index s = Some t"
    "paints ({0..Lines s - 1} \<times> {0..Columns s - 1}) (up_by 1 (Lines s - 1) (defaultCell s) (Buffer s))
       (markDirtyRange 0 (Lines s - 1) (s\<lparr>wrapNext := False\<rparr>)) t"
    by (auto simp: returns_ex)
  let ?g = "tl (Buffer s) @ [blankLine (Columns s) (defaultCell s)]"
  have g: "grid_ok (Lines s) (Columns s) (Buffer s)" "Buffer s \<noteq> []" "1 \<le> Columns s"
    using wf wf_Buffer_ne [OF wf] by (simp_all add: wf_screen_def)
  have "grid_ok (Lines s) (Columns s) ?g"
    using g by (cases "Buffer s") (auto simp: grid_ok_def blankLine_def)
  moreover have "painted (Lines s) (Columns s) ({0..Lines s - 1} \<times> {0..Columns s - 1})
      (up_by 1 (Lines s - 1) (defaultCell s) (Buffer s)) (Buffer s) (Buffer t)"
    using t(2) by (simp add: paints_def)
  moreover have "cell_at (Buffer t) y x = cell_at ?g y x" if "inside (Lines s) (Columns s) y x" for y x
  proof -
    have "cell_at (Buffer t) y x = (if y + 1 \<le> Lines s - 1 then cell_at (Buffer s) (y + 1) x else defaultCell s)"
      using painted_cell [OF calculation(2) that] that by (auto simp: up_by_def inside_def)
    moreover have "length (Buffer s) = nat (Lines s)" using grid_ok_length [OF g(1)] by simp
    ultimately show ?thesis
      using that g(2) by (auto simp: cell_at_def inside_def nth_append nth_tl blankLine_def nat_add_distrib Suc_le_eq)
  qed
  ultimately have "Buffer t = ?g" by (intro grid_eqI [OF painted_grid])
  moreover have "t = (markDirtyRange 0 (Lines s - 1) (s\<lparr>wrapNext := False\<rparr>))\<lparr>Buffer := Buffer t\<rparr>"
    using t(2) by (simp add: paints_def)
  ultimately show ?thesis using t(1) by simp
qed

lemma CarriageReturn_modes: "Mode (CarriageReturn s) = Mode s"
  by (simp add: CarriageReturn_def atCol_def Let_def)

section \<open>The history screen as a listener\<close>

text \<open>
  A panic of a live history screen is the panic of its screen: the state it leaves behind is the
  one before the call, because \<open>beforeEvent\<close> has nothing to do.
\<close>

definition historyListener :: "textlib \<Rightarrow> HistoryScreen listener" where
  "historyListener E =
    \<lparr>deliver = (\<lambda>e h. case history_handle E e h of Some t \<Rightarrow> Done t | None \<Rightarrow> Panicked h),
     selective = True, styles = True, statusLine = True, modeQuery = Some (\<lambda>m h. isModeSet (hscr h) m)\<rparr>"

lemma unsafe_event:
  "\<not> event_safe e \<Longrightarrow> \<exists>attrs p. e = Setting (EvSelectGraphicRendition attrs p)"
  by (cases e rule: event_safe.cases) auto

context history_invariant
begin

lemma handled_keeps:
  assumes "I h" "history_handle E e h = Some t"
  shows "I t"
proof (cases "event_safe e")
  case True
  then show ?thesis using handle_keeps [OF assms(1) True, of E] assms(2) by simp
next
  case False
  then obtain attrs p where e: "e = Setting (EvSelectGraphicRendition attrs p)" using unsafe_event by blast
  obtain s where "SelectGraphicRendition attrs p (hscr h) = Some s" "t = afterEvent False (h\<lparr>hscr := s\<rparr>)"
    using assms(2) beforeEvent_live [OF is_live [OF assms(1)]]
    by (auto simp: e aroundEvent_def onScreen_def bind_eq_Some_conv)
  moreover from this have "wf_screen s" using SGR_keeps_wf [OF wf [OF assms(1)]] by simp
  ultimately show ?thesis using afterEvent_keeps [OF screen [OF assms(1)]] by simp
qed

lemma listens: "I h \<Longrightarrow> outcome_ok I I (deliver (historyListener E) e h)"
  by (auto simp: historyListener_def split: option.split intro: handled_keeps)

end

interpretation scrolled: listener_contract "historyListener E" live live for E
  by unfold_locales (rule live.listens)

interpretation scroll_log: listener_contract "historyListener E" "logged L" "logged L" for E L
  by unfold_locales (rule logged.listens)

end
