(* ===== verification/TePaging.thy ===== *)
theory TePaging
  imports TeScrollback
begin

text \<open>
  \<open>PrevPage\<close> and \<open>NextPage\<close> in closed form, the loop that pages back to the live view, and one page
  back and forth.
\<close>

section \<open>The loops\<close>

lemma int_Suc_upto: "[a..int (Suc k) - 1] = (if a \<le> int k then [a..int k - 1] @ [int k] else [])"
  by (simp add: upto_rec2)

lemma shift_down:
  "mid \<le> k \<Longrightarrow> k \<le> length b \<Longrightarrow>
   for_each (\<lambda>r b. do { line \<leftarrow> idx b (r - int mid); upd b r line }) (rev [int mid..int k - 1]) b =
   Some (take mid b @ take (k - mid) b @ drop k b)"
proof (induction k arbitrary: b)
  case (Suc k)
  show ?case
  proof (cases "mid = Suc k")
    case False
    define b1 where "b1 = b[k := b ! (k - mid)]"
    have n: "nat (int k - int mid) = k - mid" using Suc.prems False by simp
    have "for_each (\<lambda>r b. do { line \<leftarrow> idx b (r - int mid); upd b r line }) (rev [int mid..int (Suc k) - 1]) b =
        for_each (\<lambda>r b. do { line \<leftarrow> idx b (r - int mid); upd b r line }) (rev [int mid..int k - 1]) b1"
      using Suc.prems False unfolding int_Suc_upto b1_def by (simp add: idx_def upd_def n)
    also have "\<dots> = Some (take mid b1 @ take (k - mid) b1 @ drop k b1)"
      using Suc.prems False by (intro Suc.IH) (auto simp: b1_def)
    also have "take mid b1 @ take (k - mid) b1 @ drop k b1 = take mid b @ take (Suc k - mid) b @ drop (Suc k) b"
      using Suc.prems False by (simp add: b1_def Suc_diff_le take_Suc_conv_app_nth drop_update_swap Cons_nth_drop_Suc [symmetric])
    finally show ?thesis .
  qed simp
qed simp

lemma shift_up:
  "mid + k \<le> length b \<Longrightarrow>
   for_each (\<lambda>r b. do { line \<leftarrow> idx b (r + int mid); upd b r line }) [0..int k - 1] b =
   Some (take k (drop mid b) @ drop k b)"
proof (induction k)
  case (Suc k)
  define b1 where "b1 = take k (drop mid b) @ drop k b"
  have l: "length b1 = length b" "length (take k (drop mid b)) = k" using Suc.prems by (simp_all add: b1_def)
  have "b1 ! (k + mid) = b ! (k + mid)" using Suc.prems l(2) by (simp add: b1_def nth_append)
  moreover have "b1[k := v] = take k (drop mid b) @ v # drop (Suc k) b" for v
    using Suc.prems l(2) by (simp add: b1_def list_update_append Cons_nth_drop_Suc [symmetric, of k b])
  moreover have "take (Suc k) (drop mid b) = take k (drop mid b) @ [b ! (k + mid)]"
    using Suc.prems by (simp add: take_Suc_conv_app_nth add.commute)
  moreover have "nat (int k + int mid) = k + mid" by simp
  ultimately show ?case
    using Suc l(1) unfolding int_Suc_upto b1_def [symmetric]
    by (simp add: for_each_append idx_def upd_def)
qed simp

lemma pop_rows:
  "k \<le> length (items (HTop H)) \<Longrightarrow> k \<le> length b \<Longrightarrow>
   for_each (\<lambda>r (b, H). case dequePop (HTop H) of (l, d) \<Rightarrow>
       do { b \<leftarrow> upd b r (case l of Some line \<Rightarrow> line | None \<Rightarrow> blank); Some (b, H\<lparr>HTop := d\<rparr>) })
     (rev [0..int k - 1]) (b, H) =
   Some (drop (length (items (HTop H)) - k) (items (HTop H)) @ drop k b,
         H\<lparr>HTop := (HTop H)\<lparr>items := take (length (items (HTop H)) - k) (items (HTop H))\<rparr>\<rparr>)"
proof (induction k arbitrary: b H)
  case (Suc k)
  define its where "its = items (HTop H)"
  have ne: "its \<noteq> []" "length its \<ge> Suc k" using Suc.prems by (auto simp: its_def)
  then obtain ys y where y: "its = ys @ [y]" by (metis append_butlast_last_id)
  then have l: "length ys \<ge> k" using ne by simp
  define H1 where "H1 = H\<lparr>HTop := (HTop H)\<lparr>items := ys\<rparr>\<rparr>"
  have pop: "dequePop (HTop H) = (Some y, (HTop H)\<lparr>items := ys\<rparr>)"
    using y by (simp add: dequePop_def its_def [symmetric])
  have "for_each (\<lambda>r (b, H). case dequePop (HTop H) of (l, d) \<Rightarrow>
       do { b \<leftarrow> upd b r (case l of Some line \<Rightarrow> line | None \<Rightarrow> blank); Some (b, H\<lparr>HTop := d\<rparr>) })
     (rev [0..int (Suc k) - 1]) (b, H) =
    for_each (\<lambda>r (b, H). case dequePop (HTop H) of (l, d) \<Rightarrow>
       do { b \<leftarrow> upd b r (case l of Some line \<Rightarrow> line | None \<Rightarrow> blank); Some (b, H\<lparr>HTop := d\<rparr>) })
     (rev [0..int k - 1]) (b[k := y], H1)"
    using Suc.prems unfolding int_Suc_upto by (simp add: pop upd_def H1_def)
  also have "\<dots> = Some (drop (length ys - k) ys @ drop k (b[k := y]), H1\<lparr>HTop := (HTop H1)\<lparr>items := take (length ys - k) ys\<rparr>\<rparr>)"
    using Suc.IH [of H1 "b[k := y]"] l Suc.prems by (simp add: H1_def)
  finally show ?case
    using l y Suc.prems unfolding its_def [symmetric]
    by (simp add: H1_def Suc_diff_le Cons_nth_drop_Suc [symmetric] drop_update_swap)
qed simp

lemma pop_left_rows:
  "k \<le> length (items (HBottom H)) \<Longrightarrow> a + k \<le> length b \<Longrightarrow>
   for_each (\<lambda>r (b, H). case dequePopLeft (HBottom H) of (l, d) \<Rightarrow>
       do { b \<leftarrow> upd b r (case l of Some line \<Rightarrow> line | None \<Rightarrow> blank); Some (b, H\<lparr>HBottom := d\<rparr>) })
     [int a..int a + int k - 1] (b, H) =
   Some (take a b @ take k (items (HBottom H)) @ drop (a + k) b,
         H\<lparr>HBottom := (HBottom H)\<lparr>items := drop k (items (HBottom H))\<rparr>\<rparr>)"
proof (induction k arbitrary: a b H)
  case (Suc k)
  obtain y ys where y: "items (HBottom H) = y # ys" using Suc.prems by (cases "items (HBottom H)") auto
  have e: "[int a..int a + int (Suc k) - 1] = int a # [int (Suc a)..int (Suc a) + int k - 1]"
    by (subst upto_rec1) (simp_all add: add.commute)
  define H1 where "H1 = H\<lparr>HBottom := (HBottom H)\<lparr>items := ys\<rparr>\<rparr>"
  show ?case
    using Suc.IH [of H1 "Suc a" "b[a := y]"] Suc.prems y unfolding e
    by (simp add: dequePopLeft_def upd_def H1_def take_Suc_conv_app_nth)
qed simp

lemma retain_rows:
  "d \<le> length g \<Longrightarrow>
   for_each (\<lambda>i H. do { line \<leftarrow> idx g i; Some (retain line H) }) [0..int d - 1] H = Some (fold retain (take d g) H)"
proof (induction d arbitrary: H)
  case (Suc d)
  then show ?case unfolding int_Suc_upto by (simp add: for_each_append idx_in take_Suc_conv_app_nth)
qed simp

lemma prepend_rows:
  "a \<le> k \<Longrightarrow> k \<le> length g \<Longrightarrow> len (items (HBottom H)) + int (k - a) \<le> dmax (HBottom H) \<Longrightarrow>
   for_each (\<lambda>r H. do { line \<leftarrow> idx g r; Some (H\<lparr>HBottom := dequePrepend line (HBottom H)\<rparr>) }) (rev [int a..int k - 1]) H =
   Some (H\<lparr>HBottom := (HBottom H)\<lparr>items := drop a (take k g) @ items (HBottom H)\<rparr>\<rparr>)"
proof (induction k arbitrary: H)
  case (Suc k)
  show ?case
  proof (cases "a = Suc k")
    case False
    have "dequePrepend (g ! k) (HBottom H) = (HBottom H)\<lparr>items := g ! k # items (HBottom H)\<rparr>"
      using Suc.prems False by (auto simp: dequePrepend_def len_def)
    moreover have "drop a (take (Suc k) g) = drop a (take k g) @ [g ! k]"
      using Suc.prems False by (simp add: take_Suc_conv_app_nth)
    moreover have "int (Suc (k - a)) = int (Suc k - a)" using Suc.prems False by simp
    ultimately show ?thesis
      using Suc.IH [of "H\<lparr>HBottom := (HBottom H)\<lparr>items := g ! k # items (HBottom H)\<rparr>\<rparr>"] Suc.prems False
      unfolding int_Suc_upto by (simp add: idx_in len_def)
  qed (use Suc.prems in simp)
qed simp

lemma retain_many:
  assumes "len (items (HTop H)) + len rows \<le> dmax (HTop H)"
  shows "fold retain rows H = H\<lparr>HTop := (HTop H)\<lparr>items := items (HTop H) @ rows\<rparr>\<rparr>"
  using assms
proof (induction rows arbitrary: H)
  case (Cons line rows)
  have "retain line H = H\<lparr>HTop := (HTop H)\<lparr>items := items (HTop H) @ [line]\<rparr>\<rparr>"
    using Cons.prems by (auto simp: retain_def dequeAppend_def len_def)
  with Cons show ?case by (simp add: len_def)
qed simp

lemma pageRows_bounds:
  assumes "0 < Ratio (history h)" "Ratio (history h) \<le> 1" "1 \<le> Lines (hscr h)" "items d \<noteq> []"
  shows "1 \<le> pageRows h d" "pageRows h d \<le> Lines (hscr h)" "pageRows h d \<le> len (items d)"
proof -
  have "0 < rat_of_int (Lines (hscr h)) * Ratio (history h)" using assms by simp
  then have c: "1 \<le> \<lceil>rat_of_int (Lines (hscr h)) * Ratio (history h)\<rceil>" by (simp add: one_le_ceiling)
  have "rat_of_int (Lines (hscr h)) * Ratio (history h) \<le> rat_of_int (Lines (hscr h)) * 1"
    using assms by (intro mult_left_mono) auto
  then have "\<lceil>rat_of_int (Lines (hscr h)) * Ratio (history h)\<rceil> \<le> Lines (hscr h)" by (simp add: ceiling_le_iff)
  moreover have "1 \<le> len (items d)" using assms(4) by (cases "items d") (auto simp: len_def)
  ultimately show "1 \<le> pageRows h d" "pageRows h d \<le> Lines (hscr h)" "pageRows h d \<le> len (items d)"
    using c by (simp_all add: pageRows_def)
qed

lemma PrevPage_form:
  assumes p: "Lines (hscr h) < Position (history h)" "items (HTop (history h)) \<noteq> []"
    and b: "int (length (Buffer (hscr h))) = Lines (hscr h)" "int mid = pageRows h (HTop (history h))"
      "int mid \<le> Lines (hscr h)" "mid \<le> length (items (HTop (history h)))"
    and room: "len (items (HBottom (history h))) + int mid \<le> dmax (HBottom (history h))"
  defines "s \<equiv> hscr h" and "H \<equiv> history h" and "n \<equiv> length (Buffer (hscr h))"
    and "t \<equiv> items (HTop (history h))"
  shows "PrevPage h = Some (afterEvent True (h\<lparr>
    hscr := markDirtyRange 0 (Lines s - 1) (s\<lparr>Buffer := drop (length t - mid) t @ take (n - mid) (Buffer s)\<rparr>),
    history := H\<lparr>HBottom := (HBottom H)\<lparr>items := drop (n - mid) (Buffer s) @ items (HBottom H)\<rparr>,
      Position := Position H - int mid, HTop := (HTop H)\<lparr>items := take (length t - mid) t\<rparr>\<rparr>\<rparr>))"
proof -
  have n: "Lines (hscr h) = int n" "mid \<le> n" using b by (simp_all add: n_def)
  have e: "int n - int mid = int (n - mid)" using n by simp
  have n': "Lines s = int n" using n(1) by (simp add: s_def)
  have ls: "n = length (Buffer s)" by (simp add: n_def s_def)
  define H1 where "H1 = H\<lparr>HBottom := (HBottom H)\<lparr>items := drop (n - mid) (Buffer s) @ items (HBottom H)\<rparr>\<rparr>"
  have 1: "for_each (\<lambda>r H. do { line \<leftarrow> idx (Buffer s) r; Some (H\<lparr>HBottom := dequePrepend line (HBottom H)\<rparr>) })
      (rev [int n - int mid..int n - 1]) H = Some H1"
    using prepend_rows [of "n - mid" n "Buffer s" H] n room by (simp add: e ls H_def H1_def)
  have 2: "for_each (\<lambda>r b. do { line \<leftarrow> idx b (r - int mid); upd b r line }) (rev [int mid..int n - 1]) (Buffer s) =
      Some (take mid (Buffer s) @ take (n - mid) (Buffer s))"
    using shift_down [OF n(2), of "Buffer s"] by (simp add: ls)
  have 3: "for_each (\<lambda>r (b, H). case dequePop (HTop H) of (l, d) \<Rightarrow>
       do { b \<leftarrow> upd b r (case l of Some line \<Rightarrow> line | None \<Rightarrow> blankLine (Columns s) (defaultCell s)); Some (b, H\<lparr>HTop := d\<rparr>) })
     (rev [0..int mid - 1]) (take mid (Buffer s) @ take (n - mid) (Buffer s), H1\<lparr>Position := Position H1 - int mid\<rparr>) =
     Some (drop (length t - mid) t @ take (n - mid) (Buffer s),
       H1\<lparr>Position := Position H1 - int mid, HTop := (HTop H)\<lparr>items := take (length t - mid) t\<rparr>\<rparr>)"
    using pop_rows [of mid "H1\<lparr>Position := Position H1 - int mid\<rparr>" "take mid (Buffer s) @ take (n - mid) (Buffer s)"
        "blankLine (Columns s) (defaultCell s)"] b(4) n
    by (simp add: H1_def H_def t_def ls)
  have pr: "pageRows h (HTop H) = int mid" using b(2) by (simp add: H_def)
  show ?thesis
    using p unfolding PrevPage_def Let_def s_def [symmetric] H_def [symmetric] n' pr
    by (simp add: 1 2 3) (simp add: H1_def)
qed

lemma fold_retain_fields [simp]:
  "HBottom (fold retain rows H) = HBottom H" "HSize (fold retain rows H) = HSize H" "Position (fold retain rows H) = Position H"
  "Ratio (fold retain rows H) = Ratio H"
  by (induction rows arbitrary: H) simp_all

lemma NextPage_form:
  assumes p: "Position (history h) < HSize (history h)" "items (HBottom (history h)) \<noteq> []"
    and b: "int (length (Buffer (hscr h))) = Lines (hscr h)" "int mid = pageRows h (HBottom (history h))"
      "int mid \<le> Lines (hscr h)" "mid \<le> length (items (HBottom (history h)))"
  defines "s \<equiv> hscr h" and "H \<equiv> history h" and "t \<equiv> items (HBottom (history h))"
  shows "NextPage h = Some (afterEvent True (h\<lparr>
    hscr := markDirtyRange 0 (Lines s - 1) (s\<lparr>Buffer := drop mid (Buffer s) @ take mid t\<rparr>),
    history := (fold retain (take mid (Buffer s)) H)\<lparr>Position := Position H + int mid,
      HBottom := (HBottom H)\<lparr>items := drop mid t\<rparr>\<rparr>\<rparr>))"
proof -
  define n where "n = length (Buffer s)"
  have n: "Lines (hscr h) = int n" "mid \<le> n" using b by (simp_all add: n_def s_def)
  have e: "int n - int mid = int (n - mid)" using n by simp
  have n': "Lines s = int n" using n(1) by (simp add: s_def)
  define H1 where "H1 = fold retain (take mid (Buffer s)) H"
  have H1: "HBottom H1 = HBottom H" "Position H1 = Position H"
    by (simp_all add: H1_def)
  have 1: "for_each (\<lambda>r H. do { line \<leftarrow> idx (Buffer s) r; Some (retain line H) }) [0..int mid - 1] H = Some H1"
    using retain_rows [of mid "Buffer s" H] n by (simp add: H1_def n_def)
  have 2: "for_each (\<lambda>r b. do { line \<leftarrow> idx b (r + int mid); upd b r line }) [0..int n - int mid - 1] (Buffer s) =
      Some (drop mid (Buffer s) @ drop (n - mid) (Buffer s))"
    using shift_up [of mid "n - mid" "Buffer s"] n(2) unfolding e by (simp add: n_def)
  have 3: "for_each (\<lambda>r (b, H). case dequePopLeft (HBottom H) of (l, d) \<Rightarrow>
       do { b \<leftarrow> upd b r (case l of Some line \<Rightarrow> line | None \<Rightarrow> blankLine (Columns s) (defaultCell s)); Some (b, H\<lparr>HBottom := d\<rparr>) })
     [int n - int mid..int n - 1] (drop mid (Buffer s) @ drop (n - mid) (Buffer s), H1\<lparr>Position := Position H1 + int mid\<rparr>) =
     Some (drop mid (Buffer s) @ take mid t, H1\<lparr>Position := Position H + int mid, HBottom := (HBottom H)\<lparr>items := drop mid t\<rparr>\<rparr>)"
    using pop_left_rows [of mid "H1\<lparr>Position := Position H1 + int mid\<rparr>" "n - mid" "drop mid (Buffer s) @ drop (n - mid) (Buffer s)"
        "blankLine (Columns s) (defaultCell s)"] b(4) n(2)
    unfolding e by (simp add: H1 H_def t_def n_def of_nat_diff)
  have pr: "pageRows h (HBottom H) = int mid" using b(2) by (simp add: H_def)
  show ?thesis
    using p unfolding NextPage_def Let_def s_def [symmetric] H_def [symmetric] n' pr
    by (simp add: 1 2 3) (simp add: H1_def)
qed

lemma afterEvent_screen [simp]:
  "Lines (hscr (afterEvent b h)) = Lines (hscr h)" "Columns (hscr (afterEvent b h)) = Columns (hscr h)"
  "length (Buffer (hscr (afterEvent b h))) = length (Buffer (hscr h))"
  by (simp_all add: afterEvent_def Let_def)

text \<open>Paging back to the live view ends.\<close>

lemma fold_retain_ok: "history_ok H \<Longrightarrow> history_ok (fold retain rows H)"
  by (induction rows arbitrary: H) (simp_all add: retain_ok)

lemma NextPage_step:
  assumes ok: "history_ok (history h)" "1 \<le> Lines (hscr h)" "int (length (Buffer (hscr h))) = Lines (hscr h)"
    and p: "Position (history h) < HSize (history h)"
  obtains h' where "NextPage h = Some h'" "history_ok (history h')" "Lines (hscr h') = Lines (hscr h)"
    "int (length (Buffer (hscr h'))) = Lines (hscr h')" "HSize (history h') = HSize (history h)"
    "Position (history h) < Position (history h')"
proof -
  let ?t = "items (HBottom (history h))"
  have ne: "?t \<noteq> []" using ok(1) p by (auto simp: history_ok_def len_def)
  note pr = pageRows_bounds [of h "HBottom (history h)"]
  define mid where "mid = nat (pageRows h (HBottom (history h)))"
  have m: "int mid = pageRows h (HBottom (history h))" "1 \<le> mid" "int mid \<le> Lines (hscr h)" "mid \<le> length ?t"
    using pr ok ne by (auto simp: mid_def history_ok_def len_def)
  let ?H = "(fold retain (take mid (Buffer (hscr h))) (history h))\<lparr>Position := Position (history h) + int mid,
      HBottom := (HBottom (history h))\<lparr>items := drop mid ?t\<rparr>\<rparr>"
  have "history_ok ?H"
    using fold_retain_ok [OF ok(1), of "take mid (Buffer (hscr h))"] m
    by (auto simp: history_ok_def len_def)
  moreover have "mid \<le> length (Buffer (hscr h))" using m(3) ok(3) by linarith
  ultimately show ?thesis
    using NextPage_form [OF p ne ok(3) m(1,3,4)] m ok(3)
    by (intro that [OF NextPage_form [OF p ne ok(3) m(1,3,4)]]) auto
qed

lemma toLive_returns:
  assumes "history_ok (history h)" "1 \<le> Lines (hscr h)" "int (length (Buffer (hscr h))) = Lines (hscr h)"
  shows "returns (\<lambda>h'. HSize (history h') \<le> Position (history h')) (toLive h)"
  using assms
proof (induction "nat (HSize (history h) - Position (history h))" arbitrary: h rule: less_induct)
  case less
  show ?case
  proof (cases "Position (history h) < HSize (history h)")
    case True
    obtain h' where h': "NextPage h = Some h'" "history_ok (history h')" "Lines (hscr h') = Lines (hscr h)"
      "int (length (Buffer (hscr h'))) = Lines (hscr h')" "HSize (history h') = HSize (history h)"
      "Position (history h) < Position (history h')"
      using NextPage_step [OF less.prems True] .
    then have "returns (\<lambda>h'. HSize (history h') \<le> Position (history h')) (toLive h')"
      using less.prems True by (intro less.hyps) auto
    then show ?thesis using True h'(1) by (subst toLive.simps) simp
  next
    case False
    then show ?thesis by (simp add: toLive_live)
  qed
qed

text \<open>One page back and forth.\<close>

text \<open>
  Paging cuts the rows on the screen to its width, also the rows of the scrollback that are shown
  there for the moment.
\<close>

definition cutRow :: "int \<Rightarrow> Cell list \<Rightarrow> Cell list" where
  "cutRow c line = take (nat c) line"

lemma afterEvent_cut: "0 \<le> Columns (hscr h) \<Longrightarrow> Buffer (hscr (afterEvent True h)) = map (cutRow (Columns (hscr h))) (Buffer (hscr h))"
  by (auto simp: afterEvent_def Let_def cutRow_def len_def nat_le_iff)

lemma cut_fitting: "\<forall>line \<in> set b. len line \<le> c \<Longrightarrow> map (cutRow c) b = b"
  by (intro map_idI) (auto simp: cutRow_def len_def nat_le_iff)

lemma page_back_and_forth:
  assumes l: "live h" and b: "items (HBottom (history h)) = []" and p: "Lines (hscr h) < HSize (history h)"
    and ne: "items (HTop (history h)) \<noteq> []"
  shows "\<exists>h1 h2. PrevPage h = Some h1 \<and> Position (history h1) = HSize (history h) - pageRows h (HTop (history h)) \<and>
    NextPage h1 = Some h2 \<and> Buffer (hscr h2) = Buffer (hscr h) \<and>
    history h2 = (history h)\<lparr>HTop := (HTop (history h))\<lparr>items :=
      (let t = items (HTop (history h)); k = length t - nat (pageRows h (HTop (history h)))
       in take k t @ map (cutRow (Columns (hscr h))) (drop k t))\<rparr>\<rparr>"
proof -
  define s H where "s = hscr h" and "H = history h"
  define t where "t = items (HTop H)"
  have ok: "history_ok H" "Position H = HSize H" "1 \<le> Lines s" "int (length (Buffer s)) = Lines s"
    "\<forall>line \<in> set (Buffer s). len line \<le> Columns s" "0 \<le> Columns s"
    using l by (auto simp: live_def H_def s_def wf_screen_def grid_ok_def len_def)
  define mid where "mid = nat (pageRows h (HTop H))"
  have m: "int mid = pageRows h (HTop H)" "1 \<le> mid" "int mid \<le> Lines s" "mid \<le> length t"
    using pageRows_bounds [of h "HTop H"] ok ne unfolding history_ok_def H_def [symmetric] s_def [symmetric]
    by (auto simp: mid_def len_def t_def H_def)
  define n where "n = length (Buffer s)"
  have mn: "mid \<le> n" using m ok by (simp add: n_def)
  define k where "k = length t - mid"
  define old where "old = map (cutRow (Columns s)) (drop k t)"
  have old: "length old = mid" using m(4) by (simp add: old_def k_def)
  define b1 where "b1 = old @ take (n - mid) (Buffer s)"
  define H1 where "H1 = H\<lparr>HBottom := (HBottom H)\<lparr>items := drop (n - mid) (Buffer s)\<rparr>,
      Position := HSize H - int mid, HTop := (HTop H)\<lparr>items := take k t\<rparr>\<rparr>"
  define h1 where "h1 = afterEvent True (h\<lparr>hscr := markDirtyRange 0 (Lines s - 1) (s\<lparr>Buffer := drop k t @ take (n - mid) (Buffer s)\<rparr>), history := H1\<rparr>)"
  have 1: "PrevPage h = Some h1"
    using PrevPage_form [of h mid] p ne ok m b
    unfolding s_def [symmetric] H_def [symmetric] t_def [symmetric] n_def [symmetric] k_def [symmetric]
    by (simp add: h1_def H1_def history_ok_def len_def)
  have fit: "map (cutRow (Columns s)) (take (n - mid) (Buffer s)) = take (n - mid) (Buffer s)"
    using ok(5) by (intro cut_fitting) (auto dest: in_set_takeD)
  have h1: "Buffer (hscr h1) = b1" "Lines (hscr h1) = Lines s" "Columns (hscr h1) = Columns s" "history h1 = H1"
    unfolding h1_def b1_def old_def using ok(6) fit by (simp_all add: afterEvent_cut)
  have t1: "items (HBottom H1) = drop (n - mid) (Buffer s)" "length (drop (n - mid) (Buffer s)) = mid"
    using mn by (simp_all add: H1_def n_def)
  have p1: "pageRows h1 (HBottom H1) = int mid"
  proof -
    have "mid \<noteq> 0" "pageRows h1 (HBottom H1) = min (int mid) \<lceil>rat_of_int (Lines s) * Ratio H\<rceil>"
      using m(2) t1 h1 by (simp_all add: pageRows_def len_def H1_def)
    moreover have "int mid \<le> \<lceil>rat_of_int (Lines s) * Ratio H\<rceil>"
      using m(1) by (simp add: pageRows_def s_def H_def)
    ultimately show ?thesis by simp
  qed
  define H2 where "H2 = H\<lparr>HTop := (HTop H)\<lparr>items := take k t @ old\<rparr>\<rparr>"
  have lb: "int (length b1) = Lines s" using old mn ok(4) by (simp add: b1_def n_def of_nat_diff)
  have H2: "(fold retain (take mid b1) H1)\<lparr>Position := Position H1 + int mid, HBottom := (HBottom H1)\<lparr>items := drop mid (items (HBottom H1))\<rparr>\<rparr> = H2"
  proof -
    have "take mid b1 = old" using old by (simp add: b1_def)
    moreover have "len (items (HTop H1)) + len old \<le> dmax (HTop H1)"
      using ok(1) m(4) old by (simp add: H1_def history_ok_def t_def len_def k_def)
    ultimately have "fold retain (take mid b1) H1 = H1\<lparr>HTop := (HTop H)\<lparr>items := take k t @ old\<rparr>\<rparr>"
      using retain_many [of H1 old] by (simp add: H1_def)
    then show ?thesis using b ok(2) t1 m(2) by (simp add: H1_def H2_def H_def)
  qed
  have b2: "drop mid b1 @ take mid (items (HBottom H1)) = Buffer s"
    using old mn t1 by (simp add: b1_def n_def)
  have "NextPage h1 = Some (afterEvent True (h1\<lparr>
      hscr := markDirtyRange 0 (Lines s - 1) ((hscr h1)\<lparr>Buffer := Buffer s\<rparr>), history := H2\<rparr>))"
    using NextPage_form [of h1 mid] p1 t1 m mn lb unfolding h1 H2 b2
    by (simp add: H1_def)
  moreover have "Buffer (hscr (afterEvent True (h1\<lparr>
      hscr := markDirtyRange 0 (Lines s - 1) ((hscr h1)\<lparr>Buffer := Buffer s\<rparr>), history := H2\<rparr>))) = Buffer s"
    using ok(5,6) h1(3) by (subst afterEvent_cut) (auto simp: cut_fitting)
  moreover have "Position H1 = HSize H - pageRows h (HTop H)" using m(1) by (simp add: H1_def)
  ultimately show ?thesis
    using 1 h1(4) by (simp add: s_def H_def H2_def old_def t_def k_def mid_def Let_def)
qed

text \<open>Both do nothing but cut when there is nothing above or below.\<close>

lemma page_idle:
  assumes l: "live h" and "HSize (history h) \<le> Lines (hscr h) \<or> items (HTop (history h)) = []"
  shows "\<exists>h1 h2. PrevPage h = Some h1 \<and> history h1 = history h \<and>
    NextPage h1 = Some h2 \<and> Buffer (hscr h2) = Buffer (hscr h) \<and> history h2 = history h"
proof -
  have ok: "Position (history h) = HSize (history h)" "\<forall>line \<in> set (Buffer (hscr h)). len line \<le> Columns (hscr h)"
    "0 \<le> Columns (hscr h)"
    using l by (simp_all add: live_def wf_screen_def grid_ok_def len_def)
  have "PrevPage h = Some (afterEvent True h)" using assms ok(1) by (auto simp: PrevPage_def)
  moreover have "NextPage (afterEvent True h) = Some (afterEvent True (afterEvent True h))"
    using ok(1) by (simp add: NextPage_def)
  ultimately show ?thesis using ok(2,3) by (simp add: afterEvent_cut cut_fitting)
qed

end
