(* ===== verification/TeHidden.thy ===== *)
theory TeHidden
  imports TeScrollback
begin

text \<open>
  The fields of a screen that a program can write but that never influence what is displayed: the
  answers sent back, the name reported, the palettes and the selection. \<open>hid v s\<close> is the screen \<open>s\<close>
  with these fields replaced by those of \<open>v\<close>. Every operation that a replayed event can start
  commutes with \<open>hid v\<close>, and a query or palette operation changes nothing else.
\<close>

named_theorems hide \<open>operations commute with the replacement of the hidden fields\<close>

record hidden =
  hInput :: "string list"
  hName :: string
  hSelection :: "string \<rightharpoonup> string"
  hPalette :: "int \<rightharpoonup> string"
  hDynamic :: "int \<rightharpoonup> string"
  hSpecial :: "int \<rightharpoonup> string"
  hIndexed :: int

definition hid :: "hidden \<Rightarrow> Screen \<Rightarrow> Screen" where
  "hid v s = s\<lparr>processInput := hInput v, TerminalName := hName v, selectionData := hSelection v,
     colorPalette := hPalette v, dynamicColors := hDynamic v, specialColors := hSpecial v,
     indexedColors := hIndexed v\<rparr>"

lemma hid_reads [simp]:
  "Columns (hid v s) = Columns s" "Lines (hid v s) = Lines s" "Buffer (hid v s) = Buffer s"
  "Dirty (hid v s) = Dirty s" "Cursor (hid v s) = Cursor s" "Mode (hid v s) = Mode s"
  "Margins (hid v s) = Margins s" "Charset (hid v s) = Charset s" "G0 (hid v s) = G0 s" "G1 (hid v s) = G1 s"
  "TabStops (hid v s) = TabStops s" "Title (hid v s) = Title s" "IconName (hid v s) = IconName s"
  "cursorStyle (hid v s) = cursorStyle s" "charProtectionMode (hid v s) = charProtectionMode s"
  "statusDisplay (hid v s) = statusDisplay s" "Savepoints (hid v s) = Savepoints s"
  "SavedColumns (hid v s) = SavedColumns s" "lastDrawn (hid v s) = lastDrawn s"
  "leftMargin (hid v s) = leftMargin s" "rightMargin (hid v s) = rightMargin s"
  "lineWrapped (hid v s) = lineWrapped s" "wrapNext (hid v s) = wrapNext s"
  "savedModes (hid v s) = savedModes s" "titleHexInput (hid v s) = titleHexInput s"
  "titleHexOutput (hid v s) = titleHexOutput s" "conformanceLevel (hid v s) = conformanceLevel s"
  "conformanceExplicit (hid v s) = conformanceExplicit s" "titleStack (hid v s) = titleStack s"
  "iconStack (hid v s) = iconStack s" "windowPosX (hid v s) = windowPosX s"
  "windowPosY (hid v s) = windowPosY s" "windowPixelWidth (hid v s) = windowPixelWidth s"
  "windowPixelHeight (hid v s) = windowPixelHeight s" "screenPixelWidth (hid v s) = screenPixelWidth s"
  "screenPixelHeight (hid v s) = screenPixelHeight s" "charPixelWidth (hid v s) = charPixelWidth s"
  "charPixelHeight (hid v s) = charPixelHeight s" "windowIconified (hid v s) = windowIconified s"
  "altBuffer (hid v s) = altBuffer s" "altSavepoints (hid v s) = altSavepoints s"
  "altLineWrapped (hid v s) = altLineWrapped s" "altWrapNext (hid v s) = altWrapNext s"
  "altActive (hid v s) = altActive s" "altSavedCursor (hid v s) = altSavedCursor s"
  by (simp_all add: hid_def)

lemma hid_writes [hide]:
  "(hid v s)\<lparr>Columns := x0\<rparr> = hid v (s\<lparr>Columns := x0\<rparr>)"
  "(hid v s)\<lparr>Lines := x1\<rparr> = hid v (s\<lparr>Lines := x1\<rparr>)"
  "(hid v s)\<lparr>Buffer := x2\<rparr> = hid v (s\<lparr>Buffer := x2\<rparr>)"
  "(hid v s)\<lparr>Dirty := x3\<rparr> = hid v (s\<lparr>Dirty := x3\<rparr>)"
  "(hid v s)\<lparr>Cursor := x4\<rparr> = hid v (s\<lparr>Cursor := x4\<rparr>)"
  "(hid v s)\<lparr>Mode := x5\<rparr> = hid v (s\<lparr>Mode := x5\<rparr>)"
  "(hid v s)\<lparr>Margins := x6\<rparr> = hid v (s\<lparr>Margins := x6\<rparr>)"
  "(hid v s)\<lparr>Charset := x7\<rparr> = hid v (s\<lparr>Charset := x7\<rparr>)"
  "(hid v s)\<lparr>G0 := x8\<rparr> = hid v (s\<lparr>G0 := x8\<rparr>)"
  "(hid v s)\<lparr>G1 := x9\<rparr> = hid v (s\<lparr>G1 := x9\<rparr>)"
  "(hid v s)\<lparr>TabStops := x10\<rparr> = hid v (s\<lparr>TabStops := x10\<rparr>)"
  "(hid v s)\<lparr>Title := x11\<rparr> = hid v (s\<lparr>Title := x11\<rparr>)"
  "(hid v s)\<lparr>IconName := x12\<rparr> = hid v (s\<lparr>IconName := x12\<rparr>)"
  "(hid v s)\<lparr>cursorStyle := x13\<rparr> = hid v (s\<lparr>cursorStyle := x13\<rparr>)"
  "(hid v s)\<lparr>charProtectionMode := x14\<rparr> = hid v (s\<lparr>charProtectionMode := x14\<rparr>)"
  "(hid v s)\<lparr>statusDisplay := x15\<rparr> = hid v (s\<lparr>statusDisplay := x15\<rparr>)"
  "(hid v s)\<lparr>Savepoints := x16\<rparr> = hid v (s\<lparr>Savepoints := x16\<rparr>)"
  "(hid v s)\<lparr>SavedColumns := x17\<rparr> = hid v (s\<lparr>SavedColumns := x17\<rparr>)"
  "(hid v s)\<lparr>lastDrawn := x18\<rparr> = hid v (s\<lparr>lastDrawn := x18\<rparr>)"
  "(hid v s)\<lparr>leftMargin := x19\<rparr> = hid v (s\<lparr>leftMargin := x19\<rparr>)"
  "(hid v s)\<lparr>rightMargin := x20\<rparr> = hid v (s\<lparr>rightMargin := x20\<rparr>)"
  "(hid v s)\<lparr>lineWrapped := x21\<rparr> = hid v (s\<lparr>lineWrapped := x21\<rparr>)"
  "(hid v s)\<lparr>wrapNext := x22\<rparr> = hid v (s\<lparr>wrapNext := x22\<rparr>)"
  "(hid v s)\<lparr>savedModes := x23\<rparr> = hid v (s\<lparr>savedModes := x23\<rparr>)"
  "(hid v s)\<lparr>titleHexInput := x24\<rparr> = hid v (s\<lparr>titleHexInput := x24\<rparr>)"
  "(hid v s)\<lparr>titleHexOutput := x25\<rparr> = hid v (s\<lparr>titleHexOutput := x25\<rparr>)"
  "(hid v s)\<lparr>conformanceLevel := x26\<rparr> = hid v (s\<lparr>conformanceLevel := x26\<rparr>)"
  "(hid v s)\<lparr>conformanceExplicit := x27\<rparr> = hid v (s\<lparr>conformanceExplicit := x27\<rparr>)"
  "(hid v s)\<lparr>titleStack := x28\<rparr> = hid v (s\<lparr>titleStack := x28\<rparr>)"
  "(hid v s)\<lparr>iconStack := x29\<rparr> = hid v (s\<lparr>iconStack := x29\<rparr>)"
  "(hid v s)\<lparr>windowPosX := x30\<rparr> = hid v (s\<lparr>windowPosX := x30\<rparr>)"
  "(hid v s)\<lparr>windowPosY := x31\<rparr> = hid v (s\<lparr>windowPosY := x31\<rparr>)"
  "(hid v s)\<lparr>windowPixelWidth := x32\<rparr> = hid v (s\<lparr>windowPixelWidth := x32\<rparr>)"
  "(hid v s)\<lparr>windowPixelHeight := x33\<rparr> = hid v (s\<lparr>windowPixelHeight := x33\<rparr>)"
  "(hid v s)\<lparr>screenPixelWidth := x34\<rparr> = hid v (s\<lparr>screenPixelWidth := x34\<rparr>)"
  "(hid v s)\<lparr>screenPixelHeight := x35\<rparr> = hid v (s\<lparr>screenPixelHeight := x35\<rparr>)"
  "(hid v s)\<lparr>charPixelWidth := x36\<rparr> = hid v (s\<lparr>charPixelWidth := x36\<rparr>)"
  "(hid v s)\<lparr>charPixelHeight := x37\<rparr> = hid v (s\<lparr>charPixelHeight := x37\<rparr>)"
  "(hid v s)\<lparr>windowIconified := x38\<rparr> = hid v (s\<lparr>windowIconified := x38\<rparr>)"
  "(hid v s)\<lparr>altBuffer := x39\<rparr> = hid v (s\<lparr>altBuffer := x39\<rparr>)"
  "(hid v s)\<lparr>altSavepoints := x40\<rparr> = hid v (s\<lparr>altSavepoints := x40\<rparr>)"
  "(hid v s)\<lparr>altLineWrapped := x41\<rparr> = hid v (s\<lparr>altLineWrapped := x41\<rparr>)"
  "(hid v s)\<lparr>altWrapNext := x42\<rparr> = hid v (s\<lparr>altWrapNext := x42\<rparr>)"
  "(hid v s)\<lparr>altActive := x43\<rparr> = hid v (s\<lparr>altActive := x43\<rparr>)"
  "(hid v s)\<lparr>altSavedCursor := x44\<rparr> = hid v (s\<lparr>altSavedCursor := x44\<rparr>)"
  by (simp_all add: hid_def)


definition hidden_of :: "Screen \<Rightarrow> hidden" where
  "hidden_of s = \<lparr>hInput = processInput s, hName = TerminalName s, hSelection = selectionData s,
     hPalette = colorPalette s, hDynamic = dynamicColors s, hSpecial = specialColors s,
     hIndexed = indexedColors s\<rparr>"

lemma hid_of [simp]: "hid (hidden_of s) s = s" "hid v (hid w s) = hid v s"
  by (simp_all add: hid_def hidden_of_def)

lemma hid_hidden_writes [simp]:
  "hid v (s\<lparr>processInput := x1\<rparr>) = hid v s" "hid v (s\<lparr>TerminalName := x2\<rparr>) = hid v s"
  "hid v (s\<lparr>selectionData := x3\<rparr>) = hid v s" "hid v (s\<lparr>colorPalette := x4\<rparr>) = hid v s"
  "hid v (s\<lparr>dynamicColors := x5\<rparr>) = hid v s" "hid v (s\<lparr>specialColors := x6\<rparr>) = hid v s"
  "hid v (s\<lparr>indexedColors := x7\<rparr>) = hid v s"
  by (simp_all add: hid_def)

text \<open>How \<open>hid v\<close> moves through the control structure.\<close>

lemma hid_if [hide]: "(if b then hid v s else hid v t) = hid v (if b then s else t)"
  by simp

lemma hid_case [hide]:
  "(case m of None \<Rightarrow> hid v a | Some x \<Rightarrow> hid v (f x)) = hid v (case m of None \<Rightarrow> a | Some x \<Rightarrow> f x)"
  by (simp split: option.split)

text \<open>
  \<open>map_option (hid v)\<close> moves outwards, past every branch and past what follows a call; the equation
  that would evaluate it at a value is not used here.
\<close>

lemma hid_option [hide]:
  "Some (hid v a) = map_option (hid v) (Some a)"
  "(if b then map_option (hid v) x else map_option (hid v) y) = map_option (hid v) (if b then x else y)"
  "(case m of None \<Rightarrow> map_option (hid v) x | Some z \<Rightarrow> map_option (hid v) (f z)) =
    map_option (hid v) (case m of None \<Rightarrow> x | Some z \<Rightarrow> f z)"
  "(case m of None \<Rightarrow> None | Some z \<Rightarrow> map_option (hid v) (f z)) =
    map_option (hid v) (case m of None \<Rightarrow> None | Some z \<Rightarrow> f z)"
  "map_option (hid v) x \<bind> h = x \<bind> (\<lambda>s. h (hid v s))"
  "r \<bind> (\<lambda>z. map_option (hid v) (g z)) = map_option (hid v) (r \<bind> g)"
  by (auto split: option.split bind_split)

lemma hid_for_each:
  "(\<And>x s. x \<in> set xs \<Longrightarrow> f x (hid v s) = map_option (hid v) (f x s)) \<Longrightarrow>
   for_each f xs (hid v s) = map_option (hid v) (for_each f xs s)"
proof (induction xs arbitrary: s)
  case (Cons x xs)
  then show ?case by (cases "f x s") simp_all
qed simp

lemma hid_on_buffer [hide]: "on_buffer f (hid v s) = map_option (hid v) (on_buffer f s)"
  by (simp add: on_buffer_def hid_writes option.map_comp comp_def)

section \<open>Reads\<close>

lemma hid_readers [simp]:
  "isModeSet (hid v s) m = isModeSet s m"
  "defaultAttr (hid v s) = defaultAttr s"
  "defaultCell (hid v s) = defaultCell s"
  "bceAttr (hid v s) = bceAttr s"
  "scrollRegion (hid v s) = scrollRegion s"
  "horizontalMargins (hid v s) = horizontalMargins s"
  "canScrollHorizontal (hid v s) = canScrollHorizontal s"
  "stops (hid v s) = stops s"
  by (simp_all add: isModeSet_def defaultAttr_def defaultCell_def bceAttr_def scrollRegion_def
      horizontalMargins_def canScrollHorizontal_def stops_def cong: option.case_cong)

section \<open>Cursor, margins, tab stops\<close>

lemma hid_at [hide]:
  "atRow r (hid v s) = hid v (atRow r s)" "atCol c (hid v s) = hid v (atCol c s)"
  "markDirty r (hid v s) = hid v (markDirty r s)"
  "markDirtyRange l u (hid v s) = hid v (markDirtyRange l u s)"
  by (simp_all add: atRow_def atCol_def markDirty_def markDirtyRange_def hide)

lemma hid_ensure [hide]:
  "ensureHB (hid v s) = hid v (ensureHB s)" "ensureVB b (hid v s) = hid v (ensureVB b s)"
  by (simp_all add: ensureHB_def ensureVB_def Let_def case_prod_unfold hide
      cong: if_cong option.case_cong split del: if_split)

lemma hid_vertical [hide]:
  "CarriageReturn (hid v s) = hid v (CarriageReturn s)"
  "CursorUp n (hid v s) = hid v (CursorUp n s)" "CursorDown n (hid v s) = hid v (CursorDown n s)"
  "CursorForward n (hid v s) = hid v (CursorForward n s)"
  by (simp_all add: CarriageReturn_def CursorUp_def CursorDown_def CursorForward_def Let_def case_prod_unfold hide
      cong: if_cong option.case_cong split del: if_split)

lemma hid_absolute [hide]:
  "CursorPosition n (hid v s) = hid v (CursorPosition n s)"
  "CursorToColumn n (hid v s) = hid v (CursorToColumn n s)"
  "CursorToColumnAbsolute n (hid v s) = hid v (CursorToColumnAbsolute n s)"
  "CursorToLine n (hid v s) = hid v (CursorToLine n s)"
  by (simp_all add: CursorPosition_def CursorToColumn_def CursorToColumnAbsolute_def CursorToLine_def
      Let_def case_prod_unfold hide cong: if_cong option.case_cong split del: if_split)

lemma hid_lines [hide]:
  "CursorUp1 n (hid v s) = hid v (CursorUp1 n s)" "CursorDown1 n (hid v s) = hid v (CursorDown1 n s)"
  "EnsureCursor (hid v s) = hid v (EnsureCursor s)"
  by (simp_all add: CursorUp1_def CursorDown1_def EnsureCursor_def hide)

lemma hid_funpow: "(\<And>s. f (hid v s) = hid v (f s)) \<Longrightarrow> (f ^^ n) (hid v s) = hid v ((f ^^ n) s)"
  by (induction n) simp_all

lemma hid_moveLeft_step [hide]:
  "reverseWrapToPreviousLine l r a b (hid v s) = hid v (reverseWrapToPreviousLine l r a b s)"
  "moveLeft_step l r a b c (hid v s) = hid v (moveLeft_step l r a b c s)"
proof -
  show one: "reverseWrapToPreviousLine l r a b (hid v s) = hid v (reverseWrapToPreviousLine l r a b s)" for s
    by (simp add: reverseWrapToPreviousLine_def Let_def case_prod_unfold hide cong: if_cong split del: if_split)
  show "moveLeft_step l r a b c (hid v s) = hid v (moveLeft_step l r a b c s)"
    by (simp add: moveLeft_step_def Let_def one hide cong: if_cong split del: if_split)
qed

lemma hid_left [hide]:
  "moveLeft n b (hid v s) = hid v (moveLeft n b s)"
  "Backspace (hid v s) = hid v (Backspace s)" "CursorBack k (hid v s) = hid v (CursorBack k s)"
  "CursorBackTab k (hid v s) = hid v (CursorBackTab k s)"
  by (simp_all add: moveLeft_def Backspace_def CursorBack_def CursorBackTab_def case_prod_unfold hide hid_funpow
      Let_def)

lemma hid_margins [hide]:
  "SetMargins n (hid v s) = hid v (SetMargins n s)"
  "SetLeftRightMargins l r (hid v s) = hid v (SetLeftRightMargins l r s)"
  "ClearTabStop n (hid v s) = hid v (ClearTabStop n s)"
  "SetTabStop (hid v s) = map_option (hid v) (SetTabStop s)"
  by (simp_all add: SetMargins_def SetLeftRightMargins_def ClearTabStop_def SetTabStop_def Let_def hide
      cong: if_cong option.case_cong del: option.map split del: if_split)

lemma hid_save [hide]:
  "saveCursorState b (hid v s) = hid v (saveCursorState b s)"
  "SaveCursor (hid v s) = hid v (SaveCursor s)" "SaveCursorDEC (hid v s) = hid v (SaveCursorDEC s)"
  by (simp_all add: saveCursorState_def SaveCursor_def SaveCursorDEC_def Let_def hide)

section \<open>Scrolling and editing\<close>

lemma hid_index [hide]:
  "Index (hid v s) = map_option (hid v) (Index s)"
  "ReverseIndex (hid v s) = map_option (hid v) (ReverseIndex s)"
  by (simp_all add: Index_def ReverseIndex_def Let_def case_prod_unfold hide cong: if_cong del: option.map split del: if_split)

lemma hid_down [hide]: "down_no_scroll (hid v s) = hid v (down_no_scroll s)"
  by (simp add: down_no_scroll_def case_prod_unfold hide cong: if_cong del: option.map split del: if_split)

lemma hid_LineFeed [hide]:
  "LineFeed (hid v s) = map_option (hid v) (LineFeed s)"
  "NextLine (hid v s) = map_option (hid v) (NextLine s)"
  by (simp_all add: LineFeed_def NextLine_def Let_def case_prod_unfold hide cong: if_cong del: option.map split del: if_split)

lemma map_option_hid [hide]:
  "(\<And>s. f (hid v s) = hid v (f s)) \<Longrightarrow> map_option f (map_option (hid v) r) = map_option (hid v) (map_option f r)"
  by (cases r) simp_all

lemma hid_Tab [hide]: "Tab (hid v s) = map_option (hid v) (Tab s)"
  by (simp add: Tab_def Let_def hide cong: if_cong del: option.map split del: if_split)

lemma hid_tabs [hide]: "CursorForwardTab n (hid v s) = map_option (hid v) (CursorForwardTab n s)"
  by (simp add: CursorForwardTab_def hide hid_for_each)

lemma hid_scroll [hide]:
  "ScrollUp n (hid v s) = map_option (hid v) (ScrollUp n s)"
  "ScrollDown n (hid v s) = map_option (hid v) (ScrollDown n s)"
  "InsertLines n (hid v s) = map_option (hid v) (InsertLines n s)"
  "DeleteLines n (hid v s) = map_option (hid v) (DeleteLines n s)"
  by (simp_all add: ScrollUp_def ScrollDown_def InsertLines_def DeleteLines_def Let_def case_prod_unfold hide
      cong: if_cong del: option.map split del: if_split)

lemma hid_characters [hide]:
  "InsertCharacters n (hid v s) = map_option (hid v) (InsertCharacters n s)"
  "DeleteCharacters n (hid v s) = map_option (hid v) (DeleteCharacters n s)"
  "InsertColumns k (hid v s) = map_option (hid v) (InsertColumns k s)"
  "DeleteColumns k (hid v s) = map_option (hid v) (DeleteColumns k s)"
  by (simp_all add: InsertCharacters_def DeleteCharacters_def InsertColumns_def DeleteColumns_def Let_def
      case_prod_unfold hide cong: if_cong del: option.map split del: if_split)

lemma hid_shift [hide]:
  "shiftHorizontal l r t b d (hid v s) = map_option (hid v) (shiftHorizontal l r t b d s)"
  by (simp add: shiftHorizontal_def Let_def hide cong: if_cong del: option.map split del: if_split)

lemma hid_columns [hide]:
  "ForwardIndex (hid v s) = map_option (hid v) (ForwardIndex s)"
  "BackIndex (hid v s) = map_option (hid v) (BackIndex s)"
  by (simp_all add: ForwardIndex_def BackIndex_def case_prod_unfold hide cong: if_cong del: option.map split del: if_split)

section \<open>Erasing and rectangles\<close>

lemma hid_erase [hide]:
  "EraseCharacters n (hid v s) = map_option (hid v) (EraseCharacters n s)"
  "EraseInLine how b (hid v s) = map_option (hid v) (EraseInLine how b s)"
  by (simp_all add: EraseCharacters_def EraseInLine_def erasedCell_def Let_def case_prod_unfold hide
      cong: if_cong option.case_cong del: option.map split del: if_split)

lemma hid_display [hide]: "eraseInDisplay how b c (hid v s) = map_option (hid v) (eraseInDisplay how b c s)"
  by (simp add: eraseInDisplay_def erasedCell_def Let_def case_prod_unfold hide
      cong: if_cong option.case_cong del: option.map split del: if_split)

lemma hid_displays [hide]:
  "EraseInDisplay how b (hid v s) = map_option (hid v) (EraseInDisplay how b s)"
  "EraseInDisplaySelective how (hid v s) = map_option (hid v) (EraseInDisplaySelective how s)"
  by (simp_all add: EraseInDisplay_def EraseInDisplaySelective_def hide)

lemma hid_clip [simp]: "clipRect (hid v s) t l b r = clipRect s t l b r"
  by (simp add: clipRect_def Let_def case_prod_unfold cong: if_cong option.case_cong split del: if_split)

lemma hid_rectangles [hide]:
  "SelectiveEraseRectangle t l b r (hid v s) = map_option (hid v) (SelectiveEraseRectangle t l b r s)"
  "fillRectangle t l b r d (hid v s) = map_option (hid v) (fillRectangle t l b r d s)"
  "CopyRectangle t l b r dt dl (hid v s) = map_option (hid v) (CopyRectangle t l b r dt dl s)"
  by (simp_all add: SelectiveEraseRectangle_def fillRectangle_def CopyRectangle_def Let_def case_prod_unfold hide
      cong: if_cong option.case_cong del: option.map split del: if_split)

lemma hid_fill [hide]:
  "EraseRectangle t l b r (hid v s) = map_option (hid v) (EraseRectangle t l b r s)"
  "FillRectangle ch t l b r (hid v s) = map_option (hid v) (FillRectangle ch t l b r s)"
  by (simp_all add: EraseRectangle_def FillRectangle_def hide del: option.map)

lemma hid_alignment [hide]: "AlignmentDisplay (hid v s) = map_option (hid v) (AlignmentDisplay s)"
  by (simp add: AlignmentDisplay_def Let_def hide cong: if_cong option.case_cong del: option.map split del: if_split)

section \<open>Drawing\<close>

lemma hid_draw_reads [simp]:
  "translate (hid v s) d = translate s d" "drawLimit (hid v s) = drawLimit s"
  by (simp_all add: translate_def drawLimit_def cong: if_cong)

lemma hid_markWrapped [hide]: "markWrapped r (hid v s) = map_option (hid v) (markWrapped r s)"
  by (simp add: markWrapped_def hide cong: if_cong option.case_cong del: option.map split del: if_split)

lemma hid_on_row [hide]: "on_row r f (hid v s) = map_option (hid v) (on_row r f s)"
  by (simp add: on_row_def hide)

lemma hid_drawPrepare [hide]: "drawPrepare w (hid v s) = map_option (hid v) (drawPrepare w s)"
  by (simp add: drawPrepare_def Let_def hide cong: if_cong option.case_cong del: option.map split del: if_split)

lemma hid_drawAdvance [hide]: "drawAdvance c w l (hid v s) = map_option (hid v) (drawAdvance c w l s)"
  by (simp add: drawAdvance_def Let_def hide cong: if_cong option.case_cong del: option.map split del: if_split)

text \<open>\<open>drawPut\<close> and \<open>drawCluster\<close> also return whether to stop.\<close>

lemma hid_drawPut: "drawPut E c w (hid v s) = map_option (map_prod (hid v) id) (drawPut E c w s)"
  by (cases "idx (Buffer s) (row s)") (auto simp: drawPut_def hid_on_row option.map_comp comp_def)

lemma hid_drawCluster: "drawCluster E c (hid v s) = map_option (map_prod (hid v) id) (drawCluster E c s)"
proof (cases "drawPrepare (string_width E c) s")
  case (Some t)
  then show ?thesis
    by (cases "drawPut E c (string_width E c) t")
      (auto simp: drawCluster_def Let_def hide hid_drawPut option.map_comp comp_def)
qed (simp add: drawCluster_def Let_def hide)

lemma hid_drawLoop [hide]: "drawLoop E cs (hid v s) = map_option (hid v) (drawLoop E cs s)"
proof (induction cs arbitrary: s)
  case (Cons c cs)
  then show ?case by (cases "drawCluster E c s") (auto simp: hid_drawCluster)
qed simp

lemma hid_Draw [hide]: "Draw E d (hid v s) = map_option (hid v) (Draw E d s)"
  by (simp add: Draw_def hide del: option.map)

lemma hid_RepeatLast [hide]: "RepeatLast E n (hid v s) = map_option (hid v) (RepeatLast E n s)"
  by (simp add: RepeatLast_def Let_def hide hid_for_each del: option.map)

section \<open>Rendition, modes, resize\<close>

lemma hid_settings [hide]:
  "SelectGraphicRendition a b (hid v s) = map_option (hid v) (SelectGraphicRendition a b s)"
  "DefineCharset code mode (hid v s) = hid v (DefineCharset code mode s)"
  "ShiftIn (hid v s) = hid v (ShiftIn s)" "ShiftOut (hid v s) = hid v (ShiftOut s)"
  "StartProtectedArea (hid v s) = hid v (StartProtectedArea s)"
  "EndProtectedArea (hid v s) = hid v (EndProtectedArea s)"
  "SetCharacterProtection k (hid v s) = hid v (SetCharacterProtection k s)"
  "SetCursorStyle k (hid v s) = hid v (SetCursorStyle k s)"
  "SetActiveStatusDisplay k (hid v s) = hid v (SetActiveStatusDisplay k s)"
  by (simp_all add: SelectGraphicRendition_def DefineCharset_def ShiftIn_def ShiftOut_def StartProtectedArea_def
      EndProtectedArea_def SetCharacterProtection_def SetCursorStyle_def SetActiveStatusDisplay_def hide
      cong: if_cong option.case_cong del: option.map split del: if_split)

lemma hid_alt [hide]:
  "enterAltScreen a b c (hid v s) = hid v (enterAltScreen a b c s)"
  "exitAltScreen a b (hid v s) = hid v (exitAltScreen a b s)"
  by (simp_all add: enterAltScreen_def exitAltScreen_def Let_def hide cong: if_cong option.case_cong del: option.map split del: if_split)

lemma hid_setReverse [hide]: "setReverse b (hid v s) = map_option (hid v) (setReverse b s)"
  by (simp add: setReverse_def hide)

lemma hid_set_body:
  "(\<And>l c s. resize l c (hid v s) = map_option (hid v) (resize l c s)) \<Longrightarrow>
   applySetMode_body resize m b (hid v s) = map_option (hid v) (applySetMode_body resize m b s)"
  by (simp add: applySetMode_body_def Let_def hide cong: if_cong option.case_cong del: option.map split del: if_split)

lemma hid_reset_body:
  "(\<And>l c s. resize l c (hid v s) = map_option (hid v) (resize l c s)) \<Longrightarrow>
   (\<And>s. restoreDEC (hid v s) = map_option (hid v) (restoreDEC s)) \<Longrightarrow>
   applyResetMode_body resize restoreDEC m b (hid v s) = map_option (hid v) (applyResetMode_body resize restoreDEC m b s)"
  by (simp add: applyResetMode_body_def Let_def hide cong: if_cong option.case_cong del: option.map split del: if_split)

lemma hid_plain_modes [hide]:
  "setPlainMode m (hid v s) = map_option (hid v) (setPlainMode m s)"
  "resetPlainMode m (hid v s) = map_option (hid v) (resetPlainMode m s)"
  by (simp_all add: setPlainMode_def resetPlainMode_def hid_set_body hid_reset_body)

lemma hid_restore [hide]:
  "restoreCursorState b (hid v s) = map_option (hid v) (restoreCursorState b s)"
  by (simp add: restoreCursorState_def Let_def hide cong: if_cong del: option.map split del: if_split)

lemma hid_restores [hide]:
  "RestoreCursor (hid v s) = map_option (hid v) (RestoreCursor s)"
  "RestoreCursorDEC (hid v s) = map_option (hid v) (RestoreCursorDEC s)"
  by (simp_all add: RestoreCursor_def RestoreCursorDEC_def hide)

lemma hid_pixels [hide]:
  "charPixels (hid v s) = hid v (charPixels s)" "windowPixels (hid v s) = hid v (windowPixels s)"
  "screenPixels (hid v s) = hid v (screenPixels s)" "clampCursor l c (hid v s) = hid v (clampCursor l c s)"
  by (simp_all add: charPixels_def windowPixels_def screenPixels_def clampCursor_def Let_def hide
      cong: if_cong split del: if_split)

lemma hid_finishResize [hide]: "finishResize l c (hid v s) = hid v (finishResize l c s)"
  by (simp add: finishResize_def Let_def hide cong: if_cong split del: if_split)

lemma hid_Resize [hide]: "Resize l c (hid v s) = map_option (hid v) (Resize l c s)"
  by (simp add: Resize_def Let_def hide cong: if_cong option.case_cong del: option.map split del: if_split)

lemma hid_modes [hide]:
  "applySetMode m b (hid v s) = map_option (hid v) (applySetMode m b s)"
  "applyResetMode m b (hid v s) = map_option (hid v) (applyResetMode m b s)"
  by (simp_all add: applySetMode_def applyResetMode_def hid_set_body hid_reset_body hide)

lemma hid_mode_lists [hide]:
  "SetMode ms b (hid v s) = map_option (hid v) (SetMode ms b s)"
  "ResetMode ms b (hid v s) = map_option (hid v) (ResetMode ms b s)"
  "RestoreModes ms (hid v s) = map_option (hid v) (RestoreModes ms s)"
  by (simp_all add: SetMode_def ResetMode_def RestoreModes_def hid_for_each hide cong: if_cong option.case_cong del: option.map split del: if_split)

lemma hid_fold: "(\<And>x s. f x (hid v s) = hid v (f x s)) \<Longrightarrow> fold f xs (hid v s) = hid v (fold f xs s)"
  by (induction xs arbitrary: s) simp_all

lemma hid_SaveModes [hide]: "SaveModes ms (hid v s) = hid v (SaveModes ms s)"
  by (simp add: SaveModes_def hid_fold hide Let_def)

section \<open>Titles and windows\<close>

lemma hid_titles [hide]:
  "SetTitle t (hid v s) = hid v (SetTitle t s)" "SetIconName t (hid v s) = hid v (SetIconName t s)"
  "SetTitleMode ps b (hid v s) = hid v (SetTitleMode ps b s)"
  by (simp_all add: SetTitle_def SetIconName_def SetTitleMode_def applyTitleModes_def hid_fold hide
      cong: if_cong split del: if_split)

lemma hid_stacks [hide]:
  "popTitle (hid v s) = hid v (popTitle s)" "popIcon (hid v s) = hid v (popIcon s)"
  "pushTitle (hid v s) = hid v (pushTitle s)" "pushIcon (hid v s) = hid v (pushIcon s)"
  by (simp_all add: popTitle_def popIcon_def pushTitle_def pushIcon_def hide cong: if_cong split del: if_split)

lemma hid_windows [hide]:
  "windowTitles b k (hid v s) = hid v (windowTitles b k s)"
  "windowMove ps (hid v s) = hid v (windowMove ps s)"
  "windowPixelSize ps (hid v s) = hid v (windowPixelSize ps s)"
  by (simp_all add: windowTitles_def windowMove_def windowPixelSize_def Let_def hide
      cong: if_cong option.case_cong split del: if_split)

lemma hid_windowResize [hide]: "windowResize ps (hid v s) = map_option (hid v) (windowResize ps s)"
  by (auto simp: windowResize_def Let_def hid_Resize split: list.split)

section \<open>Operations that write a hidden field\<close>

text \<open>A screen with every hidden field emptied: what is displayed of it.\<close>

definition shown :: "Screen \<Rightarrow> Screen" where
  "shown = hid \<lparr>hInput = [], hName = '''', hSelection = Map.empty, hPalette = Map.empty, hDynamic = Map.empty,
     hSpecial = Map.empty, hIndexed = 0\<rparr>"

lemma shown_hid [simp]: "shown (hid v s) = shown s" "hid v (shown s) = hid v s" "shown (shown s) = shown s"
  by (simp_all add: shown_def)

lemma hid_wf [simp]: "wf_screen (hid v s) = wf_screen s"
  by (simp add: wf_screen_def)

lemma shown_reads [simp]:
  "wf_screen (shown s) = wf_screen s" "Buffer (shown s) = Buffer s" "Lines (shown s) = Lines s"
  "Columns (shown s) = Columns s" "Cursor (shown s) = Cursor s"
  by (simp_all add: shown_def)

lemma hid_resetFields: "shown (resetFields (hid v s)) = shown (resetFields s)"
proof -
  let ?w = "v\<lparr>hSelection := Map.empty, hPalette := Map.empty, hDynamic := Map.empty, hSpecial := Map.empty\<rparr>"
  have clear: "clearSettings (hid v t) = hid ?w (clearSettings t)" for t
    by (simp add: clearSettings_def hid_def)
  have fix_up: "shown (if indexedColors t = 0 then t\<lparr>indexedColors := 16\<rparr> else t) = shown t" for t
    by (simp add: shown_def)
  show ?thesis
    unfolding resetFields_def Let_def fix_up by (simp add: hide clear)
qed

lemma shown_eq: "shown s = shown t \<longleftrightarrow> (\<exists>v. t = hid v s)"
proof
  assume eq: "shown s = shown t"
  have "t = hid (hidden_of t) (shown t)" by simp
  then have "t = hid (hidden_of t) s" by (metis eq shown_hid(2))
  then show "\<exists>v. t = hid v s" by blast
qed auto

lemma hid_Reset: "map_option shown (Reset (hid v s)) = map_option shown (Reset s)"
proof (cases "SavedColumns s")
  case (Some c)
  have "map_option (\<lambda>s. s\<lparr>SavedColumns := None\<rparr>) (map_option (hid v) r) =
      map_option (hid v) (map_option (\<lambda>s. s\<lparr>SavedColumns := None\<rparr>) r)" for r
    by (cases r) (simp_all add: hid_writes)
  with Some show ?thesis
    by (cases "Resize (Lines s) c s") (simp_all add: Reset_def hid_Resize hid_writes hid_resetFields)
qed (simp add: Reset_def hid_resetFields)

lemma hid_SetConformance: "map_option shown (SetConformance a b (hid v s)) = map_option shown (SetConformance a b s)"
proof -
  have "map_option shown (map_option (\<lambda>s. s\<lparr>Savepoints := [], conformanceLevel := l, conformanceExplicit := True\<rparr>) r) =
      map_option (\<lambda>s. s\<lparr>Savepoints := [], conformanceLevel := l, conformanceExplicit := True\<rparr>) (map_option shown r)" for l r
    by (cases r) (simp_all add: shown_def hid_writes)
  then show ?thesis using hid_Reset [of v s] by (simp add: SetConformance_def Let_def)
qed

lemma hid_SoftReset: "shown (SoftReset (hid v s)) = shown (SoftReset s)"
proof -
  have "clearSettings (hid v t) =
      hid (v\<lparr>hSelection := Map.empty, hPalette := Map.empty, hDynamic := Map.empty, hSpecial := Map.empty\<rparr>) (clearSettings t)" for t
    by (simp add: clearSettings_def hid_def)
  then show ?thesis by (simp add: SoftReset_def Let_def hide)
qed

text \<open>A query or palette operation writes hidden fields only.\<close>

definition silent :: "report \<Rightarrow> bool" where
  "silent e \<longleftrightarrow>
    (case e of EvSetTitle t \<Rightarrow> False | EvSetIconName t \<Rightarrow> False | EvSetTitleMode ps b \<Rightarrow> False
     | EvWindowOp ps \<Rightarrow> False | _ \<Rightarrow> True)"

lemma shown_writes [simp]:
  "shown (s\<lparr>processInput := x1\<rparr>) = shown s" "shown (s\<lparr>selectionData := x3\<rparr>) = shown s"
  "shown (s\<lparr>colorPalette := x4\<rparr>) = shown s" "shown (s\<lparr>dynamicColors := x5\<rparr>) = shown s"
  "shown (s\<lparr>specialColors := x6\<rparr>) = shown s" "shown (s\<lparr>indexedColors := x7\<rparr>) = shown s"
  by (simp_all add: shown_def)

lemma shown_input [simp]: "shown (WriteProcessInput m s) = shown s" "shown (defaultIndexedColors s) = shown s"
  by (simp_all add: WriteProcessInput_def defaultIndexedColors_def)

lemma shown_colors:
  "shown (SetColor i c s) = shown s" "shown (QueryColor i s) = shown s" "shown (ResetColor i b s) = shown s"
  "shown (SetDynamicColor i c s) = shown s" "shown (QueryDynamicColor i s) = shown s"
  "shown (SetSpecialColor i c s) = shown s" "shown (QuerySpecialColor i s) = shown s"
  "shown (ResetSpecialColor i b s) = shown s" "shown (ResetDynamicColor i b s) = shown s"
  "shown (SetSelectionData k d s) = shown s" "shown (QuerySelectionData k s) = shown s"
  by (simp_all add: SetColor_def QueryColor_def ResetColor_def SetDynamicColor_def QueryDynamicColor_def
      SetSpecialColor_def QuerySpecialColor_def ResetSpecialColor_def ResetDynamicColor_def SetSelectionData_def
      QuerySelectionData_def Let_def split: option.split)

lemma shown_queries:
  "shown (ReportDeviceAttributes m b p s) = shown s" "shown (ReportDeviceStatus m b p r s) = shown s"
  "shown (ReportTerminalVersion s) = shown s" "shown (ReportMode m b s) = shown s"
  "shown (RequestStatusString q s) = shown s" "shown (windowReport op s) = shown s"
  by (simp_all add: ReportDeviceAttributes_def ReportDeviceStatus_def ReportTerminalVersion_def ReportMode_def
      RequestStatusString_def windowReport_def Let_def case_prod_unfold if_distrib [where f = shown]
      cong: if_cong split: option.split split del: if_split)

lemma shown_map_option [simp]:
  "map_option shown (map_option (hid v) r) = map_option shown r"
  "map_option shown (Some x) = Some (shown x)"
  "map_option shown (if b then p else q) = (if b then map_option shown p else map_option shown q)"
  by (simp_all add: option.map_comp comp_def)

lemma silent_shown: "silent e \<Longrightarrow> screen_report E e s = Some t \<Longrightarrow> shown t = shown s"
  by (cases e) (auto simp only: silent_def report.case screen_report.simps option.inject shown_colors shown_queries)

lemma silent_returns: "silent e \<Longrightarrow> \<exists>t. screen_report E e s = Some t"
  by (cases e) (auto simp only: silent_def report.case screen_report.simps)

lemma hid_WindowOp: "map_option shown (WindowOp ps (hid v s)) = map_option shown (WindowOp ps s)"
  by (cases ps) (simp_all only: WindowOp_def list.case Let_def hide shown_map_option shown_hid shown_queries)

section \<open>Every event\<close>

lemma screen_motion_hid: "screen_motion E e (hid v s) = map_option (hid v) (screen_motion E e s)"
  by (cases e) (simp_all only: screen_motion.simps hide)

lemma screen_edit_hid: "screen_edit E e (hid v s) = map_option (hid v) (screen_edit E e s)"
  by (cases e) (simp_all only: screen_edit.simps hide)

lemma screen_setting_hid:
  "map_option shown (screen_setting E e (hid v s)) = map_option shown (screen_setting E e s)"
  by (cases e) (simp_all only: screen_setting.simps hide shown_map_option shown_hid hid_Reset hid_SetConformance hid_SoftReset)

lemma screen_report_hid:
  "map_option shown (screen_report E e (hid v s)) = map_option shown (screen_report E e s)"
proof (cases "silent e")
  case True
  obtain t u where "screen_report E e s = Some t" "screen_report E e (hid v s) = Some u"
    using silent_returns [OF True] by blast
  then show ?thesis using silent_shown [OF True] by simp
next
  case False
  then show ?thesis
    by (cases e) (simp_all only: silent_def report.case simp_thms screen_report.simps hide shown_map_option shown_hid hid_WindowOp)
qed

text \<open>What is displayed after an event depends on what was displayed before, and on nothing else.\<close>

lemma shown_handle: "map_option shown (screen_handle E e (hid v s)) = map_option shown (screen_handle E e s)"
  by (cases e)
    (simp_all only: screen_handle.simps screen_motion_hid screen_edit_hid screen_setting_hid screen_report_hid shown_map_option)

lemma shown_option: "map_option shown x = map_option shown y \<Longrightarrow> \<exists>w. x = map_option (hid w) y"
  using shown_eq by (cases x; cases y) (auto, metis)

section \<open>The history screen\<close>

definition hidh :: "hidden \<Rightarrow> HistoryScreen \<Rightarrow> HistoryScreen" where
  "hidh v h = h\<lparr>hscr := hid v (hscr h)\<rparr>"

definition displayed :: "HistoryScreen \<Rightarrow> HistoryScreen" where
  "displayed h = h\<lparr>hscr := shown (hscr h)\<rparr>"

lemma hidh_reads [simp]: "hscr (hidh v h) = hid v (hscr h)" "history (hidh v h) = history h"
  "hscr (displayed h) = shown (hscr h)" "history (displayed h) = history h"
  by (simp_all add: hidh_def displayed_def)

lemma hidh_live [simp]: "live (hidh v h) = live h" "live (displayed h) = live h"
  by (simp_all add: live_def)

lemma displayed_eq: "displayed h = displayed k \<longleftrightarrow> (\<exists>v. k = hidh v h)"
proof
  assume d: "displayed h = displayed k"
  then have "shown (hscr h) = shown (hscr k)" "history h = history k" by (metis hidh_reads(3), metis hidh_reads(4))
  then obtain v where "hscr k = hid v (hscr h)" by (auto simp: shown_eq)
  with \<open>history h = history k\<close> have "k = hidh v h" by (simp add: hidh_def)
  then show "\<exists>v. k = hidh v h" by blast
qed (auto simp: hidh_def displayed_def)

lemma displayed_hidh [simp]: "displayed (hidh v h) = displayed h"
  by (simp add: hidh_def displayed_def)

lemma afterEvent_hid: "afterEvent False (hidh v h) = hidh v (afterEvent False h)"
  by (simp add: afterEvent_def hidh_def hid_writes Let_def)

text \<open>Two results that are displayed alike.\<close>

definition same_display :: "HistoryScreen option \<Rightarrow> HistoryScreen option \<Rightarrow> bool" where
  "same_display r q \<longleftrightarrow> map_option displayed r = map_option displayed q"

lemma same_displayI: "r = map_option (hidh w) q \<Longrightarrow> same_display r q"
  by (simp add: same_display_def option.map_comp comp_def)

lemma same_displayE: "same_display r q \<Longrightarrow> (\<And>w. r = map_option (hidh w) q \<Longrightarrow> P) \<Longrightarrow> P"
  using displayed_eq by (cases r; cases q) (auto simp: same_display_def, metis)

lemma onScreen_hid:
  assumes "map_option shown (f (hid v (hscr h))) = map_option shown (f (hscr h))"
  shows "same_display (onScreen f (hidh v h)) (onScreen f h)"
proof -
  obtain w where "f (hid v (hscr h)) = map_option (hid w) (f (hscr h))" using shown_option [OF assms] by blast
  then have "onScreen f (hidh v h) = map_option (hidh w) (onScreen f h)"
    by (simp add: onScreen_def hidh_def option.map_comp comp_def)
  then show ?thesis by (rule same_displayI)
qed

lemma onScreen_exact:
  "f (hid v (hscr h)) = map_option (hid v) (f (hscr h)) \<Longrightarrow> onScreen f (hidh v h) = map_option (hidh v) (onScreen f h)"
  by (simp add: onScreen_def hidh_def option.map_comp comp_def)

lemma aroundEvent_hid:
  assumes "live h" "same_display (f (hidh v h)) (f h)"
  shows "same_display (aroundEvent f (hidh v h)) (aroundEvent f h)"
proof -
  obtain w where "f (hidh v h) = map_option (hidh w) (f h)" using same_displayE [OF assms(2)] .
  then have "aroundEvent f (hidh v h) = map_option (hidh w) (aroundEvent f h)"
    using assms(1) by (simp add: aroundEvent_of_live option.map_comp comp_def afterEvent_hid)
  then show ?thesis by (rule same_displayI)
qed

lemma hidh_history [simp]: "(hidh v h)\<lparr>history := H\<rparr> = hidh v (h\<lparr>history := H\<rparr>)"
  by (simp add: hidh_def)

lemma hidh_bind:
  "f (hidh v h) = map_option (hidh v) (f h) \<Longrightarrow> (\<And>k. f h = Some k \<Longrightarrow> g (hidh v k) = map_option (hidh v) (g k)) \<Longrightarrow>
   f (hidh v h) \<bind> g = map_option (hidh v) (f h \<bind> g)"
  by (cases "f h") simp_all

lemma index_hid:
  "indexInternal (hidh v h) = map_option (hidh v) (indexInternal h)"
  "reverseIndexInternal (hidh v h) = map_option (hidh v) (reverseIndexInternal h)"
proof -
  have eligible: "scrollbackEligible tp bt (hid v s) = scrollbackEligible tp bt s" for tp bt s
    by (simp add: scrollbackEligible_def)
  have idx: "onScreen Index (hidh v k) = map_option (hidh v) (onScreen Index k)"
    "onScreen ReverseIndex (hidh v k) = map_option (hidh v) (onScreen ReverseIndex k)" for k
    by (rule onScreen_exact, simp only: hide)+
  show "indexInternal (hidh v h) = map_option (hidh v) (indexInternal h)"
    "reverseIndexInternal (hidh v h) = map_option (hidh v) (reverseIndexInternal h)"
    unfolding indexInternal_def reverseIndexInternal_def
    by (auto simp: eligible idx case_prod_unfold split: bind_split)
qed

lemma live_index: "live h \<Longrightarrow> indexInternal h = Some k \<Longrightarrow> live k"
  using live.index_keeps [of h] by simp

lemma around_exact:
  "live h \<Longrightarrow> f (hidh v h) = map_option (hidh v) (f h) \<Longrightarrow> aroundEvent f (hidh v h) = map_option (hidh v) (aroundEvent f h)"
  by (simp add: aroundEvent_of_live option.map_comp comp_def afterEvent_hid)

lemma linefeed_hid: "live h \<Longrightarrow> historyLineFeed (hidh v h) = map_option (hidh v) (historyLineFeed h)"
proof -
  have cr: "historyCarriageReturn (hidh v k) = map_option (hidh v) (historyCarriageReturn k)" if "live k" for k
    unfolding historyCarriageReturn_def
    by (rule around_exact [OF that], rule onScreen_exact) (simp add: hid_vertical)
  assume live: "live h"
  show ?thesis
    unfolding historyLineFeed_def
    by (rule around_exact [OF live], rule hidh_bind) (simp_all add: index_hid cr live_index [OF live])
qed

lemma history_motion_hid:
  assumes "live h"
  shows "same_display (history_handle E (Motion e) (hidh v h)) (history_handle E (Motion e) h)"
proof -
  have on: "same_display (onScreen (screen_motion E e) (hidh v h)) (onScreen (screen_motion E e) h)" for e
    by (rule onScreen_hid) (simp add: screen_motion_hid)
  note around = aroundEvent_hid [OF assms, OF on]
  have special: "same_display (aroundEvent indexInternal (hidh v h)) (aroundEvent indexInternal h)"
    "same_display (aroundEvent reverseIndexInternal (hidh v h)) (aroundEvent reverseIndexInternal h)"
    "same_display (historyLineFeed (hidh v h)) (historyLineFeed h)"
    by (rule aroundEvent_hid [OF assms], rule same_displayI, rule index_hid)+
      (rule same_displayI, rule linefeed_hid [OF assms])
  show ?thesis
    by (induct e; simp only: history_handle.simps history_motion.simps; rule on around special )
qed

lemma history_edit_hid:
  assumes "live h"
  shows "same_display (history_handle E (Edit e) (hidh v h)) (history_handle E (Edit e) h)"
proof -
  have on: "same_display (onScreen (screen_edit E e) (hidh v h)) (onScreen (screen_edit E e) h)" for e
    by (rule onScreen_hid) (simp add: screen_edit_hid)
  note around = aroundEvent_hid [OF assms, OF on]
  have special: "same_display (historyEraseInDisplay how p (hidh v h)) (historyEraseInDisplay how p h)" for how p
    unfolding historyEraseInDisplay_def
    by (rule aroundEvent_hid [OF assms], rule same_displayI, rule hidh_bind, rule onScreen_exact) (simp_all add: hid_displays)
  show ?thesis
    by (induct e; simp only: history_handle.simps history_edit.simps; rule on around special )
qed

lemma history_setting_hid:
  assumes "live h"
  shows "same_display (history_handle E (Setting e) (hidh v h)) (history_handle E (Setting e) h)"
proof -
  have on: "same_display (onScreen (screen_setting E e) (hidh v h)) (onScreen (screen_setting E e) h)" for e
    by (rule onScreen_hid) (simp add: screen_setting_hid)
  note around = aroundEvent_hid [OF assms, OF on]
  obtain w where "onScreen Reset (hidh v h) = map_option (hidh w) (onScreen Reset h)"
    using same_displayE [OF onScreen_hid [of Reset v h, OF hid_Reset]] .
  then have special: "same_display (historyReset (hidh v h)) (historyReset h)"
    unfolding historyReset_def
    by (intro aroundEvent_hid [OF assms] same_displayI [where w = w]) (cases "onScreen Reset h"; simp)
  show ?thesis
    by (induct e; simp only: history_handle.simps history_setting.simps; rule on around special )
qed

lemma history_report_hid:
  assumes "live h"
  shows "same_display (history_handle E (Report e) (hidh v h)) (history_handle E (Report e) h)"
proof -
  have on: "same_display (onScreen (screen_report E e) (hidh v h)) (onScreen (screen_report E e) h)" for e
    by (rule onScreen_hid) (simp add: screen_report_hid)
  note around = aroundEvent_hid [OF assms, OF on]
  show ?thesis
    by (induct e; simp only: history_handle.simps history_report.simps; rule on around )
qed

text \<open>The same for the history screen.\<close>

theorem displayed_handle:
  assumes "live h" "displayed h = displayed k"
  shows "map_option displayed (history_handle E e h) = map_option displayed (history_handle E e k)"
proof -
  obtain v where k: "k = hidh v h" using assms(2) by (auto simp: displayed_eq)
  have "same_display (history_handle E e (hidh v h)) (history_handle E e h)"
    using history_motion_hid [OF assms(1)] history_edit_hid [OF assms(1)] history_setting_hid [OF assms(1)]
      history_report_hid [OF assms(1)] by (cases e) simp_all
  then show ?thesis by (simp add: k same_display_def)
qed

end
