(* ===== verification/ServerProxy.thy ===== *)
theory ServerProxy
  imports TeFeed TeHistory
begin

text \<open>
  The event proxy of \<open>internal/server/event_proxy.go\<close>: it stands between the parser and the screen
  of a region, forwards every call to the screen and records the calls that change what is
  displayed as protocol messages (\<open>TerminalEvent\<close> of \<open>internal/protocol/protocol.go\<close>), which
  \<open>Flush\<close> hands to the broadcast. The screen is the parameter \<open>H\<close>, a handler of events, as it is an
  interface in the code; a handler that panics leaves the batch as it was.
\<close>

section \<open>Protocol events\<close>

record TerminalEvent =
  evOp :: string
  evData :: string
  evParams :: "int list"
  evHow :: int
  evAttrs :: "int list"
  evPrivate :: bool

definition opEvent :: "string \<Rightarrow> TerminalEvent" where
  "opEvent op = \<lparr>evOp = op, evData = '''', evParams = [], evHow = 0, evAttrs = [], evPrivate = False\<rparr>"

definition dataEvent :: "string \<Rightarrow> string \<Rightarrow> TerminalEvent" where
  "dataEvent op dat = (opEvent op)\<lparr>evData := dat\<rparr>"

definition paramsEvent :: "string \<Rightarrow> int list \<Rightarrow> TerminalEvent" where
  "paramsEvent op params = (opEvent op)\<lparr>evParams := params\<rparr>"

lemma evOp_simps [simp]:
  "evOp (opEvent op) = op" "evOp (dataEvent op d) = op" "evOp (paramsEvent op ps) = op"
  "evData (dataEvent op d) = d" "evParams (paramsEvent op ps) = ps"
  by (simp_all add: opEvent_def dataEvent_def paramsEvent_def)

section \<open>What each method records\<close>

fun captured_motion :: "motion \<Rightarrow> TerminalEvent" where
  "captured_motion EvBackspace = opEvent ''bs''"
| "captured_motion EvTab = opEvent ''tab''"
| "captured_motion EvLineFeed = opEvent ''lf''"
| "captured_motion EvNextLine = opEvent ''nel''"
| "captured_motion EvCarriageReturn = opEvent ''cr''"
| "captured_motion EvIndex = opEvent ''ind''"
| "captured_motion EvReverseIndex = opEvent ''ri''"
| "captured_motion EvSetTabStop = opEvent ''hts''"
| "captured_motion (EvClearTabStop how) = paramsEvent ''tbc'' how"
| "captured_motion EvSaveCursor = opEvent ''sc''"
| "captured_motion EvRestoreCursor = opEvent ''rc''"
| "captured_motion EvSaveCursorDEC = opEvent ''decsc''"
| "captured_motion EvRestoreCursorDEC = opEvent ''decrc''"
| "captured_motion (EvCursorUp n) = paramsEvent ''cuu'' n"
| "captured_motion (EvCursorDown n) = paramsEvent ''cud'' n"
| "captured_motion (EvCursorForward n) = paramsEvent ''cuf'' n"
| "captured_motion (EvCursorBack n) = paramsEvent ''cub'' n"
| "captured_motion (EvCursorDown1 n) = paramsEvent ''cud1'' n"
| "captured_motion (EvCursorUp1 n) = paramsEvent ''cuu1'' n"
| "captured_motion (EvCursorToColumn n) = paramsEvent ''cha'' n"
| "captured_motion (EvCursorToColumnAbsolute n) = paramsEvent ''hpa'' n"
| "captured_motion (EvCursorPosition n) = paramsEvent ''cup'' n"
| "captured_motion (EvCursorBackTab n) = paramsEvent ''cbt'' n"
| "captured_motion (EvCursorForwardTab n) = paramsEvent ''cht'' n"
| "captured_motion (EvCursorToLine n) = paramsEvent ''vpa'' n"
| "captured_motion EvForwardIndex = opEvent ''fi''"
| "captured_motion EvBackIndex = opEvent ''bi''"
| "captured_motion (EvSetMargins n) = paramsEvent ''decstbm'' n"
| "captured_motion (EvSetLeftRightMargins left right) = paramsEvent ''declrmm'' [left, right]"

fun captured_edit :: "edit \<Rightarrow> TerminalEvent option" where
  "captured_edit EvAlignmentDisplay = Some (opEvent ''decaln'')"
| "captured_edit (EvInsertCharacters n) = Some (paramsEvent ''ich'' n)"
| "captured_edit (EvScrollUp n) = Some (paramsEvent ''su'' n)"
| "captured_edit (EvScrollDown n) = Some (paramsEvent ''sd'' n)"
| "captured_edit (EvRepeatLast n) = Some (paramsEvent ''rep'' n)"
| "captured_edit (EvEraseInDisplay how private rest) = Some ((opEvent ''ed'')\<lparr>evHow := how, evPrivate := private\<rparr>)"
| "captured_edit (EvEraseInLine how private rest) = Some ((opEvent ''el'')\<lparr>evHow := how, evPrivate := private\<rparr>)"
| "captured_edit (EvInsertLines n) = Some (paramsEvent ''il'' n)"
| "captured_edit (EvDeleteLines n) = Some (paramsEvent ''dl'' n)"
| "captured_edit (EvDeleteCharacters n) = Some (paramsEvent ''dch'' n)"
| "captured_edit (EvEraseCharacters n) = Some (paramsEvent ''ech'' n)"
| "captured_edit (EvInsertColumns n) = Some (paramsEvent ''decic'' [n])"
| "captured_edit (EvDeleteColumns n) = Some (paramsEvent ''decdc'' [n])"
| "captured_edit (EvEraseRectangle t l b r) = Some (paramsEvent ''decer'' [t, l, b, r])"
| "captured_edit (EvSelectiveEraseRectangle t l b r) = Some (paramsEvent ''decser'' [t, l, b, r])"
| "captured_edit (EvFillRectangle ch t l b r) = Some ((paramsEvent ''decfra'' [t, l, b, r])\<lparr>evData := encode_rune ch\<rparr>)"
| "captured_edit (EvCopyRectangle t l b r dt dl) = Some (paramsEvent ''deccra'' [t, l, b, r, dt, dl])"
| "captured_edit (EvDraw s) = Some (dataEvent ''draw'' s)"
| "captured_edit (EvEraseInDisplaySelective how) = None"

fun captured_setting :: "setting \<Rightarrow> TerminalEvent option" where
  "captured_setting EvBell = Some (opEvent ''bell'')"
| "captured_setting EvShiftOut = Some (opEvent ''so'')"
| "captured_setting EvShiftIn = Some (opEvent ''si'')"
| "captured_setting EvReset = Some (opEvent ''reset'')"
| "captured_setting EvStartProtectedArea = Some (opEvent ''spa'')"
| "captured_setting EvEndProtectedArea = Some (opEvent ''epa'')"
| "captured_setting (EvSetCharacterProtection mode) = Some (paramsEvent ''decsca'' [mode])"
| "captured_setting EvSoftReset = Some (opEvent ''decstr'')"
| "captured_setting (EvSaveModes modes) = Some (paramsEvent ''savem'' modes)"
| "captured_setting (EvRestoreModes modes) = Some (paramsEvent ''restm'' modes)"
| "captured_setting (EvSelectGraphicRendition attrs private) = Some ((opEvent ''sgr'')\<lparr>evAttrs := attrs, evPrivate := private\<rparr>)"
| "captured_setting (EvDebug a) = None"
| "captured_setting (EvSetMode modes private) = Some ((paramsEvent ''sm'' modes)\<lparr>evPrivate := private\<rparr>)"
| "captured_setting (EvResetMode modes private) = Some ((paramsEvent ''rm'' modes)\<lparr>evPrivate := private\<rparr>)"
| "captured_setting (EvDefineCharset code mode) = Some (dataEvent ''charset'' (code @ '':'' @ mode))"
| "captured_setting (EvSetConformance level sevenBit) = Some (paramsEvent ''decscl'' [level, sevenBit])"
| "captured_setting (EvSetCursorStyle style) = Some (paramsEvent ''decscusr'' [style])"
| "captured_setting (EvSetActiveStatusDisplay mode) = Some (paramsEvent ''decsasd'' [mode])"

fun captured_report :: "report \<Rightarrow> TerminalEvent option" where
  "captured_report (EvSetTitle title) = Some (dataEvent ''title'' title)"
| "captured_report (EvSetIconName name) = Some (dataEvent ''icon'' name)"
| "captured_report (EvSetTitleMode params reset) = Some (paramsEvent ''titlemode'' params)"
| "captured_report (EvWindowOp params) = Some (paramsEvent ''winop'' params)"
| "captured_report e = None"

fun captured :: "event \<Rightarrow> TerminalEvent option" where
  "captured (Motion e) = Some (captured_motion e)"
| "captured (Edit e) = captured_edit e"
| "captured (Setting e) = captured_setting e"
| "captured (Report e) = captured_report e"

section \<open>State and methods\<close>

record 's EventProxy =
  pscreen :: 's
  batch :: "TerminalEvent list"
  syncMode :: bool
  syncEndIndex :: int
  pendingSyncs :: "string list"
  allSyncs :: "string list"

definition NewEventProxy :: "'s \<Rightarrow> 's EventProxy" where
  "NewEventProxy s = \<lparr>pscreen = s, batch = [], syncMode = False, syncEndIndex = -1, pendingSyncs = [], allSyncs = []\<rparr>"

definition maxSyncBatchEvents :: int where
  "maxSyncBatchEvents = 65536"

definition maxSyncHistory :: int where
  "maxSyncHistory = 256"

text \<open>The mode number of synchronized output, \<open>ansi.ModeSynchronizedOutput\<close>.\<close>

definition syncOutputMode :: int where
  "syncOutputMode = 2026"

definition EmitSyncMarker :: "string \<Rightarrow> 's EventProxy \<Rightarrow> 's EventProxy" where
  "EmitSyncMarker i p =
    (let p = p\<lparr>pendingSyncs := pendingSyncs p @ [i], allSyncs := allSyncs p @ [i]\<rparr>
     in if len (allSyncs p) > maxSyncHistory
        then p\<lparr>allSyncs := drop (nat (len (allSyncs p) - maxSyncHistory)) (allSyncs p)\<rparr> else p)"

definition AllSyncs :: "'s EventProxy \<Rightarrow> string list" where
  "AllSyncs p = (if len (allSyncs p) = 0 then [] else allSyncs p)"

text \<open>What \<open>SetMode\<close> and \<open>ResetMode\<close> do besides recording: they open and close a synchronized batch.\<close>

definition track_set :: "int list \<Rightarrow> bool \<Rightarrow> 's EventProxy \<Rightarrow> 's EventProxy" where
  "track_set modes private p =
    (if private
     then fold (\<lambda>m p. if m = syncOutputMode then p\<lparr>syncMode := True\<rparr> else p) modes p
     else p)"

definition track_reset :: "int list \<Rightarrow> bool \<Rightarrow> 's EventProxy \<Rightarrow> 's EventProxy" where
  "track_reset modes private p =
    (if private
     then fold (\<lambda>m p. if m = syncOutputMode
                      then (if syncMode p then p\<lparr>syncMode := False, syncEndIndex := len (batch p)\<rparr> else p)
                      else p) modes p
     else p)"

fun track :: "event \<Rightarrow> 's EventProxy \<Rightarrow> 's EventProxy" where
  "track (Setting (EvSetMode modes private)) p = track_set modes private p"
| "track (Setting (EvResetMode modes private)) p = track_reset modes private p"
| "track e p = p"

definition record_event :: "event \<Rightarrow> 's EventProxy \<Rightarrow> 's EventProxy" where
  "record_event e p = track e (case captured e of Some ev \<Rightarrow> p\<lparr>batch := batch p @ [ev]\<rparr> | None \<Rightarrow> p)"

definition proxy_handle :: "(event \<Rightarrow> 's \<Rightarrow> 's option) \<Rightarrow> event \<Rightarrow> 's EventProxy \<Rightarrow> 's EventProxy option" where
  "proxy_handle H e p = do {
     s \<leftarrow> H e (pscreen p);
     Some (record_event e (p\<lparr>pscreen := s\<rparr>)) }"

section \<open>Flush\<close>

definition isTransientEvent :: "string \<Rightarrow> bool" where
  "isTransientEvent op \<longleftrightarrow> op = ''bell''"

definition Flush :: "'s EventProxy \<Rightarrow> (TerminalEvent list \<times> bool \<times> string list) \<times> 's EventProxy" where
  "Flush p =
    (if syncMode p \<and> len (batch p) \<le> maxSyncBatchEvents then (([], False, []), p)
     else
       (let p = (if syncMode p then p\<lparr>syncMode := False, syncEndIndex := len (batch p)\<rparr> else p);
            syncs = pendingSyncs p; p = p\<lparr>pendingSyncs := []\<rparr>
        in if syncEndIndex p \<ge> 0
           then ((filter (isTransientEvent \<circ> evOp) (drop (nat (syncEndIndex p)) (batch p)), True, syncs),
                 p\<lparr>batch := [], syncEndIndex := -1\<rparr>)
           else if batch p = [] then (([], False, syncs), p)
           else ((batch p, False, syncs), p\<lparr>batch := []\<rparr>)))"

text \<open>
  The proxy as the listener of the parser: it has the optional methods for the cursor style and the
  status line, and neither the selective erase nor the mode query, which is not exported.
\<close>

definition proxyListener :: "(event \<Rightarrow> 's \<Rightarrow> 's option) \<Rightarrow> 's EventProxy listener" where
  "proxyListener H =
    \<lparr>deliver = (\<lambda>e p. case proxy_handle H e p of Some q \<Rightarrow> Done q | None \<Rightarrow> Panicked p),
     selective = False, styles = True, statusLine = True, modeQuery = None\<rparr>"

section \<open>The proxy over a run\<close>

text \<open>The calls the actor of a region makes on its proxy, with what the flushes returned.\<close>

datatype proxy_op = OpEvent event | OpMarker string | OpFlush

fun proxy_step ::
  "(event \<Rightarrow> 's \<Rightarrow> 's option) \<Rightarrow> proxy_op \<Rightarrow> (TerminalEvent list \<times> bool \<times> string list) list \<times> 's EventProxy \<Rightarrow>
   ((TerminalEvent list \<times> bool \<times> string list) list \<times> 's EventProxy) option" where
  "proxy_step H (OpEvent e) (outs, p) = map_option (\<lambda>p. (outs, p)) (proxy_handle H e p)"
| "proxy_step H (OpMarker i) (outs, p) = Some (outs, EmitSyncMarker i p)"
| "proxy_step H OpFlush (outs, p) = (case Flush p of (out, p) \<Rightarrow> Some (outs @ [out], p))"

definition markers :: "proxy_op list \<Rightarrow> string list" where
  "markers ops = concat (map (\<lambda>x. case x of OpMarker i \<Rightarrow> [i] | _ \<Rightarrow> []) ops)"

definition recorded :: "proxy_op list \<Rightarrow> TerminalEvent list" where
  "recorded ops = concat (map (\<lambda>x. case x of OpEvent e \<Rightarrow> (case captured e of Some ev \<Rightarrow> [ev] | None \<Rightarrow> []) | _ \<Rightarrow> []) ops)"

text \<open>The newest \<open>n\<close> elements of a list.\<close>

definition newest :: "nat \<Rightarrow> 'a list \<Rightarrow> 'a list" where
  "newest n xs = drop (length xs - n) xs"

lemma newest_append: "newest n (newest n xs @ ys) = newest n (xs @ ys)"
  by (simp add: newest_def) (auto simp: drop_append intro: arg_cong [where f = "\<lambda>n. drop n xs"])

lemma newest_Nil [simp]: "newest n [] = []"
  by (simp add: newest_def)

lemma track_reads [simp]:
  "batch (track e p) = batch p" "pscreen (track e p) = pscreen p"
  "pendingSyncs (track e p) = pendingSyncs p" "allSyncs (track e p) = allSyncs p"
proof -
  have fold: "batch (fold f ms p) = batch p \<and> pscreen (fold f ms p) = pscreen p \<and>
      pendingSyncs (fold f ms p) = pendingSyncs p \<and> allSyncs (fold f ms p) = allSyncs p"
    if "\<And>m p. batch (f m p) = batch p \<and> pscreen (f m p) = pscreen p \<and>
      pendingSyncs (f m p) = pendingSyncs p \<and> allSyncs (f m p) = allSyncs p" for f and ms :: "int list"
    using that by (induction ms arbitrary: p) simp_all
  show "batch (track e p) = batch p" "pscreen (track e p) = pscreen p"
    "pendingSyncs (track e p) = pendingSyncs p" "allSyncs (track e p) = allSyncs p"
    by (cases "(e, p)" rule: track.cases; simp add: track_set_def track_reset_def fold)+
qed

lemma record_event_reads [simp]:
  "batch (record_event e p) = batch p @ (case captured e of Some ev \<Rightarrow> [ev] | None \<Rightarrow> [])"
  "pscreen (record_event e p) = pscreen p"
  "pendingSyncs (record_event e p) = pendingSyncs p" "allSyncs (record_event e p) = allSyncs p"
  by (simp_all add: record_event_def split: option.split)

lemma EmitSyncMarker_reads [simp]:
  "batch (EmitSyncMarker i p) = batch p" "pscreen (EmitSyncMarker i p) = pscreen p"
  "pendingSyncs (EmitSyncMarker i p) = pendingSyncs p @ [i]"
  "allSyncs (EmitSyncMarker i p) = newest 256 (allSyncs p @ [i])"
  by (simp_all add: EmitSyncMarker_def Let_def newest_def maxSyncHistory_def len_def nat_diff_distrib')

text \<open>The marker and event accounts that every call keeps.\<close>

definition account ::
  "proxy_op list \<Rightarrow> (TerminalEvent list \<times> bool \<times> string list) list \<times> 's EventProxy \<Rightarrow> bool" where
  "account ops x \<longleftrightarrow>
    (case x of (outs, p) \<Rightarrow>
      concat (map (snd \<circ> snd) outs) @ pendingSyncs p = markers ops \<and>
      allSyncs p = newest 256 (markers ops) \<and>
      (list_all (\<lambda>out. \<not> fst (snd out)) outs \<longrightarrow> concat (map fst outs) @ batch p = recorded ops))"

lemma proxy_step_account:
  assumes "account ops x" "proxy_step H x1 x = Some y"
  shows "account (ops @ [x1]) y"
proof (cases x1)
  case (OpEvent e)
  with assms show ?thesis
    by (auto simp: account_def markers_def recorded_def proxy_handle_def bind_eq_Some_conv split: prod.splits)
next
  case (OpMarker i)
  with assms show ?thesis
    by (auto simp: account_def markers_def recorded_def newest_append split: prod.splits)
next
  case OpFlush
  with assms show ?thesis
    by (cases x) (auto simp: account_def markers_def recorded_def Flush_def Let_def split: if_splits)
qed

lemma run_account:
  assumes "for_each (proxy_step H) ops x = Some y" "account past x"
  shows "account (past @ ops) y"
  using assms
proof (induction ops arbitrary: x "past")
  case (Cons x1 ops)
  obtain z where "proxy_step H x1 x = Some z" "for_each (proxy_step H) ops z = Some y"
    using Cons.prems(1) by (auto simp: bind_eq_Some_conv)
  then show ?case using Cons.IH [of z "past @ [x1]"] proxy_step_account [OF Cons.prems(2)] by simp
qed simp

lemma account_start: "account [] ([], NewEventProxy s)"
  by (simp add: account_def NewEventProxy_def markers_def recorded_def)

text \<open>A flush leaves a bounded batch: a synchronized batch that has grown too long is closed by force.\<close>

lemma Flush_bound: "Flush p = (out, q) \<Longrightarrow> len (batch q) \<le> maxSyncBatchEvents"
  by (auto simp: Flush_def Let_def len_def maxSyncBatchEvents_def split: if_splits)

lemma Flush_screen: "pscreen (snd (Flush p)) = pscreen p"
  by (simp add: Flush_def Let_def)

lemma proxy_step_returns:
  assumes "\<And>e. op = OpEvent e \<Longrightarrow> returns I (H e (pscreen (snd x)))" "I (pscreen (snd x))"
  shows "returns (\<lambda>x. I (pscreen (snd x))) (proxy_step H op x)"
  using assms Flush_screen [of "snd x"]
  by (cases x; cases op) (auto simp: proxy_handle_def case_prod_unfold returns_ex)

lemma proxy_run_returns:
  assumes "I (pscreen p)" "\<And>e s. OpEvent e \<in> set ops \<Longrightarrow> I s \<Longrightarrow> returns I (H e s)"
  shows "returns (\<lambda>x. I (pscreen (snd x))) (for_each (proxy_step H) ops (outs, p))"
  by (rule returns_for_each) (use assms in \<open>auto intro: proxy_step_returns\<close>)

end
