(* ===== verification/WireCells.thy ===== *)
theory WireCells
  imports TeParse
begin

text \<open>
  Cells on the wire: the server encodes a cell as a \<open>ScreenCell\<close> (\<open>cellToProtocol\<close> and
  \<open>colorToSpec\<close> of \<open>internal/server/region.go\<close>), the client decodes it (\<open>protocolCellsToTe\<close>,
  \<open>underlineStyle\<close> and \<open>specToColor\<close> of \<open>internal/tui/terminal.go\<close>, with the colour names of
  \<open>internal/protocol/color.go\<close>). The attribute byte is an 8-bit word.
\<close>

record ScreenCell =
  scChar :: string
  scFg :: string
  scBg :: string
  scA :: "8 word"
  scUs :: "8 word"
  scUc :: string
  scOl :: bool

section \<open>Colours\<close>

definition ANSI16NameToIndex :: "string \<Rightarrow> 8 word option" where
  "ANSI16NameToIndex = map_of [
    (''black'', 0), (''red'', 1), (''green'', 2), (''brown'', 3),
    (''blue'', 4), (''magenta'', 5), (''cyan'', 6), (''white'', 7),
    (''brightblack'', 8), (''brightred'', 9), (''brightgreen'', 10), (''brightbrown'', 11),
    (''brightblue'', 12), (''brightmagenta'', 13), (''brightcyan'', 14), (''brightwhite'', 15)]"

definition colorToSpec :: "Color \<Rightarrow> string" where
  "colorToSpec c =
    (case CMode c of
       ColorDefault \<Rightarrow> ''''
     | ColorANSI16 \<Rightarrow> CName c
     | ColorANSI256 \<Rightarrow> ''5;'' @ show_int (uint (CIndex c))
     | ColorTrueColor \<Rightarrow> ''2;'' @ CName c)"

text \<open>
  \<open>fmt.Sscanf(s, "%d", &idx)\<close> into a \<open>uint8\<close>: the leading digits; no digits or a number past 255 is
  an error, which leaves \<open>idx\<close> zero. The blanks it would skip are not modelled: no encoder writes any.
\<close>

definition scanUint8 :: "string \<Rightarrow> 8 word" where
  "scanUint8 s =
    (case parse_uint 10 8 (takeWhile is_digit s) of
       None \<Rightarrow> 0 | Some v \<Rightarrow> word_of_int v)"

definition specToColor :: "string \<Rightarrow> Color" where
  "specToColor spec =
    (if spec = '''' then \<lparr>CMode = ColorDefault, CIndex = 0, CName = ''default''\<rparr>
     else if len spec > 2 \<and> spec ! 0 = CHR ''5'' \<and> spec ! 1 = CHR '';'' then
       \<lparr>CMode = ColorANSI256, CIndex = scanUint8 (drop 2 spec), CName = ''''\<rparr>
     else if len spec > 2 \<and> spec ! 0 = CHR ''2'' \<and> spec ! 1 = CHR '';'' then
       \<lparr>CMode = ColorTrueColor, CIndex = 0, CName = drop 2 spec\<rparr>
     else \<lparr>CMode = ColorANSI16, CIndex = (case ANSI16NameToIndex spec of None \<Rightarrow> 0 | Some i \<Rightarrow> i), CName = spec\<rparr>)"

section \<open>Cells\<close>

definition flag :: "bool \<Rightarrow> 8 word \<Rightarrow> 8 word" where
  "flag b m = (if b then m else 0)"

unbundle bit_operations_syntax

definition attrBits :: "Attr \<Rightarrow> 8 word" where
  "attrBits a = flag (Bold a) 1 OR flag (Italics a) 2 OR flag (Underline a) 4 OR flag (Strikethrough a) 8 OR
     flag (Reverse a) 16 OR flag (Blink a) 32 OR flag (Conceal a) 64 OR flag (Faint a) 128"

definition cellToProtocol :: "Cell \<Rightarrow> ScreenCell" where
  "cellToProtocol c =
    (let a = CellAttr c in
     \<lparr>scChar = Data c, scFg = colorToSpec (Fg a), scBg = colorToSpec (Bg a), scA = attrBits a,
      scUs = (if Underline a then UnderlineStyle a else 0), scUc = colorToSpec (UnderlineColor a),
      scOl = Overline a\<rparr>)"

definition underlineStyle :: "ScreenCell \<Rightarrow> 8 word" where
  "underlineStyle c = (if scA c AND 4 = 0 then 0 else if scUs c > 0 then scUs c else 1)"

definition decodedAttr :: "ScreenCell \<Rightarrow> Attr" where
  "decodedAttr c =
    \<lparr>Fg = specToColor (scFg c), Bg = specToColor (scBg c), Bold = (scA c AND 1 \<noteq> 0), Faint = (scA c AND 128 \<noteq> 0),
     Italics = (scA c AND 2 \<noteq> 0), Underline = (scA c AND 4 \<noteq> 0), Strikethrough = (scA c AND 8 \<noteq> 0),
     Reverse = (scA c AND 16 \<noteq> 0), Blink = (scA c AND 32 \<noteq> 0), Conceal = (scA c AND 64 \<noteq> 0),
     Protected = False, ISOProtected = False, UnderlineStyle = underlineStyle c,
     UnderlineColor = specToColor (scUc c), Overline = scOl c\<rparr>"

definition protocolCellToTe :: "ScreenCell \<Rightarrow> Cell" where
  "protocolCellToTe c = \<lparr>Data = scChar c, CellAttr = decodedAttr c\<rparr>"

definition protocolCellsToTe :: "ScreenCell list \<Rightarrow> Cell list" where
  "protocolCellsToTe = map protocolCellToTe"

section \<open>What survives the wire\<close>

text \<open>The colours and attributes SGR can set.\<close>

definition color_ok :: "Color \<Rightarrow> bool" where
  "color_ok c \<longleftrightarrow>
    (case CMode c of
       ColorDefault \<Rightarrow> True
     | ColorANSI16 \<Rightarrow> ANSI16NameToIndex (CName c) = Some (CIndex c)
     | ColorANSI256 \<Rightarrow> True
     | ColorTrueColor \<Rightarrow> CName c \<noteq> '''' \<and> CIndex c = 0)"

definition attr_ok :: "Attr \<Rightarrow> bool" where
  "attr_ok a \<longleftrightarrow> color_ok (Fg a) \<and> color_ok (Bg a) \<and> color_ok (UnderlineColor a) \<and>
     (Underline a \<longleftrightarrow> UnderlineStyle a \<noteq> 0)"

text \<open>What a decoded cell keeps: not the name of an indexed colour, and not the protection flags.\<close>

definition wireColor :: "Color \<Rightarrow> Color" where
  "wireColor c =
    (case CMode c of
       ColorDefault \<Rightarrow> defaultColor
     | ColorANSI256 \<Rightarrow> c\<lparr>CName := ''''\<rparr>
     | _ \<Rightarrow> c)"

definition wireAttr :: "Attr \<Rightarrow> Attr" where
  "wireAttr a = a\<lparr>Fg := wireColor (Fg a), Bg := wireColor (Bg a), UnderlineColor := wireColor (UnderlineColor a),
     Protected := False, ISOProtected := False\<rparr>"

definition wireCell :: "Cell \<Rightarrow> Cell" where
  "wireCell c = c\<lparr>CellAttr := wireAttr (CellAttr c)\<rparr>"

lemma nat_digits_ne [simp]: "nat_digits b n \<noteq> []"
  by (subst nat_digits.simps) simp

lemma scanUint8_show: "scanUint8 (show_int (uint i)) = i" for i :: "8 word"
proof -
  have digits: "takeWhile is_digit (show_int (uint i)) = show_int (uint i)"
    using digits_show [of "uint i"] by (simp add: takeWhile_eq_all_conv list_all_iff)
  have "show_int (uint i) \<noteq> []" "parse_digits 10 0 (show_int (uint i)) = Some (uint i)"
    by (simp_all add: show_int_def parse_nat_digits)
  moreover have "uint i < 2 ^ 8" using uint_bounded [of i] by simp
  ultimately show ?thesis unfolding scanUint8_def digits parse_uint_def by simp
qed

lemma specToColor_index: "specToColor (''5;'' @ show_int (uint i)) = \<lparr>CMode = ColorANSI256, CIndex = i, CName = ''''\<rparr>"
proof -
  have "show_int (uint i) \<noteq> []" by (simp add: show_int_def)
  then have "len (''5;'' @ show_int (uint i)) > 2" by (cases "show_int (uint i)") (auto simp: len_def)
  then show ?thesis by (simp add: specToColor_def scanUint8_show)
qed

lemma ANSI16_names:
  "ANSI16NameToIndex name = Some i \<Longrightarrow> specToColor name = \<lparr>CMode = ColorANSI16, CIndex = i, CName = name\<rparr>"
  unfolding ANSI16NameToIndex_def
  by (auto simp: specToColor_def ANSI16NameToIndex_def split: if_splits)

lemma specToColor_wire: "color_ok c \<Longrightarrow> specToColor (colorToSpec c) = wireColor c"
proof (cases "CMode c")
  case ColorTrueColor
  moreover assume "color_ok c"
  ultimately have "CName c \<noteq> ''''" "CIndex c = 0" by (simp_all add: color_ok_def)
  moreover from this have "len (''2;'' @ CName c) > 2" by (cases "CName c") (auto simp: len_def)
  ultimately show ?thesis using ColorTrueColor by (cases c) (simp add: colorToSpec_def wireColor_def specToColor_def)
next
  case ColorANSI256
  then show ?thesis by (cases c) (simp add: colorToSpec_def wireColor_def specToColor_index [simplified])
next
  case ColorANSI16
  moreover assume "color_ok c"
  ultimately show ?thesis by (cases c) (simp add: color_ok_def colorToSpec_def wireColor_def ANSI16_names)
qed (simp add: colorToSpec_def wireColor_def specToColor_def defaultColor_def)

lemma attrBits_read:
  "attrBits a AND 1 = 0 \<longleftrightarrow> \<not> Bold a" "attrBits a AND 2 = 0 \<longleftrightarrow> \<not> Italics a" "attrBits a AND 4 = 0 \<longleftrightarrow> \<not> Underline a"
  "attrBits a AND 8 = 0 \<longleftrightarrow> \<not> Strikethrough a" "attrBits a AND 16 = 0 \<longleftrightarrow> \<not> Reverse a" "attrBits a AND 32 = 0 \<longleftrightarrow> \<not> Blink a"
  "attrBits a AND 64 = 0 \<longleftrightarrow> \<not> Conceal a" "attrBits a AND 128 = 0 \<longleftrightarrow> \<not> Faint a"
  by (simp_all add: attrBits_def flag_def bit.conj_disj_distrib2)

lemma decode_encode_cell: "attr_ok (CellAttr c) \<Longrightarrow> protocolCellToTe (cellToProtocol c) = wireCell c"
  by (cases c, cases "CellAttr c", clarsimp)
    (simp add: protocolCellToTe_def cellToProtocol_def decodedAttr_def underlineStyle_def wireCell_def wireAttr_def
      attrBits_read attr_ok_def specToColor_wire Let_def word_gt_0)

lemma colorToSpec_wire: "colorToSpec (wireColor c) = colorToSpec c"
  by (cases "CMode c") (simp_all add: colorToSpec_def wireColor_def defaultColor_def)

lemma cellToProtocol_wire: "cellToProtocol (wireCell c) = cellToProtocol c"
  by (simp add: cellToProtocol_def wireCell_def wireAttr_def attrBits_def colorToSpec_wire Let_def)

text \<open>
  A default colour gets the name \<open>default\<close> whatever it was called, so a blank cell, whose underline
  colour has no name, comes back as a cell that \<open>rowBlank\<close> does not take for blank.
\<close>

lemma blank_not_blank: "protocolCellToTe (cellToProtocol (defaultCell s)) \<noteq> defaultCell s"
proof -
  have "CName (UnderlineColor (CellAttr (protocolCellToTe (cellToProtocol (defaultCell s))))) = ''default''"
    "CName (UnderlineColor (CellAttr (defaultCell s))) = []"
    by (simp_all add: protocolCellToTe_def decodedAttr_def cellToProtocol_def Let_def defaultCell_def defaultAttr_def
        plainAttr_def zeroColor_def colorToSpec_def specToColor_def)
  then show ?thesis by force
qed

section \<open>Every rendition SGR sets survives\<close>

lemma color_ok_default [simp]: "color_ok defaultColor" "color_ok zeroColor"
  by (simp_all add: color_ok_def defaultColor_def zeroColor_def)

lemma plainAttr_ok [simp]: "attr_ok (plainAttr b)"
  by (simp add: attr_ok_def plainAttr_def)

lemma table_colors:
  "fgANSI k \<noteq> [] \<Longrightarrow> color_ok (colorFromName (fgANSI k) ColorANSI16 (of_int (k - 30)))"
  "bgANSI k \<noteq> [] \<Longrightarrow> color_ok (colorFromName (bgANSI k) ColorANSI16 (of_int (k - 40)))"
  "fgAixterm k \<noteq> [] \<Longrightarrow> color_ok (colorFromName (fgAixterm k) ColorANSI16 (of_int (k - 90 + 8)))"
  "bgAixterm k \<noteq> [] \<Longrightarrow> color_ok (colorFromName (bgAixterm k) ColorANSI16 (of_int (k - 100 + 8)))"
  unfolding fgANSI_def bgANSI_def fgAixterm_def bgAixterm_def str_lookup_def
  by (auto simp: color_ok_def colorFromName_def defaultColor_def ANSI16NameToIndex_def split: if_splits)

lemma applyTextAttribute_ok: "attr_ok a \<Longrightarrow> attr_ok (applyTextAttribute name a)"
  by (simp add: applyTextAttribute_def attr_ok_def)

lemma underline_style: "10000 \<le> k \<Longrightarrow> k \<le> 10005 \<Longrightarrow> of_int (k - 10000) = (0 :: 8 word) \<longleftrightarrow> k = 10000" for k :: int
proof -
  assume "10000 \<le> k" "k \<le> 10005"
  then have "k \<in> {10000, 10001, 10002, 10003, 10004, 10005}" by auto
  then show ?thesis by auto
qed

lemma sgrSimple_ok:
  assumes "attr_ok d" "attr_ok a"
  shows "attr_ok (sgrSimple d k a)"
proof -
  have "attr_ok (a\<lparr>Fg := c\<rparr>)" "attr_ok (a\<lparr>Bg := c\<rparr>)" if "color_ok c" for c
    using assms(2) that by (simp_all add: attr_ok_def)
  moreover have "attr_ok (a\<lparr>UnderlineColor := zeroColor\<rparr>)" "attr_ok (a\<lparr>Underline := True, UnderlineStyle := 2\<rparr>)"
    "attr_ok (a\<lparr>Underline := False, UnderlineStyle := 0\<rparr>)"
    "w \<noteq> 0 \<Longrightarrow> attr_ok (a\<lparr>Underline := True, UnderlineStyle := w\<rparr>)" for w
    using assms(2) by (simp_all add: attr_ok_def)
  ultimately show ?thesis
    unfolding sgrSimple_def Let_def using assms table_colors [of k] applyTextAttribute_ok [OF assms(2)] by simp
qed

lemma rgbHex_ne: "rgbHex r g b = Some n \<Longrightarrow> n \<noteq> ''''"
  by (auto simp: rgbHex_def toHex_def bind_eq_Some_conv)

lemma color_ok_extended:
  "color_ok \<lparr>CMode = ColorANSI256, CIndex = i, CName = n\<rparr>"
  "rgbHex r g b = Some n \<Longrightarrow> color_ok \<lparr>CMode = ColorTrueColor, CIndex = 0, CName = n\<rparr>"
  by (auto simp: color_ok_def dest: rgbHex_ne)

lemma extendedColor_ok: "extendedColor q = Some (Some c, rest) \<Longrightarrow> color_ok c"
  by (auto simp only: extendedColor_def bind_eq_Some_conv color_ok_extended option.inject option.distinct prod.inject
      split: list.splits if_splits)

lemma setTarget_ok: "attr_ok a \<Longrightarrow> (\<And>x. c = Some x \<Longrightarrow> color_ok x) \<Longrightarrow> attr_ok (setTarget k c a)"
  by (cases c) (simp_all add: setTarget_def attr_ok_def)

lemma sgrLoop_ok: "attr_ok d \<Longrightarrow> attr_ok a \<Longrightarrow> sgrLoop d attrs a = Some a' \<Longrightarrow> attr_ok a'"
proof (induction d attrs a rule: sgrLoop.induct)
  case (2 d k queue a)
  note step = 2(5) [unfolded sgrLoop.simps(2)]
  show ?case
  proof (cases "is_extended k")
    case True
    with step obtain c rest where q: "extendedColor queue = Some (c, rest)" "sgrLoop d rest (setTarget k c a) = Some a'"
      by (cases "extendedColor queue") (auto simp only: if_True option.case option.distinct split: prod.splits)
    then have "attr_ok (setTarget k c a)"
      by (intro setTarget_ok [OF 2(4)]) (simp add: extendedColor_ok)
    then show ?thesis using 2(1) [OF True q(1) refl] 2(3) q(2) by blast
  next
    case False
    with step show ?thesis using 2(2) [OF False 2(3) sgrSimple_ok [OF 2(3,4)]] by (simp only: if_False)
  qed
qed simp

lemma SGR_attr_ok:
  assumes "attr_ok (CurAttr (Cursor s))" "SelectGraphicRendition attrs private s = Some t"
  shows "attr_ok (CurAttr (Cursor t))"
proof (cases "private \<or> attrs = [] \<or> attrs = [0]")
  case True
  then have "t = s \<or> t = s\<lparr>Cursor := (Cursor s)\<lparr>CurAttr := defaultAttr s\<rparr>\<rparr>"
    using assms(2) unfolding SelectGraphicRendition_def by (auto split: if_splits)
  then show ?thesis using assms(1) by (auto simp: defaultAttr_def)
next
  case False
  then obtain a where "sgrLoop (defaultAttr s) attrs (CurAttr (Cursor s)) = Some a" "t = s\<lparr>Cursor := (Cursor s)\<lparr>CurAttr := a\<rparr>\<rparr>"
    using assms(2) unfolding SelectGraphicRendition_def by (auto simp: bind_eq_Some_conv)
  then show ?thesis using sgrLoop_ok [of "defaultAttr s"] assms(1) by (simp add: defaultAttr_def)
qed

end
