(* ===== verification/TuiReplay.thy ===== *)
theory TuiReplay
  imports ServerProxy TeHidden
begin

text \<open>
  The replay of protocol events on the client's screen: \<open>replayEvents\<close> and \<open>splitCharset\<close> of
  \<open>internal/tui/terminal.go\<close>. \<open>replayed\<close> is the switch: the method an event calls, if any, with its
  arguments. The screen is a handler of events, as in the proxy.
\<close>

definition splitCharset :: "string \<Rightarrow> (string \<times> string) option" where
  "splitCharset s =
    (if CHR '':'' \<in> set s
     then Some (takeWhile (\<lambda>c. c \<noteq> CHR '':'') s, tl (dropWhile (\<lambda>c. c \<noteq> CHR '':'') s)) else None)"

definition noParams :: "(string \<times> event) list" where
  "noParams = [(''lf'', Motion EvLineFeed), (''cr'', Motion EvCarriageReturn), (''tab'', Motion EvTab),
     (''bs'', Motion EvBackspace), (''ind'', Motion EvIndex), (''ri'', Motion EvReverseIndex),
     (''sc'', Motion EvSaveCursor), (''rc'', Motion EvRestoreCursor), (''decsc'', Motion EvSaveCursorDEC),
     (''decrc'', Motion EvRestoreCursorDEC), (''nel'', Motion EvNextLine), (''so'', Setting EvShiftOut),
     (''si'', Setting EvShiftIn), (''hts'', Motion EvSetTabStop), (''decaln'', Edit EvAlignmentDisplay),
     (''fi'', Motion EvForwardIndex), (''bi'', Motion EvBackIndex), (''decstr'', Setting EvSoftReset),
     (''spa'', Setting EvStartProtectedArea), (''epa'', Setting EvEndProtectedArea),
     (''reset'', Setting EvReset), (''bell'', Setting EvBell)]"

definition withParams :: "(string \<times> (int list \<Rightarrow> event)) list" where
  "withParams = [(''cup'', Motion \<circ> EvCursorPosition), (''cuu'', Motion \<circ> EvCursorUp), (''cud'', Motion \<circ> EvCursorDown),
     (''cuf'', Motion \<circ> EvCursorForward), (''cub'', Motion \<circ> EvCursorBack), (''su'', Edit \<circ> EvScrollUp),
     (''sd'', Edit \<circ> EvScrollDown), (''il'', Edit \<circ> EvInsertLines), (''dl'', Edit \<circ> EvDeleteLines),
     (''ich'', Edit \<circ> EvInsertCharacters), (''dch'', Edit \<circ> EvDeleteCharacters), (''ech'', Edit \<circ> EvEraseCharacters),
     (''decstbm'', Motion \<circ> EvSetMargins), (''cud1'', Motion \<circ> EvCursorDown1), (''cuu1'', Motion \<circ> EvCursorUp1),
     (''cha'', Motion \<circ> EvCursorToColumn), (''hpa'', Motion \<circ> EvCursorToColumnAbsolute),
     (''cbt'', Motion \<circ> EvCursorBackTab), (''cht'', Motion \<circ> EvCursorForwardTab), (''vpa'', Motion \<circ> EvCursorToLine),
     (''tbc'', Motion \<circ> EvClearTabStop), (''rep'', Edit \<circ> EvRepeatLast), (''savem'', Setting \<circ> EvSaveModes),
     (''restm'', Setting \<circ> EvRestoreModes), (''winop'', Report \<circ> EvWindowOp),
     (''titlemode'', (\<lambda>ps. Report (EvSetTitleMode ps False)))]"

text \<open>Events that need a number of parameters; with fewer, nothing is called.\<close>

definition withCount :: "(string \<times> nat \<times> (int list \<Rightarrow> event)) list" where
  "withCount = [(''decsca'', 1, \<lambda>p. Setting (EvSetCharacterProtection (p ! 0))),
     (''declrmm'', 2, \<lambda>p. Motion (EvSetLeftRightMargins (p ! 0) (p ! 1))),
     (''decic'', 1, \<lambda>p. Edit (EvInsertColumns (p ! 0))),
     (''decdc'', 1, \<lambda>p. Edit (EvDeleteColumns (p ! 0))),
     (''decer'', 4, \<lambda>p. Edit (EvEraseRectangle (p ! 0) (p ! 1) (p ! 2) (p ! 3))),
     (''decser'', 4, \<lambda>p. Edit (EvSelectiveEraseRectangle (p ! 0) (p ! 1) (p ! 2) (p ! 3))),
     (''deccra'', 6, \<lambda>p. Edit (EvCopyRectangle (p ! 0) (p ! 1) (p ! 2) (p ! 3) (p ! 4) (p ! 5))),
     (''decscl'', 2, \<lambda>p. Setting (EvSetConformance (p ! 0) (p ! 1))),
     (''decscusr'', 1, \<lambda>p. Setting (EvSetCursorStyle (p ! 0))),
     (''decsasd'', 1, \<lambda>p. Setting (EvSetActiveStatusDisplay (p ! 0)))]"

text \<open>The cases that read other fields.\<close>

definition withData :: "TerminalEvent \<Rightarrow> event option" where
  "withData ev =
    (if evOp ev = ''draw'' then Some (Edit (EvDraw (evData ev)))
     else if evOp ev = ''ed'' then Some (Edit (EvEraseInDisplay (evHow ev) (evPrivate ev) []))
     else if evOp ev = ''el'' then Some (Edit (EvEraseInLine (evHow ev) (evPrivate ev) []))
     else if evOp ev = ''sgr'' then Some (Setting (EvSelectGraphicRendition (evAttrs ev) (evPrivate ev)))
     else if evOp ev = ''decfra'' then
       (if 4 \<le> length (evParams ev) \<and> evData ev \<noteq> ''''
        then Some (Edit (EvFillRectangle (hd (runes (evData ev))) (evParams ev ! 0) (evParams ev ! 1)
                           (evParams ev ! 2) (evParams ev ! 3)))
        else None)
     else if evOp ev = ''icon'' then Some (Report (EvSetIconName (evData ev)))
     else if evOp ev = ''charset'' then
       map_option (\<lambda>(code, mode). Setting (EvDefineCharset code mode)) (splitCharset (evData ev))
     else if evOp ev = ''title'' then Some (Report (EvSetTitle (evData ev)))
     else if evOp ev = ''sm'' then Some (Setting (EvSetMode (evParams ev) (evPrivate ev)))
     else if evOp ev = ''rm'' then Some (Setting (EvResetMode (evParams ev) (evPrivate ev)))
     else None)"

definition replayed :: "TerminalEvent \<Rightarrow> event option" where
  "replayed ev =
    (case map_of noParams (evOp ev) of Some e \<Rightarrow> Some e
     | None \<Rightarrow>
    (case map_of withParams (evOp ev) of Some f \<Rightarrow> Some (f (evParams ev))
     | None \<Rightarrow>
    (case map_of withCount (evOp ev) of
       Some (n, f) \<Rightarrow> if n \<le> length (evParams ev) then Some (f (evParams ev)) else None
     | None \<Rightarrow> withData ev)))"

text \<open>Entering or leaving the alternate screen asks the terminal around the client to be cleared.\<close>

definition altScreenModes :: "int list" where
  "altScreenModes = [1049, 1047, 47]"

definition clears :: "TerminalEvent \<Rightarrow> bool" where
  "clears ev \<longleftrightarrow>
    (evOp ev = ''sm'' \<or> evOp ev = ''rm'') \<and> evPrivate ev \<and> list_ex (\<lambda>m. m \<in> set altScreenModes) (evParams ev)"

definition replayEvents ::
  "(event \<Rightarrow> 's \<Rightarrow> 's option) \<Rightarrow> TerminalEvent list \<Rightarrow> 's \<Rightarrow> ('s \<times> bool) option" where
  "replayEvents H evs s =
    map_option (\<lambda>s. (s, list_ex clears evs))
      (for_each (\<lambda>ev s. case replayed ev of None \<Rightarrow> Some s | Some e \<Rightarrow> H e s) evs s)"

section \<open>What a recorded event replays as\<close>

lemma splitCharset_join: "CHR '':'' \<notin> set code \<Longrightarrow> splitCharset (code @ '':'' @ mode) = Some (code, mode)"
  by (auto simp: splitCharset_def takeWhile_append dropWhile_append)

lemmas replay_tables = replayed_def noParams_def withParams_def withCount_def withData_def opEvent_def paramsEvent_def
  dataEvent_def

lemma replayed_motion: "replayed (captured_motion e) = Some (Motion e)"
  by (cases e) (simp_all add: replay_tables)

lemma replayed_edit:
  "captured_edit e \<bind> replayed =
    (case e of
       EvEraseInDisplay how private rest \<Rightarrow> Some (Edit (EvEraseInDisplay how private []))
     | EvEraseInLine how private rest \<Rightarrow> Some (Edit (EvEraseInLine how private []))
     | EvFillRectangle ch t l b r \<Rightarrow> Some (Edit (EvFillRectangle (hd (runes (encode_rune ch))) t l b r))
     | EvEraseInDisplaySelective how \<Rightarrow> None
     | _ \<Rightarrow> Some (Edit e))"
  by (cases e) (simp_all add: replay_tables)

lemma replayed_setting:
  "captured_setting e \<bind> replayed =
    (case e of
       EvDebug a \<Rightarrow> None
     | EvDefineCharset code mode \<Rightarrow>
         map_option (\<lambda>(code, mode). Setting (EvDefineCharset code mode)) (splitCharset (code @ '':'' @ mode))
     | _ \<Rightarrow> Some (Setting e))"
  by (cases e) (simp_all add: replay_tables)

lemma replayed_report:
  "captured_report e \<bind> replayed =
    (case e of
       EvSetTitle t \<Rightarrow> Some (Report e) | EvSetIconName t \<Rightarrow> Some (Report e) | EvWindowOp ps \<Rightarrow> Some (Report e)
     | EvSetTitleMode ps b \<Rightarrow> Some (Report (EvSetTitleMode ps False))
     | _ \<Rightarrow> None)"
  by (cases e) (simp_all add: replay_tables)

section \<open>The client follows the server\<close>

text \<open>
  Two methods do not survive the wire: the flag of \<open>SetTitleMode\<close> is not recorded and the selective
  erase of the whole display (\<open>CSI ? 3 J\<close>) is not recorded at all. A charset designation is recorded
  as \<open>code:mode\<close>, so a code with a colon would be split in the wrong place (the parser delivers
  none).
\<close>

fun faithful :: "event \<Rightarrow> bool" where
  "faithful (Report (EvSetTitleMode ps reset)) \<longleftrightarrow> \<not> reset"
| "faithful (Edit (EvEraseInDisplaySelective how)) \<longleftrightarrow> False"
| "faithful (Setting (EvDefineCharset code mode)) \<longleftrightarrow> CHR '':'' \<notin> set code"
| "faithful e \<longleftrightarrow> True"

lemma encode_rune_scalar: "encode_rune ch = encode_rune (if scalar ch then ch else RuneError)"
  by (auto simp: encode_rune_def scalar_def RuneError_def)

lemma runes_encode_rune: "runes (encode_rune ch) = [if scalar ch then ch else RuneError]"
  using runes_encode [of "if scalar ch then ch else RuneError" "[]"]
  by (subst encode_rune_scalar) (simp add: scalar_def RuneError_def)

lemma fill_same: "FillRectangle (hd (runes (encode_rune ch))) = FillRectangle ch"
  by (intro ext)
    (simp add: FillRectangle_def runes_encode_rune string_of_runes_def encode_rune_scalar [symmetric], auto simp: scalar_def RuneError_def)

text \<open>What is recorded replays as the same call, up to arguments the screen does not read.\<close>

lemma replayed_same:
  assumes "faithful e" "captured e = Some ev"
  shows "\<exists>e'. replayed ev = Some e' \<and> history_handle E e' h = history_handle E e h"
proof (cases e)
  case (Motion m)
  then show ?thesis using assms replayed_motion [of m] by auto
next
  case (Edit d)
  have args: "screen_edit E (EvEraseInLine how p rest) = EraseInLine how p"
    "screen_edit E (EvFillRectangle ch t l b r) = FillRectangle ch t l b r" for how p rest ch t l b r
    by (simp_all add: fun_eq_iff)
  have r: "replayed ev = captured_edit d \<bind> replayed" "captured_edit d \<noteq> None" using assms(2) Edit by simp_all
  show ?thesis
    using assms(1) r(2) unfolding r(1) replayed_edit by (cases d) (simp_all add: Edit onScreen_def args fill_same)
next
  case (Setting d)
  have r: "replayed ev = captured_setting d \<bind> replayed" "captured_setting d \<noteq> None" using assms(2) Setting by simp_all
  show ?thesis
    using assms(1) r(2) unfolding r(1) replayed_setting by (cases d) (simp_all add: Setting splitCharset_join [simplified])
next
  case (Report d)
  have r: "replayed ev = captured_report d \<bind> replayed" "captured_report d \<noteq> None" using assms(2) Report by simp_all
  show ?thesis
    using assms(1) r(2) unfolding r(1) replayed_report by (cases d) (simp_all add: Report)
qed

text \<open>
  The method calls that are not recorded are queries: they change what is displayed only in that the
  history screen settles the cursor's visibility after every call, so on a settled screen nothing.
\<close>

definition settled :: "HistoryScreen \<Rightarrow> bool" where
  "settled h \<longleftrightarrow> Hidden (Cursor (hscr h)) = (\<not> isModeSet (hscr h) ModeDECTCEM)"

lemma settled_after: "live h \<Longrightarrow> settled h \<Longrightarrow> afterEvent False h = h"
  by (simp add: settled_def afterEvent_def live_def Let_def)

lemma displayed_screen: "shown t = shown (hscr h) \<Longrightarrow> displayed (h\<lparr>hscr := t\<rparr>) = displayed h"
  by (simp add: displayed_def)

lemma unrecorded_silent:
  assumes "live h" "settled h" "faithful e" "captured e = None" "history_handle E e h = Some k"
  shows "displayed k = displayed h"
proof (cases e)
  case (Report d)
  then have silent: "silent d" using assms(4) by (cases d) (simp_all add: silent_def)
  obtain t where t: "screen_report E d (hscr h) = Some t" using silent_returns [OF silent] by blast
  then have seen: "shown t = shown (hscr h)" by (rule silent_shown [OF silent])
  then obtain v where v: "t = hid v (hscr h)" using shown_eq by metis
  have way: "history_report E d h = onScreen (screen_report E d) h \<or>
      history_report E d h = aroundEvent (onScreen (screen_report E d)) h"
    by (cases d) (simp_all del: screen_report.simps)
  have "onScreen (screen_report E d) h = Some (hidh v h)" by (simp add: onScreen_def t v hidh_def)
  with way have "k = hidh v h"
    using assms(5) by (auto simp: Report aroundEvent_of_live [OF assms(1)] afterEvent_hid settled_after [OF assms(1,2)])
  then show ?thesis by simp
next
  case (Setting d)
  then show ?thesis using assms(4,5) by (cases d) (simp_all add: onScreen_def)
next
  case (Edit d)
  then show ?thesis using assms(3,4) by (cases d) simp_all
qed (use assms(4) in simp)

text \<open>One recorded event, replayed on a screen that is displayed alike.\<close>

definition replay_step :: "(event \<Rightarrow> 's \<Rightarrow> 's option) \<Rightarrow> TerminalEvent \<Rightarrow> 's \<Rightarrow> 's option" where
  "replay_step H ev s = (case replayed ev of None \<Rightarrow> Some s | Some e \<Rightarrow> H e s)"

lemma replayEvents_steps:
  "replayEvents H evs s = map_option (\<lambda>s. (s, list_ex clears evs)) (for_each (replay_step H) evs s)"
  by (simp add: replayEvents_def replay_step_def [abs_def])

lemma replay_step_follows:
  assumes "live h" "displayed k = displayed h" "faithful e" "captured e = Some ev"
    "history_handle E e h = Some h'"
  shows "\<exists>k'. replay_step (history_handle E) ev k = Some k' \<and> displayed k' = displayed h'"
proof -
  obtain e' where "replayed ev = Some e'" and same: "history_handle E e' h = history_handle E e h"
    using replayed_same [OF assms(3,4)] by metis
  moreover have "map_option displayed (history_handle E e' h) = map_option displayed (history_handle E e' k)"
    using displayed_handle [OF assms(1)] assms(2) by metis
  ultimately show ?thesis
    using assms(5) by (cases "history_handle E e' k") (auto simp: replay_step_def)
qed

text \<open>
  A run of the parser's events through the proxy in which every event is faithful, and the screen is
  settled whenever an unrecorded query comes.
\<close>

fun calm :: "textlib \<Rightarrow> event list \<Rightarrow> HistoryScreen \<Rightarrow> bool" where
  "calm E [] h \<longleftrightarrow> True"
| "calm E (e # es) h \<longleftrightarrow>
    faithful e \<and> (captured e = None \<longrightarrow> settled h) \<and>
    (case history_handle E e h of None \<Rightarrow> False | Some h' \<Rightarrow> calm E es h')"

lemma batch_follows:
  assumes "for_each (proxy_handle (history_handle E)) es p = Some q"
    "live (pscreen p)" "displayed k = displayed (pscreen p)" "calm E es (pscreen p)"
  shows "\<exists>evs k'. batch q = batch p @ evs \<and> for_each (replay_step (history_handle E)) evs k = Some k' \<and>
    displayed k' = displayed (pscreen q) \<and> live (pscreen q)"
  using assms
proof (induction es arbitrary: p k)
  case (Cons e es)
  let ?H = "history_handle E"
  obtain h' where h': "?H e (pscreen p) = Some h'"
    and rest: "for_each (proxy_handle ?H) es (record_event e (p\<lparr>pscreen := h'\<rparr>)) = Some q"
    using Cons.prems(1) by (cases "?H e (pscreen p)") (simp_all add: proxy_handle_def [abs_def])
  let ?p = "record_event e (p\<lparr>pscreen := h'\<rparr>)"
  have live: "live h'" using live.handled_keeps [OF Cons.prems(2) h'] .
  have calm: "calm E es h'" "faithful e" "captured e = None \<Longrightarrow> settled (pscreen p)"
    using Cons.prems(4) h' by auto
  let ?new = "case captured e of Some ev \<Rightarrow> [ev] | None \<Rightarrow> []"
  have "\<exists>k1. for_each (replay_step ?H) ?new k = Some k1 \<and> displayed k1 = displayed h'"
  proof (cases "captured e")
    case None
    then show ?thesis
      using unrecorded_silent [OF Cons.prems(2) _ calm(2) _ h'] calm(3) Cons.prems(3) by simp
  next
    case (Some ev)
    then show ?thesis
      using replay_step_follows [OF Cons.prems(2,3) calm(2) _ h'] by (auto split: bind_splits)
  qed
  then obtain k1 where k1: "for_each (replay_step ?H) ?new k = Some k1" "displayed k1 = displayed h'" by blast
  obtain evs k' where "batch q = batch ?p @ evs" "for_each (replay_step ?H) evs k1 = Some k'"
    "displayed k' = displayed (pscreen q)" "live (pscreen q)"
    using Cons.IH [OF rest, of k1] live k1(2) calm(1) by auto
  then show ?case
    using k1(1) by (intro exI [of _ "?new @ evs"] exI [of _ k']) (simp add: for_each_append)
qed simp

lemma settled_around:
  assumes "live h" "aroundEvent f h = Some k" "live k"
  shows "settled k"
proof -
  obtain j where "f h = Some j" "k = afterEvent False j" using assms(2) by (auto simp: aroundEvent_of_live [OF assms(1)])
  then show ?thesis using assms(3) by (simp add: settled_def afterEvent_def live_def Let_def isModeSet_def)
qed

end
