(* ===== verification/TeState.thy ===== *)
theory TeState
  imports TeScrollback
begin

text \<open>
  The saved state of a screen and of a history screen: \<open>state.go\<close> and \<open>history_state.go\<close> of
  \<open>pkg/te\<close>, which the live upgrade of the server sends as JSON from the old process to the new one.
  The copy helpers of the code copy slices, maps and pointers; on values they are the identity and
  have no definition here. \<open>jsonState\<close> is what the JSON transport does to a state: the tag
  \<open>omitempty\<close> leaves out an empty map, which comes back nil. A nil slice is the empty list, and
  a nil \<open>Mode\<close>, \<open>SavedModes\<close> or palette is made on its first write, so for these nil and empty are one.
\<close>

section \<open>The screen\<close>

record ScreenState =
  ssColumns :: int
  ssLines :: int
  ssBuffer :: "Cell grid"
  ssAltBuffer :: "Cell grid"
  ssAltActive :: bool
  ssAltSavepoints :: "Savepoint list"
  ssAltLineWrapped :: "(int \<rightharpoonup> bool) option"
  ssAltWrapNext :: bool
  ssAltSavedCursor :: "CursorT option"
  ssCursor :: CursorT
  ssMode :: "int \<rightharpoonup> bool"
  ssTabStops :: "(int \<rightharpoonup> bool) option"
  ssSavedModes :: "int \<rightharpoonup> bool"
  ssMargins :: "MarginsT option"
  ssLeftMargin :: int
  ssRightMargin :: int
  ssCursorStyle :: int
  ssCharProtectionMode :: int
  ssStatusDisplay :: int
  ssConformanceLevel :: int
  ssConformanceExplicit :: bool
  ssIndexedColors :: int
  ssCharset :: int
  ssG0 :: "rune list"
  ssG1 :: "rune list"
  ssSavepoints :: "Savepoint list"
  ssSavedColumns :: "int option"
  ssLineWrapped :: "(int \<rightharpoonup> bool) option"
  ssWrapNext :: bool
  ssLastDrawn :: string
  ssTitle :: string
  ssIconName :: string
  ssTitleStack :: "string list"
  ssIconStack :: "string list"
  ssTitleHexInput :: bool
  ssTitleHexOutput :: bool
  ssColorPalette :: "int \<rightharpoonup> string"
  ssDynamicColors :: "int \<rightharpoonup> string"
  ssSpecialColors :: "int \<rightharpoonup> string"
  ssSelectionData :: "string \<rightharpoonup> string"
  ssWindowPosX :: int
  ssWindowPosY :: int
  ssWindowPixelWidth :: int
  ssWindowPixelHeight :: int
  ssScreenPixelWidth :: int
  ssScreenPixelHeight :: int
  ssCharPixelWidth :: int
  ssCharPixelHeight :: int
  ssWindowIconified :: bool

definition trimmableBlank :: "Cell \<Rightarrow> bool" where
  "trimmableBlank c \<longleftrightarrow>
    (Data c = '''' \<or> Data c = '' '' \<or> Data c = [CHR 0x00]) \<and>
    (let a = CellAttr c in
     CMode (Fg a) = ColorDefault \<and> CMode (Bg a) = ColorDefault \<and>
     CMode (UnderlineColor a) = ColorDefault \<and> UnderlineStyle a = 0 \<and>
     \<not> Bold a \<and> \<not> Faint a \<and> \<not> Italics a \<and> \<not> Underline a \<and> \<not> Strikethrough a \<and>
     \<not> Reverse a \<and> \<not> Blink a \<and> \<not> Conceal a \<and> \<not> Overline a \<and>
     \<not> Protected a \<and> \<not> ISOProtected a)"

text \<open>The loop of \<open>trimBuffer\<close> over the last index of a row.\<close>

function trimLast :: "Cell list \<Rightarrow> int \<Rightarrow> int" where
  "trimLast line k = (if k \<ge> 0 \<and> trimmableBlank (line ! nat k) then trimLast line (k - 1) else k)"
  by pat_completeness auto

termination
  by (relation "measure (\<lambda>(_, k). nat (k + 1))") auto

declare trimLast.simps [simp del]

definition trimRow :: "Cell list \<Rightarrow> Cell list" where
  "trimRow line = take (nat (trimLast line (len line - 1) + 1)) line"

definition trimBuffer :: "Cell grid \<Rightarrow> Cell grid" where
  "trimBuffer = map trimRow"

text \<open>\<open>padRow\<close> is the inner loop: a line that is long enough stays as it is.\<close>

definition padRow :: "int \<Rightarrow> Cell \<Rightarrow> Cell list \<Rightarrow> Cell list" where
  "padRow cols blank line = line @ replicate (nat (cols - len line)) blank"

definition padRowsToColumns :: "Cell grid \<Rightarrow> int \<Rightarrow> Cell \<Rightarrow> Cell grid" where
  "padRowsToColumns buf cols blank = map (padRow cols blank) buf"

definition setToBoolMap :: "int set \<Rightarrow> int \<rightharpoonup> bool" where
  "setToBoolMap m = (\<lambda>k. if k \<in> m then Some True else None)"

definition boolToSetMap :: "(int \<rightharpoonup> bool) \<Rightarrow> int set" where
  "boolToSetMap m = {k. m k = Some True}"

definition MarshalState :: "Screen \<Rightarrow> ScreenState" where
  "MarshalState s =
    \<lparr>ssColumns = Columns s, ssLines = Lines s, ssBuffer = trimBuffer (Buffer s),
     ssAltBuffer = trimBuffer (altBuffer s), ssAltActive = altActive s, ssAltSavepoints = altSavepoints s,
     ssAltLineWrapped = altLineWrapped s, ssAltWrapNext = altWrapNext s, ssAltSavedCursor = altSavedCursor s,
     ssCursor = Cursor s, ssMode = setToBoolMap (Mode s),
     ssTabStops = map_option setToBoolMap (TabStops s), ssSavedModes = savedModes s, ssMargins = Margins s,
     ssLeftMargin = leftMargin s, ssRightMargin = rightMargin s, ssCursorStyle = cursorStyle s,
     ssCharProtectionMode = charProtectionMode s, ssStatusDisplay = statusDisplay s,
     ssConformanceLevel = conformanceLevel s, ssConformanceExplicit = conformanceExplicit s,
     ssIndexedColors = indexedColors s, ssCharset = Charset s, ssG0 = G0 s, ssG1 = G1 s,
     ssSavepoints = Savepoints s, ssSavedColumns = SavedColumns s, ssLineWrapped = lineWrapped s,
     ssWrapNext = wrapNext s, ssLastDrawn = lastDrawn s, ssTitle = Title s, ssIconName = IconName s,
     ssTitleStack = titleStack s, ssIconStack = iconStack s, ssTitleHexInput = titleHexInput s,
     ssTitleHexOutput = titleHexOutput s, ssColorPalette = colorPalette s, ssDynamicColors = dynamicColors s,
     ssSpecialColors = specialColors s, ssSelectionData = selectionData s, ssWindowPosX = windowPosX s,
     ssWindowPosY = windowPosY s, ssWindowPixelWidth = windowPixelWidth s, ssWindowPixelHeight = windowPixelHeight s,
     ssScreenPixelWidth = screenPixelWidth s, ssScreenPixelHeight = screenPixelHeight s,
     ssCharPixelWidth = charPixelWidth s, ssCharPixelHeight = charPixelHeight s, ssWindowIconified = windowIconified s\<rparr>"

definition UnmarshalState :: "ScreenState \<Rightarrow> Screen \<Rightarrow> Screen" where
  "UnmarshalState st s =
    (let s = s\<lparr>Columns := ssColumns st, Lines := ssLines st, Buffer := ssBuffer st,
       altBuffer := ssAltBuffer st, altActive := ssAltActive st, altSavepoints := ssAltSavepoints st,
       altLineWrapped := ssAltLineWrapped st, altWrapNext := ssAltWrapNext st, altSavedCursor := ssAltSavedCursor st,
       Cursor := ssCursor st, Mode := boolToSetMap (ssMode st),
       TabStops := map_option boolToSetMap (ssTabStops st), savedModes := ssSavedModes st, Margins := ssMargins st,
       leftMargin := ssLeftMargin st, rightMargin := ssRightMargin st, cursorStyle := ssCursorStyle st,
       charProtectionMode := ssCharProtectionMode st, statusDisplay := ssStatusDisplay st,
       conformanceLevel := ssConformanceLevel st, conformanceExplicit := ssConformanceExplicit st,
       indexedColors := ssIndexedColors st, Charset := ssCharset st, G0 := ssG0 st, G1 := ssG1 st,
       Savepoints := ssSavepoints st, SavedColumns := ssSavedColumns st, lineWrapped := ssLineWrapped st,
       wrapNext := ssWrapNext st, lastDrawn := ssLastDrawn st, Title := ssTitle st, IconName := ssIconName st,
       titleStack := ssTitleStack st, iconStack := ssIconStack st, titleHexInput := ssTitleHexInput st,
       titleHexOutput := ssTitleHexOutput st, colorPalette := ssColorPalette st, dynamicColors := ssDynamicColors st,
       specialColors := ssSpecialColors st, selectionData := ssSelectionData st, windowPosX := ssWindowPosX st,
       windowPosY := ssWindowPosY st, windowPixelWidth := ssWindowPixelWidth st, windowPixelHeight := ssWindowPixelHeight st,
       screenPixelWidth := ssScreenPixelWidth st, screenPixelHeight := ssScreenPixelHeight st,
       charPixelWidth := ssCharPixelWidth st, charPixelHeight := ssCharPixelHeight st, windowIconified := ssWindowIconified st\<rparr>;
       blank = defaultCell s
     in s\<lparr>Buffer := padRowsToColumns (Buffer s) (Columns s) blank,
          altBuffer := padRowsToColumns (altBuffer s) (Columns s) blank,
          Dirty := {0..<Lines s}\<rparr>)"

section \<open>The history screen\<close>

record HistoryState =
  hsScreen :: ScreenState
  hsTopItems :: "Cell list list"
  hsBottomItems :: "Cell list list"
  hsRatio :: rat
  hsSize :: int
  hsPosition :: int
  hsTotalAdded :: "64 word"
  hsFirstSeq :: "64 word"

definition historyMarshalState :: "HistoryScreen \<Rightarrow> HistoryState" where
  "historyMarshalState h =
    (let H = history h in
     \<lparr>hsScreen = MarshalState (hscr h), hsTopItems = trimBuffer (items (HTop H)),
      hsBottomItems = trimBuffer (items (HBottom H)), hsRatio = Ratio H, hsSize = HSize H, hsPosition = Position H,
      hsTotalAdded = TotalAdded H, hsFirstSeq = FirstSeq H\<rparr>)"

definition historyUnmarshalState :: "HistoryState \<Rightarrow> HistoryScreen \<Rightarrow> HistoryScreen" where
  "historyUnmarshalState st h =
    (let s = UnmarshalState (hsScreen st) (hscr h); blank = defaultCell s;
         H = \<lparr>HTop = \<lparr>items = padRowsToColumns (hsTopItems st) (Columns s) blank, dmax = hsSize st\<rparr>,
              HBottom = \<lparr>items = padRowsToColumns (hsBottomItems st) (Columns s) blank, dmax = hsSize st\<rparr>,
              Ratio = hsRatio st, HSize = hsSize st, Position = hsPosition st,
              TotalAdded = hsTotalAdded st, FirstSeq = hsFirstSeq st\<rparr>;
         n = word_of_int (len (hsTopItems st));
         H = (if hsFirstSeq st = 0 \<and> hsTotalAdded st > n then H\<lparr>FirstSeq := hsTotalAdded st - n\<rparr> else H)
     in h\<lparr>hscr := s, history := H\<rparr>)"

section \<open>The JSON transport\<close>

definition jsonMap :: "(int \<rightharpoonup> bool) option \<Rightarrow> (int \<rightharpoonup> bool) option" where
  "jsonMap m = (if m = Some Map.empty then None else m)"

definition jsonState :: "ScreenState \<Rightarrow> ScreenState" where
  "jsonState st = st\<lparr>ssAltLineWrapped := jsonMap (ssAltLineWrapped st), ssTabStops := jsonMap (ssTabStops st),
     ssLineWrapped := jsonMap (ssLineWrapped st)\<rparr>"

definition jsonHistory :: "HistoryState \<Rightarrow> HistoryState" where
  "jsonHistory st = st\<lparr>hsScreen := jsonState (hsScreen st)\<rparr>"

text \<open>The screen a new process works on: \<open>RestoreRegion\<close> after the state file was written and read.\<close>

definition upgraded :: "HistoryScreen \<Rightarrow> HistoryScreen \<Rightarrow> HistoryScreen" where
  "upgraded h h0 = historyUnmarshalState (jsonHistory (historyMarshalState h)) h0"

section \<open>What comes back\<close>

text \<open>A cell of a row that only blanks follow, itself included.\<close>

definition blankFrom :: "Cell list \<Rightarrow> int \<Rightarrow> bool" where
  "blankFrom line x \<longleftrightarrow> (\<forall>i. x \<le> i \<and> i < len line \<longrightarrow> trimmableBlank (line ! nat i))"

lemma trimLast_spec:
  shows "trimLast line k \<le> k"
    "\<forall>i. trimLast line k < i \<and> 0 \<le> i \<and> i \<le> k \<longrightarrow> trimmableBlank (line ! nat i)"
    "0 \<le> trimLast line k \<longrightarrow> \<not> trimmableBlank (line ! nat (trimLast line k))"
proof -
  have "trimLast line k \<le> k \<and>
    (\<forall>i. trimLast line k < i \<and> 0 \<le> i \<and> i \<le> k \<longrightarrow> trimmableBlank (line ! nat i)) \<and>
    (0 \<le> trimLast line k \<longrightarrow> \<not> trimmableBlank (line ! nat (trimLast line k)))"
  proof (induction line k rule: trimLast.induct)
    case (1 line k)
    show ?case
    proof (cases "k \<ge> 0 \<and> trimmableBlank (line ! nat k)")
      case True
      then have "trimLast line k = trimLast line (k - 1)" using trimLast.simps [of line k] by simp
      then show ?thesis using 1 [OF True] True by (metis linorder_not_less order_le_less zle_diff1_eq)
    next
      case False
      then have "trimLast line k = k" using trimLast.simps [of line k] by auto
      then show ?thesis using False by auto
    qed
  qed
  then show "trimLast line k \<le> k"
    "\<forall>i. trimLast line k < i \<and> 0 \<le> i \<and> i \<le> k \<longrightarrow> trimmableBlank (line ! nat i)"
    "0 \<le> trimLast line k \<longrightarrow> \<not> trimmableBlank (line ! nat (trimLast line k))" by simp_all
qed

lemma trimLast_least: "-1 \<le> k \<Longrightarrow> -1 \<le> trimLast line k"
  by (induction line k rule: trimLast.induct) (subst trimLast.simps, auto)

text \<open>Trimming and padding a row: its cells, but the trailing blanks become the blank.\<close>

definition restoreRow :: "int \<Rightarrow> Cell \<Rightarrow> Cell list \<Rightarrow> Cell list" where
  "restoreRow cols blank line = padRow cols blank (trimRow line)"

lemma length_trimRow: "int (length (trimRow line)) = trimLast line (len line - 1) + 1"
  using trimLast_spec(1) [of line "len line - 1"] trimLast_least [of "len line - 1" line]
  by (simp add: trimRow_def len_def)

lemma restoreRow_length: "int (length (restoreRow cols blank line)) = max cols (trimLast line (len line - 1) + 1)"
  using length_trimRow [of line] trimLast_least [of "len line - 1" line]
  by (simp add: restoreRow_def padRow_def len_def)

lemma restoreRow_width: "len line = cols \<Longrightarrow> int (length (restoreRow cols blank line)) = cols"
  using trimLast_spec(1) [of line "len line - 1"] by (simp add: restoreRow_length)

lemma blankFrom_iff:
  assumes "0 \<le> x" "x < len line"
  shows "blankFrom line x \<longleftrightarrow> trimLast line (len line - 1) < x"
  using trimLast_spec [of line "len line - 1"] assms trimLast_least [of "len line - 1" line]
  unfolding blankFrom_def by (smt (verit, best))

lemma restoreRow_nth:
  assumes "0 \<le> x" "x < len line" "len line = cols"
  shows "restoreRow cols blank line ! nat x = (if blankFrom line x then blank else line ! nat x)"
  using length_trimRow [of line] blankFrom_iff [OF assms(1,2)] assms
    trimLast_least [of "len line - 1" line] trimLast_spec(1) [of line "len line - 1"]
  by (auto simp: restoreRow_def padRow_def trimRow_def nth_append len_def min_def)

lemma restore_buffer: "padRowsToColumns (trimBuffer g) cols blank = map (restoreRow cols blank) g"
  by (simp add: padRowsToColumns_def trimBuffer_def restoreRow_def)

lemma restore_grid_ok: "grid_ok L C g \<Longrightarrow> grid_ok L C (map (restoreRow C blank) g)"
  by (auto simp: grid_ok_def restoreRow_width len_def)

lemma restore_cell:
  assumes "grid_ok L C g" "inside L C y x"
  shows "cell_at (map (restoreRow C blank) g) y x = (if blankFrom (g ! nat y) x then blank else cell_at g y x)"
proof -
  have "nat y < length g" using assms by (auto simp: inside_def grid_ok_def)
  moreover from this have "len (g ! nat y) = C" using assms(1) by (simp add: grid_ok_def len_def)
  ultimately show ?thesis using assms(2) by (simp add: cell_at_def inside_def restoreRow_nth)
qed

lemma bool_set_map [simp]: "boolToSetMap (setToBoolMap m) = m" "setToBoolMap m = Map.empty \<longleftrightarrow> m = {}"
  by (auto simp: boolToSetMap_def setToBoolMap_def fun_eq_iff)

lemma restored_fields:
  "UnmarshalState (jsonState (MarshalState s)) s0 =
    s\<lparr>Buffer := map (restoreRow (Columns s) (defaultCell s)) (Buffer s),
      altBuffer := map (restoreRow (Columns s) (defaultCell s)) (altBuffer s),
      Dirty := {0..<Lines s}, processInput := processInput s0, TerminalName := TerminalName s0,
      lineWrapped := jsonMap (lineWrapped s), altLineWrapped := jsonMap (altLineWrapped s),
      TabStops := (if TabStops s = Some {} then None else TabStops s)\<rparr>"
  by (cases "TabStops s")
    (simp_all add: UnmarshalState_def MarshalState_def jsonState_def Let_def restore_buffer defaultCell_def defaultAttr_def
      isModeSet_def jsonMap_def)

lemma jsonMap_some: "m \<noteq> Some Map.empty \<Longrightarrow> jsonMap m = m"
  by (simp add: jsonMap_def)

lemma restored_wf:
  assumes "wf_screen s" "lineWrapped s \<noteq> Some Map.empty" "TabStops s \<noteq> Some {}" "altLineWrapped s \<noteq> Some Map.empty"
  shows "wf_screen (UnmarshalState (jsonState (MarshalState s)) s0)"
  using assms restore_grid_ok
  by (auto simp: restored_fields wf_screen_def jsonMap_some)

section \<open>The scrollback\<close>

lemma upgraded_screen: "hscr (upgraded h h0) = UnmarshalState (jsonState (MarshalState (hscr h))) (hscr h0)"
  by (simp add: upgraded_def historyUnmarshalState_def jsonHistory_def historyMarshalState_def Let_def)

text \<open>
  The rows come back trimmed and padded. The backfill of \<open>FirstSeq\<close>, meant for states of older
  versions, does nothing to a log whose numbers are consistent.
\<close>

lemma upgraded_history:
  assumes "tracks L (history h)" "dmax (HTop (history h)) = HSize (history h)" "dmax (HBottom (history h)) = HSize (history h)"
    and "length L < 2 ^ 64"
  shows "history (upgraded h h0) = (history h)
    \<lparr>HTop := \<lparr>items = map (restoreRow (Columns (hscr h)) (defaultCell (hscr h))) (items (HTop (history h))), dmax = HSize (history h)\<rparr>,
     HBottom := \<lparr>items = map (restoreRow (Columns (hscr h)) (defaultCell (hscr h))) (items (HBottom (history h))), dmax = HSize (history h)\<rparr>\<rparr>"
proof -
  let ?s = "UnmarshalState (jsonState (MarshalState (hscr h))) (hscr h0)"
  have s: "Columns ?s = Columns (hscr h)" "defaultCell ?s = defaultCell (hscr h)"
    by (simp_all add: restored_fields defaultCell_def defaultAttr_def isModeSet_def)
  obtain k where k: "k \<le> length L" "items (HTop (history h)) = drop k L" "FirstSeq (history h) = word_of_nat k"
    "TotalAdded (history h) = word_of_nat (length L)" using assms(1) by (auto simp: tracks_def)
  have "\<not> word_of_int (len (drop k L)) < (word_of_nat (length L) :: 64 word)" if "(word_of_nat k :: 64 word) = 0"
  proof -
    have "unat (word_of_nat k :: 64 word) = k" using k(1) assms(4) by (simp add: unat_of_nat take_bit_nat_eq_self)
    with that have "k = 0" by simp
    then show ?thesis by (simp add: len_def)
  qed
  with k show ?thesis
    by (simp add: upgraded_def historyUnmarshalState_def jsonHistory_def historyMarshalState_def Let_def s
        trimBuffer_def padRowsToColumns_def restoreRow_def len_def)
qed

lemma upgraded_tracks:
  assumes "tracks L (history h)" "history_ok (history h)" "length L < 2 ^ 64"
  shows "tracks (map (restoreRow (Columns (hscr h)) (defaultCell (hscr h))) L) (history (upgraded h h0))"
proof -
  have "history (upgraded h h0) = (history h)
    \<lparr>HTop := \<lparr>items = map (restoreRow (Columns (hscr h)) (defaultCell (hscr h))) (items (HTop (history h))), dmax = HSize (history h)\<rparr>,
     HBottom := \<lparr>items = map (restoreRow (Columns (hscr h)) (defaultCell (hscr h))) (items (HBottom (history h))), dmax = HSize (history h)\<rparr>\<rparr>"
    by (rule upgraded_history [OF assms(1) _ _ assms(3)]) (use assms(2) in \<open>simp_all add: history_ok_def\<close>)
  then show ?thesis using assms(1) by (auto simp: tracks_def drop_map)
qed

section \<open>An empty map comes back nil\<close>

text \<open>
  A cluster of width 1 drawn into the last column marks the row as wrapped: with a nil map that
  panics.
\<close>

lemma draw_last_column:
  assumes "translate s d = Some d'" "graphemes E d' = [c]" "string_width E c = 1"
    and "ModeDECAWM \<in> Mode s" "ModeIRM \<notin> Mode s" "\<not> wrapNext s" "col s = drawLimit s"
    and "lineWrapped s = None"
  shows "Draw E d s = None"
proof -
  have p: "drawPrepare 1 s = Some s"
    using assms by (simp add: drawPrepare_def isModeSet_def)
  have "drawAdvance c 1 (drawLimit s) t = None" if "lineWrapped t = None" "col t = col s" "Mode t = Mode s" for t
    using that assms(4,7) by (simp add: drawAdvance_def Let_def markWrapped_def isModeSet_def)
  moreover have "lineWrapped t = None \<and> col t = col s \<and> Mode t = Mode s"
    if "on_row (row s) f s = Some t" for f t
    using that assms(8) by (auto simp: on_row_def on_buffer_def bind_eq_Some_conv)
  ultimately have "drawCluster E c s = None"
    by (cases "on_row (row s) (writeNarrow E c (CurAttr (Cursor s)) (col s)) s")
      (simp_all add: drawCluster_def assms(3) p drawPut_def bind_eq_None_conv)
  then show ?thesis by (simp add: Draw_def assms(1,2))
qed

lemma upgraded_reads:
  "Charset (hscr (upgraded h h0)) = Charset (hscr h)" "G0 (hscr (upgraded h h0)) = G0 (hscr h)"
  "G1 (hscr (upgraded h h0)) = G1 (hscr h)" "Mode (hscr (upgraded h h0)) = Mode (hscr h)"
  "wrapNext (hscr (upgraded h h0)) = wrapNext (hscr h)" "Cursor (hscr (upgraded h h0)) = Cursor (hscr h)"
  "leftMargin (hscr (upgraded h h0)) = leftMargin (hscr h)" "rightMargin (hscr (upgraded h h0)) = rightMargin (hscr h)"
  "Columns (hscr (upgraded h h0)) = Columns (hscr h)" "Lines (hscr (upgraded h h0)) = Lines (hscr h)"
  "lineWrapped (hscr (upgraded h h0)) = jsonMap (lineWrapped (hscr h))"
  "TabStops (hscr (upgraded h h0)) = (if TabStops (hscr h) = Some {} then None else TabStops (hscr h))"
  unfolding upgraded_screen restored_fields by simp_all

end
