(* ===== verification/ServerTree.thy ===== *)
theory ServerTree
  imports GoStrings
begin

text \<open>
  The object tree of the server and its copy on the client: \<open>internal/server/tree.go\<close>,
  \<open>internal/protocol/tree.go\<close> and \<open>internal/tui/tree.go\<close>. The server keeps live objects next to their
  protocol nodes; every mutation inside a transaction appends the operations that repeat it, and the
  commit numbers them. The client applies the operations of the next version, and only of that. A live
  client is the type \<open>'c\<close>; of a live region the model keeps what its getters return: \<open>Region\<close> what never
  changes after the region was spawned, \<open>geometry\<close> what the getters return at the time of the call.
\<close>

section \<open>The protocol's tree\<close>

record ServerNode =
  nVersion :: string
  nHostname :: string
  nPid :: int
  nStartTime :: int
  nSocketPath :: string

record SessionNode =
  snName :: string
  snRegionIDs :: "string list"

record RegionNode =
  rnID :: string
  rnName :: string
  rnCmd :: string
  rnPid :: int
  rnSession :: string
  rnWidth :: int
  rnHeight :: int
  rnNative :: bool
  rnScrollbackLen :: int

record ProgramNode =
  pnName :: string
  pnCmd :: string
  pnArgs :: "string list"

record ClientNode =
  cnID :: string
  cnHostname :: string
  cnUsername :: string
  cnPid :: int
  cnProcess :: string
  cnSession :: string
  cnSubscribedRegionID :: string

record UpgradeNode =
  unActive :: bool
  unPhase :: string
  unMessage :: string

record Tree =
  pServer :: ServerNode
  pSessions :: "string \<rightharpoonup> SessionNode"
  pRegions :: "string \<rightharpoonup> RegionNode"
  pPrograms :: "string \<rightharpoonup> ProgramNode"
  pClients :: "string \<rightharpoonup> ClientNode"
  pUpgrade :: UpgradeNode

text \<open>
  The JSON documents an operation carries. A document is decoded as the type of its path, and the
  server puts no other there; a decoder refuses the others.
\<close>

datatype tree_value =
    ServerValue ServerNode
  | SessionValue SessionNode
  | RegionValue RegionNode
  | ProgramValue ProgramNode
  | ClientValue ClientNode
  | UpgradeValue UpgradeNode
  | StringValue string

record TreeOp =
  opOp :: string
  opPath :: string
  opValue :: "tree_value option"
  opMatch :: "tree_value option"

record TreeSnapshot =
  snapVersion :: "64 word"
  snapTree :: Tree

record TreeEvents =
  evsVersion :: "64 word"
  evsOps :: "TreeOp list"

section \<open>The server's tree\<close>

record Region =
  rID :: string
  rName :: string
  rCmd :: string
  rPid :: int
  rSession :: string
  rNative :: bool
  rDriver :: "32 word option"

record geometry =
  gWidth :: int
  gHeight :: int
  gScrollbackLen :: int

record regionEntry =
  reRegion :: Region
  reNode :: RegionNode

record sessionEntry =
  seRegionIDs :: "string list"
  seNode :: SessionNode

record ProgramConfig =
  pcName :: string
  pcCmd :: string
  pcArgs :: "string list"
  pcEnv :: "string \<rightharpoonup> string"

record programEntry =
  peConfig :: ProgramConfig
  peNode :: ProgramNode

record 'c clientEntry =
  ceClient :: 'c
  ceNode :: ClientNode

record 'c ServerTree =
  tServer :: ServerNode
  tRegions :: "string \<rightharpoonup> regionEntry"
  tSessions :: "string \<rightharpoonup> sessionEntry"
  tPrograms :: "string \<rightharpoonup> programEntry"
  tClients :: "string \<rightharpoonup> 'c clientEntry"
  tUpgrade :: UpgradeNode
  tVersion :: "64 word"
  tOps :: "TreeOp list"
  tInTx :: bool

definition noUpgrade :: UpgradeNode where
  "noUpgrade = \<lparr>unActive = False, unPhase = '''', unMessage = ''''\<rparr>"

definition NewServerTree :: "ServerNode \<Rightarrow> 'c ServerTree" where
  "NewServerTree server = \<lparr>tServer = server, tRegions = Map.empty, tSessions = Map.empty, tPrograms = Map.empty,
     tClients = Map.empty, tUpgrade = noUpgrade, tVersion = 0, tOps = [], tInTx = False\<rparr>"

definition StartTx :: "'c ServerTree \<Rightarrow> 'c ServerTree" where
  "StartTx t = t\<lparr>tInTx := True, tOps := []\<rparr>"

definition CommitTx :: "'c ServerTree \<Rightarrow> (64 word \<times> TreeOp list) \<times> 'c ServerTree" where
  "CommitTx t =
    (let t = t\<lparr>tInTx := False\<rparr> in
     if tOps t = [] then ((0, []), t)
     else (let t = t\<lparr>tVersion := tVersion t + 1\<rparr> in ((tVersion t, tOps t), t\<lparr>tOps := []\<rparr>)))"

definition emitOp :: "TreeOp \<Rightarrow> 'c ServerTree \<Rightarrow> 'c ServerTree" where
  "emitOp op t = (if tInTx t then t\<lparr>tOps := tOps t @ [op]\<rparr> else t)"

definition emitSet :: "string \<Rightarrow> tree_value \<Rightarrow> 'c ServerTree \<Rightarrow> 'c ServerTree" where
  "emitSet path v = emitOp \<lparr>opOp = ''set'', opPath = path, opValue = Some v, opMatch = None\<rparr>"

definition emitDelete :: "string \<Rightarrow> 'c ServerTree \<Rightarrow> 'c ServerTree" where
  "emitDelete path = emitOp \<lparr>opOp = ''delete'', opPath = path, opValue = None, opMatch = None\<rparr>"

definition emitAdd :: "string \<Rightarrow> tree_value \<Rightarrow> 'c ServerTree \<Rightarrow> 'c ServerTree" where
  "emitAdd path v = emitOp \<lparr>opOp = ''add'', opPath = path, opValue = Some v, opMatch = None\<rparr>"

definition emitRemove :: "string \<Rightarrow> tree_value \<Rightarrow> 'c ServerTree \<Rightarrow> 'c ServerTree" where
  "emitRemove path v = emitOp \<lparr>opOp = ''remove'', opPath = path, opValue = None, opMatch = Some v\<rparr>"

definition SetRegion :: "Region \<Rightarrow> geometry \<Rightarrow> 'c ServerTree \<Rightarrow> 'c ServerTree" where
  "SetRegion r g t =
    (let node = \<lparr>rnID = rID r, rnName = rName r, rnCmd = rCmd r, rnPid = rPid r, rnSession = rSession r,
           rnWidth = gWidth g, rnHeight = gHeight g, rnNative = rNative r, rnScrollbackLen = gScrollbackLen g\<rparr>
     in emitSet (''/regions/'' @ rID r) (RegionValue node)
          (t\<lparr>tRegions := (tRegions t)(rID r \<mapsto> \<lparr>reRegion = r, reNode = node\<rparr>)\<rparr>))"

definition DeleteRegion :: "string \<Rightarrow> 'c ServerTree \<Rightarrow> 'c ServerTree" where
  "DeleteRegion i t = emitDelete (''/regions/'' @ i) (t\<lparr>tRegions := (tRegions t)(i := None)\<rparr>)"

definition EnsureSession :: "string \<Rightarrow> 'c ServerTree \<Rightarrow> bool \<times> 'c ServerTree" where
  "EnsureSession name t =
    (if tSessions t name \<noteq> None then (False, t)
     else (let node = \<lparr>snName = name, snRegionIDs = []\<rparr>
           in (True, emitSet (''/sessions/'' @ name) (SessionValue node)
                       (t\<lparr>tSessions := (tSessions t)(name \<mapsto> \<lparr>seRegionIDs = [], seNode = node\<rparr>)\<rparr>))))"

definition DeleteSession :: "string \<Rightarrow> 'c ServerTree \<Rightarrow> 'c ServerTree" where
  "DeleteSession name t = emitDelete (''/sessions/'' @ name) (t\<lparr>tSessions := (tSessions t)(name := None)\<rparr>)"

fun removeString :: "string list \<Rightarrow> string \<Rightarrow> string list" where
  "removeString [] v = []"
| "removeString (s # ss) v = (if s = v then ss else s # removeString ss v)"

definition AddRegionToSession :: "string \<Rightarrow> string \<Rightarrow> 'c ServerTree \<Rightarrow> 'c ServerTree" where
  "AddRegionToSession name i t =
    (case tSessions t name of
       None \<Rightarrow> t
     | Some e \<Rightarrow>
         (let e = e\<lparr>seRegionIDs := seRegionIDs e @ [i]\<rparr>; e = e\<lparr>seNode := (seNode e)\<lparr>snRegionIDs := seRegionIDs e\<rparr>\<rparr>
          in emitAdd (''/sessions/'' @ name @ ''/region_ids'') (StringValue i)
               (t\<lparr>tSessions := (tSessions t)(name \<mapsto> e)\<rparr>)))"

definition RemoveRegionFromSession :: "string \<Rightarrow> string \<Rightarrow> 'c ServerTree \<Rightarrow> 'c ServerTree" where
  "RemoveRegionFromSession name i t =
    (case tSessions t name of
       None \<Rightarrow> t
     | Some e \<Rightarrow>
         (let e = e\<lparr>seRegionIDs := removeString (seRegionIDs e) i\<rparr>; e = e\<lparr>seNode := (seNode e)\<lparr>snRegionIDs := seRegionIDs e\<rparr>\<rparr>
          in emitRemove (''/sessions/'' @ name @ ''/region_ids'') (StringValue i)
               (t\<lparr>tSessions := (tSessions t)(name \<mapsto> e)\<rparr>)))"

definition SetProgram :: "ProgramConfig \<Rightarrow> 'c ServerTree \<Rightarrow> 'c ServerTree" where
  "SetProgram p t =
    (let node = \<lparr>pnName = pcName p, pnCmd = pcCmd p, pnArgs = pcArgs p\<rparr>
     in emitSet (''/programs/'' @ pcName p) (ProgramValue node)
          (t\<lparr>tPrograms := (tPrograms t)(pcName p \<mapsto> \<lparr>peConfig = p, peNode = node\<rparr>)\<rparr>))"

definition DeleteProgram :: "string \<Rightarrow> 'c ServerTree \<Rightarrow> 'c ServerTree" where
  "DeleteProgram name t = emitDelete (''/programs/'' @ name) (t\<lparr>tPrograms := (tPrograms t)(name := None)\<rparr>)"

definition clientIDStr :: "32 word \<Rightarrow> string" where
  "clientIDStr i = nat_digits 10 (unat i)"

definition newClientNode :: "string \<Rightarrow> ClientNode" where
  "newClientNode cid = \<lparr>cnID = cid, cnHostname = '''', cnUsername = '''', cnPid = 0, cnProcess = '''', cnSession = '''',
     cnSubscribedRegionID = ''''\<rparr>"

definition AddClient :: "32 word \<Rightarrow> 'c \<Rightarrow> 'c ServerTree \<Rightarrow> 'c ServerTree" where
  "AddClient i c t =
    (let cid = clientIDStr i; node = newClientNode cid
     in emitSet (''/clients/'' @ cid) (ClientValue node)
          (t\<lparr>tClients := (tClients t)(cid \<mapsto> \<lparr>ceClient = c, ceNode = node\<rparr>)\<rparr>))"

definition DeleteClient :: "32 word \<Rightarrow> 'c ServerTree \<Rightarrow> 'c ServerTree" where
  "DeleteClient i t =
    (let cid = clientIDStr i in emitDelete (''/clients/'' @ cid) (t\<lparr>tClients := (tClients t)(cid := None)\<rparr>))"

text \<open>The three mutations of a client that is there: \<open>f\<close> is what they write to its node.\<close>

definition updateClient :: "(ClientNode \<Rightarrow> ClientNode) \<Rightarrow> 32 word \<Rightarrow> 'c ServerTree \<Rightarrow> 'c ServerTree" where
  "updateClient f i t =
    (let cid = clientIDStr i in
     case tClients t cid of
       None \<Rightarrow> t
     | Some e \<Rightarrow>
         (let e = e\<lparr>ceNode := f (ceNode e)\<rparr>
          in emitSet (''/clients/'' @ cid) (ClientValue (ceNode e)) (t\<lparr>tClients := (tClients t)(cid \<mapsto> e)\<rparr>)))"

record clientIdentity =
  ciHostname :: string
  ciUsername :: string
  ciPid :: int
  ciProcess :: string

definition SetClientIdentity :: "32 word \<Rightarrow> clientIdentity \<Rightarrow> 'c ServerTree \<Rightarrow> 'c ServerTree" where
  "SetClientIdentity i ident = updateClient (\<lambda>n. n\<lparr>cnHostname := ciHostname ident, cnUsername := ciUsername ident,
     cnPid := ciPid ident, cnProcess := ciProcess ident\<rparr>) i"

definition SetClientSubscription :: "32 word \<Rightarrow> string \<Rightarrow> 'c ServerTree \<Rightarrow> 'c ServerTree" where
  "SetClientSubscription i rid = updateClient (\<lambda>n. n\<lparr>cnSubscribedRegionID := rid\<rparr>) i"

definition SetClientSession :: "32 word \<Rightarrow> string \<Rightarrow> 'c ServerTree \<Rightarrow> 'c ServerTree" where
  "SetClientSession i name = updateClient (\<lambda>n. n\<lparr>cnSession := name\<rparr>) i"

definition SetUpgrade :: "UpgradeNode \<Rightarrow> 'c ServerTree \<Rightarrow> 'c ServerTree" where
  "SetUpgrade u t = emitSet ''/upgrade'' (UpgradeValue u) (t\<lparr>tUpgrade := u\<rparr>)"

section \<open>Queries\<close>

definition treeRegion :: "'c ServerTree \<Rightarrow> string \<Rightarrow> Region option" where
  "treeRegion t i = map_option reRegion (tRegions t i)"

definition treeClient :: "'c ServerTree \<Rightarrow> 32 word \<Rightarrow> 'c option" where
  "treeClient t i = map_option ceClient (tClients t (clientIDStr i))"

definition ClientSession :: "'c ServerTree \<Rightarrow> 32 word \<Rightarrow> string" where
  "ClientSession t i = (case tClients t (clientIDStr i) of Some e \<Rightarrow> cnSession (ceNode e) | None \<Rightarrow> '''')"

definition SessionRegionIDs :: "'c ServerTree \<Rightarrow> string \<Rightarrow> string list option" where
  "SessionRegionIDs t name = map_option seRegionIDs (tSessions t name)"

definition treeProgram :: "'c ServerTree \<Rightarrow> string \<Rightarrow> ProgramConfig option" where
  "treeProgram t name = map_option peConfig (tPrograms t name)"

definition treeOf :: "'c ServerTree \<Rightarrow> Tree" where
  "treeOf t = \<lparr>pServer = tServer t, pSessions = map_option seNode \<circ> tSessions t, pRegions = map_option reNode \<circ> tRegions t,
     pPrograms = map_option peNode \<circ> tPrograms t, pClients = map_option ceNode \<circ> tClients t, pUpgrade = tUpgrade t\<rparr>"

definition treeSnapshot :: "'c ServerTree \<Rightarrow> TreeSnapshot" where
  "treeSnapshot t = \<lparr>snapVersion = tVersion t, snapTree = treeOf t\<rparr>"

section \<open>The client's store\<close>

record TreeStore =
  tsTree :: Tree
  tsVersion :: "64 word"
  tsValid :: bool

definition splitPath :: "string \<Rightarrow> string list" where
  "splitPath path =
    (let path = (case path of c # rest \<Rightarrow> if c = CHR ''/'' then rest else path | [] \<Rightarrow> path)
     in if path = [] then [] else split_at (CHR ''/'') path)"

fun asRegion :: "tree_value option \<Rightarrow> RegionNode option" where
  "asRegion (Some (RegionValue n)) = Some n" | "asRegion v = None"

fun asSession :: "tree_value option \<Rightarrow> SessionNode option" where
  "asSession (Some (SessionValue n)) = Some n" | "asSession v = None"

fun asProgram :: "tree_value option \<Rightarrow> ProgramNode option" where
  "asProgram (Some (ProgramValue n)) = Some n" | "asProgram v = None"

fun asClient :: "tree_value option \<Rightarrow> ClientNode option" where
  "asClient (Some (ClientValue n)) = Some n" | "asClient v = None"

fun asUpgrade :: "tree_value option \<Rightarrow> UpgradeNode option" where
  "asUpgrade (Some (UpgradeValue n)) = Some n" | "asUpgrade v = None"

fun asServer :: "tree_value option \<Rightarrow> ServerNode option" where
  "asServer (Some (ServerValue n)) = Some n" | "asServer v = None"

fun asString :: "tree_value option \<Rightarrow> string option" where
  "asString (Some (StringValue n)) = Some n" | "asString v = None"

text \<open>\<open>set\<close> and \<open>delete\<close> of a node under a path of one segment.\<close>

definition applyNode :: "(tree_value option \<Rightarrow> 'n option) \<Rightarrow> string \<Rightarrow> TreeOp \<Rightarrow> (string \<rightharpoonup> 'n) \<Rightarrow> (string \<rightharpoonup> 'n)" where
  "applyNode dec i op m =
    (if opOp op = ''set'' then (case dec (opValue op) of Some n \<Rightarrow> m(i \<mapsto> n) | None \<Rightarrow> m)
     else if opOp op = ''delete'' then m(i := None)
     else m)"

definition applyRegionOp :: "string list \<Rightarrow> TreeOp \<Rightarrow> Tree \<Rightarrow> Tree" where
  "applyRegionOp segs op t = (case segs of [i] \<Rightarrow> t\<lparr>pRegions := applyNode asRegion i op (pRegions t)\<rparr> | _ \<Rightarrow> t)"

definition applyProgramOp :: "string list \<Rightarrow> TreeOp \<Rightarrow> Tree \<Rightarrow> Tree" where
  "applyProgramOp segs op t = (case segs of [i] \<Rightarrow> t\<lparr>pPrograms := applyNode asProgram i op (pPrograms t)\<rparr> | _ \<Rightarrow> t)"

definition applyClientOp :: "string list \<Rightarrow> TreeOp \<Rightarrow> Tree \<Rightarrow> Tree" where
  "applyClientOp segs op t = (case segs of [i] \<Rightarrow> t\<lparr>pClients := applyNode asClient i op (pClients t)\<rparr> | _ \<Rightarrow> t)"

definition applySessionOp :: "string list \<Rightarrow> TreeOp \<Rightarrow> Tree \<Rightarrow> Tree" where
  "applySessionOp segs op t =
    (case segs of
       [name] \<Rightarrow> t\<lparr>pSessions := applyNode asSession name op (pSessions t)\<rparr>
     | [name, part] \<Rightarrow>
         if part \<noteq> ''region_ids'' then t
         else (case pSessions t name of
                 None \<Rightarrow> t
               | Some snode \<Rightarrow>
                   if opOp op = ''add'' then
                     (case asString (opValue op) of
                        Some val \<Rightarrow> t\<lparr>pSessions := (pSessions t)(name \<mapsto> snode\<lparr>snRegionIDs := snRegionIDs snode @ [val]\<rparr>)\<rparr>
                      | None \<Rightarrow> t)
                   else if opOp op = ''remove'' then
                     (case asString (opMatch op) of
                        Some val \<Rightarrow> t\<lparr>pSessions := (pSessions t)(name \<mapsto> snode\<lparr>snRegionIDs := removeString (snRegionIDs snode) val\<rparr>)\<rparr>
                      | None \<Rightarrow> t)
                   else t)
     | _ \<Rightarrow> t)"

definition applyUpgradeOp :: "TreeOp \<Rightarrow> Tree \<Rightarrow> Tree" where
  "applyUpgradeOp op t =
    (if opOp op = ''set'' then (case asUpgrade (opValue op) of Some n \<Rightarrow> t\<lparr>pUpgrade := n\<rparr> | None \<Rightarrow> t) else t)"

definition applyServerOp :: "TreeOp \<Rightarrow> Tree \<Rightarrow> Tree" where
  "applyServerOp op t =
    (if opOp op = ''set'' then (case asServer (opValue op) of Some n \<Rightarrow> t\<lparr>pServer := n\<rparr> | None \<Rightarrow> t) else t)"

definition applyOp :: "TreeOp \<Rightarrow> Tree \<Rightarrow> Tree" where
  "applyOp op t =
    (case splitPath (opPath op) of
       [] \<Rightarrow> t
     | seg # segs \<Rightarrow>
         if seg = ''regions'' then applyRegionOp segs op t
         else if seg = ''sessions'' then applySessionOp segs op t
         else if seg = ''programs'' then applyProgramOp segs op t
         else if seg = ''clients'' then applyClientOp segs op t
         else if seg = ''upgrade'' then applyUpgradeOp op t
         else if seg = ''server'' then applyServerOp op t
         else t)"

definition HandleSnapshot :: "TreeSnapshot \<Rightarrow> TreeStore \<Rightarrow> TreeStore" where
  "HandleSnapshot msg ts = \<lparr>tsTree = snapTree msg, tsVersion = snapVersion msg, tsValid = True\<rparr>"

definition HandleEvents :: "TreeEvents \<Rightarrow> TreeStore \<Rightarrow> bool \<times> TreeStore" where
  "HandleEvents msg ts =
    (if \<not> tsValid ts then (False, ts)
     else if evsVersion msg \<noteq> tsVersion ts + 1 then (False, ts)
     else (True, ts\<lparr>tsTree := fold applyOp (evsOps msg) (tsTree ts), tsVersion := evsVersion msg\<rparr>))"

section \<open>Every mutation repeats on the client\<close>

definition slashless :: "string \<Rightarrow> bool" where
  "slashless s \<longleftrightarrow> CHR ''/'' \<notin> set s"

text \<open>The names in the tree have no slash, and the two lists of a session agree.\<close>

definition tree_ok :: "'c ServerTree \<Rightarrow> bool" where
  "tree_ok t \<longleftrightarrow>
    (\<forall>k e. tSessions t k = Some e \<longrightarrow> seRegionIDs e = snRegionIDs (seNode e)) \<and>
    (\<forall>k e. tRegions t k = Some e \<longrightarrow> rID (reRegion e) = k \<and> slashless k \<and> slashless (rSession (reRegion e)))"

text \<open>A change of the tree within a transaction, with the operations that repeat it.\<close>

definition emits :: "'c ServerTree \<Rightarrow> 'c ServerTree \<Rightarrow> bool" where
  "emits t u \<longleftrightarrow> tree_ok u \<and> tInTx u \<and> tVersion u = tVersion t \<and>
    (\<exists>os. tOps u = tOps t @ os \<and> treeOf u = fold applyOp os (treeOf t))"

lemma emits_refl: "tree_ok t \<Longrightarrow> tInTx t \<Longrightarrow> emits t t"
  by (auto simp: emits_def intro: exI [of _ "[]"])

lemma emits_trans: "emits t u \<Longrightarrow> emits u v \<Longrightarrow> emits t v"
  by (auto simp: emits_def)

lemma emits_ok: "emits t u \<Longrightarrow> tree_ok u" "emits t u \<Longrightarrow> tInTx u"
  by (simp_all add: emits_def)

lemma splitPath_simps:
  "slashless i \<Longrightarrow> splitPath (''/regions/'' @ i) = [''regions'', i]"
  "slashless i \<Longrightarrow> splitPath (''/sessions/'' @ i) = [''sessions'', i]"
  "slashless i \<Longrightarrow> splitPath (''/sessions/'' @ i @ ''/region_ids'') = [''sessions'', i, ''region_ids'']"
  "slashless i \<Longrightarrow> splitPath (''/programs/'' @ i) = [''programs'', i]"
  "slashless i \<Longrightarrow> splitPath (''/clients/'' @ i) = [''clients'', i]"
  "splitPath ''/upgrade'' = [''upgrade'']"
  using split_at_append [of "CHR ''/''" i "''region_ids''"]
  by (simp_all add: splitPath_def slashless_def split_at_no)

lemmas splitPath_norm [simp] = splitPath_simps [unfolded append.simps]

text \<open>An emitted operation, with the effect of the client's switch on it.\<close>

lemma emits_one:
  assumes "tInTx t" "tOps u = tOps t" "tVersion u = tVersion t" "tInTx u" "tree_ok u" "applyOp op (treeOf t) = treeOf u"
  shows "emits t (emitOp op u)"
proof -
  have "treeOf (emitOp op u) = treeOf u" by (simp add: emitOp_def treeOf_def)
  moreover have "tree_ok (emitOp op u)" using assms(5) by (simp add: tree_ok_def emitOp_def)
  ultimately show ?thesis
    using assms by (auto simp: emits_def emitOp_def intro: exI [of _ "[op]"])
qed

lemmas emit_defs = emitSet_def emitDelete_def emitAdd_def emitRemove_def

lemma map_option_upd: "map_option f \<circ> (m(k \<mapsto> v)) = (map_option f \<circ> m)(k \<mapsto> f v)" "map_option f \<circ> (m(k := None)) = (map_option f \<circ> m)(k := None)"
  by auto

lemma SetRegion_emits:
  assumes "tree_ok t" "tInTx t" "slashless (rID r)" "slashless (rSession r)"
  shows "emits t (SetRegion r g t)"
  unfolding SetRegion_def Let_def emit_defs
  by (rule emits_one) (use assms in \<open>auto simp: tree_ok_def applyOp_def applyRegionOp_def applyNode_def treeOf_def map_option_upd\<close>)

lemma DeleteRegion_emits:
  assumes "tree_ok t" "tInTx t" "slashless i"
  shows "emits t (DeleteRegion i t)"
  unfolding DeleteRegion_def Let_def emit_defs
  by (rule emits_one) (use assms in \<open>auto simp: tree_ok_def applyOp_def applyRegionOp_def applyNode_def treeOf_def map_option_upd\<close>)

lemma EnsureSession_emits:
  assumes "tree_ok t" "tInTx t" "slashless name"
  shows "emits t (snd (EnsureSession name t))"
proof (cases "tSessions t name")
  case None
  then show ?thesis
    unfolding EnsureSession_def Let_def emit_defs
    by simp (rule emits_one; use assms in \<open>auto simp: tree_ok_def applyOp_def applySessionOp_def applyNode_def treeOf_def map_option_upd\<close>)
next
  case (Some e)
  then show ?thesis using assms by (simp add: EnsureSession_def emits_refl)
qed

lemma DeleteSession_emits:
  assumes "tree_ok t" "tInTx t" "slashless name"
  shows "emits t (DeleteSession name t)"
  unfolding DeleteSession_def Let_def emit_defs
  by (rule emits_one) (use assms in \<open>auto simp: tree_ok_def applyOp_def applySessionOp_def applyNode_def treeOf_def map_option_upd\<close>)

lemma AddRegionToSession_emits:
  assumes "tree_ok t" "tInTx t" "slashless name"
  shows "emits t (AddRegionToSession name i t)"
proof (cases "tSessions t name")
  case (Some e)
  then have "seRegionIDs e = snRegionIDs (seNode e)" using assms(1) by (simp add: tree_ok_def)
  with Some show ?thesis
    unfolding AddRegionToSession_def Let_def emit_defs
    by simp (rule emits_one; use assms in \<open>auto simp: tree_ok_def applyOp_def applySessionOp_def treeOf_def map_option_upd\<close>)
qed (use assms in \<open>simp add: AddRegionToSession_def emits_refl\<close>)

lemma RemoveRegionFromSession_emits:
  assumes "tree_ok t" "tInTx t" "slashless name"
  shows "emits t (RemoveRegionFromSession name i t)"
proof (cases "tSessions t name")
  case (Some e)
  then have "seRegionIDs e = snRegionIDs (seNode e)" using assms(1) by (simp add: tree_ok_def)
  with Some show ?thesis
    unfolding RemoveRegionFromSession_def Let_def emit_defs
    by simp (rule emits_one; use assms in \<open>auto simp: tree_ok_def applyOp_def applySessionOp_def treeOf_def map_option_upd\<close>)
qed (use assms in \<open>simp add: RemoveRegionFromSession_def emits_refl\<close>)

lemma program_emits:
  assumes "tree_ok t" "tInTx t"
  shows "slashless (pcName p) \<Longrightarrow> emits t (SetProgram p t)" "slashless name \<Longrightarrow> emits t (DeleteProgram name t)"
  unfolding SetProgram_def DeleteProgram_def Let_def emit_defs
  by (rule emits_one; use assms in \<open>simp add: tree_ok_def applyOp_def applyProgramOp_def applyNode_def treeOf_def map_option_upd\<close>)+

lemma digits_slashless: "slashless (clientIDStr i)"
proof -
  have "slashless (nat_digits 10 n)" for n
  proof (induction "10 :: nat" n rule: nat_digits.induct)
    case (1 n)
    have "digit_char (int (n mod 10)) \<noteq> CHR ''/''"
    proof
      assume "digit_char (int (n mod 10)) = CHR ''/''"
      then have "byte (byte_char (48 + int (n mod 10))) = 47" by (simp add: digit_char_def byte_def)
      moreover have "n mod 10 < 10" by simp
      ultimately show False by (subst (asm) byte_byte_char) linarith+
    qed
    then show ?case using 1 by (subst nat_digits.simps) (auto simp: slashless_def)
  qed
  then show ?thesis by (simp add: clientIDStr_def)
qed

lemma client_emits:
  assumes "tree_ok t" "tInTx t"
  shows "emits t (AddClient i c t)" "emits t (DeleteClient i t)"
  unfolding AddClient_def DeleteClient_def Let_def emit_defs
  by (rule emits_one; use assms digits_slashless in \<open>simp add: tree_ok_def applyOp_def applyClientOp_def applyNode_def treeOf_def map_option_upd\<close>)+

lemma updateClient_emits:
  assumes "tree_ok t" "tInTx t"
  shows "emits t (updateClient f i t)"
proof (cases "tClients t (clientIDStr i)")
  case (Some e)
  then show ?thesis
    unfolding updateClient_def Let_def emit_defs
    by simp (rule emits_one; use assms digits_slashless in \<open>simp add: tree_ok_def applyOp_def applyClientOp_def applyNode_def treeOf_def map_option_upd\<close>)
qed (use assms in \<open>simp add: updateClient_def emits_refl\<close>)

lemma SetUpgrade_emits:
  assumes "tree_ok t" "tInTx t"
  shows "emits t (SetUpgrade u t)"
  unfolding SetUpgrade_def emit_defs
  by (rule emits_one) (use assms in \<open>simp_all add: tree_ok_def applyOp_def applyUpgradeOp_def treeOf_def\<close>)

section \<open>A transaction and the client that follows it\<close>

text \<open>A valid store that holds the tree of the server at its version.\<close>

definition synced :: "TreeStore \<Rightarrow> 'c ServerTree \<Rightarrow> bool" where
  "synced ts t \<longleftrightarrow> tsValid ts \<and> tsVersion ts = tVersion t \<and> tsTree ts = treeOf t"

lemma snapshot_synced: "synced (HandleSnapshot (treeSnapshot t) ts) t"
  by (simp add: synced_def HandleSnapshot_def treeSnapshot_def)

text \<open>What is broadcast after a transaction, if anything.\<close>

definition broadcast :: "64 word \<times> TreeOp list \<Rightarrow> TreeEvents option" where
  "broadcast vo = (if snd vo = [] then None else Some \<lparr>evsVersion = fst vo, evsOps = snd vo\<rparr>)"

definition follow :: "TreeEvents option \<Rightarrow> TreeStore \<Rightarrow> bool \<times> TreeStore" where
  "follow msg ts = (case msg of None \<Rightarrow> (True, ts) | Some m \<Rightarrow> HandleEvents m ts)"

text \<open>The contract between what runs in a transaction and the client.\<close>

locale transaction =
  fixes ok :: "'c ServerTree \<Rightarrow> bool"
    and act :: "'c ServerTree \<Rightarrow> 'c ServerTree"
  assumes act: "ok t \<Longrightarrow> tree_ok t \<Longrightarrow> tInTx t \<Longrightarrow> emits t (act t)"
begin

lemma followed:
  assumes "ok (StartTx t)" "tree_ok t" "synced ts t"
  shows "tree_ok (snd (CommitTx (act (StartTx t)))) \<and>
    (\<exists>ts'. follow (broadcast (fst (CommitTx (act (StartTx t))))) ts = (True, ts') \<and>
      synced ts' (snd (CommitTx (act (StartTx t)))))"
proof -
  have start: "tree_ok (StartTx t)" "tInTx (StartTx t)" "tOps (StartTx t) = []" "treeOf (StartTx t) = treeOf t"
    "tVersion (StartTx t) = tVersion t"
    using assms(2) by (simp_all add: StartTx_def tree_ok_def treeOf_def)
  let ?u = "act (StartTx t)"
  have u: "tree_ok ?u" "tVersion ?u = tVersion t" "treeOf ?u = fold applyOp (tOps ?u) (treeOf t)"
    using act [OF assms(1) start(1,2)] start by (auto simp: emits_def)
  have c: "tree_ok (snd (CommitTx ?u))" "treeOf (snd (CommitTx ?u)) = treeOf ?u"
    using u(1) by (simp_all add: CommitTx_def Let_def tree_ok_def treeOf_def)
  then show ?thesis
    using assms(3) u by (auto simp: follow_def broadcast_def CommitTx_def Let_def HandleEvents_def synced_def)
qed

lemma missed:
  assumes "broadcast (fst (CommitTx (act (StartTx t)))) = Some m" "tsVersion ts + 1 \<noteq> evsVersion m"
  shows "HandleEvents m ts = (False, ts)"
  using assms by (auto simp: HandleEvents_def)

end

interpretation upgrade_phase: transaction "\<lambda>_. True" "SetUpgrade u" for u
  by unfold_locales (rule SetUpgrade_emits)

interpretation region_resized: transaction "\<lambda>_. slashless (rID r) \<and> slashless (rSession r)" "SetRegion r g" for r g
  by unfold_locales (simp add: SetRegion_emits)

end
