(* ===== verification/ServerLoop.thy ===== *)
theory ServerLoop
  imports ServerTree
begin

text \<open>
  The event loop of the server: \<open>internal/server/server_requests.go\<close>, with the requests of \<open>upgrade.go\<close>
  and \<open>upgrade_recv.go\<close>. It owns the tree, the subscriptions and the overlays; each request runs in
  a transaction of the tree, whose operations are then broadcast. What a handler sends to clients, to
  the actors of regions and back to the requester is a list of effects. The requests that only list
  regions, clients, sessions or programs are not here: they change nothing, and iterate over maps.
\<close>

section \<open>State, requests, effects\<close>

record 'c eventLoopState =
  lTree :: "'c ServerTree"
  subscriptions :: "32 word \<rightharpoonup> string"
  clientOverlays :: "32 word \<rightharpoonup> string"
  regionOverlays :: "string \<rightharpoonup> 32 word"
  pendingUpgradeBin :: string

definition initialLoop :: "ServerNode \<Rightarrow> ProgramConfig list \<Rightarrow> 'c eventLoopState" where
  "initialLoop server programs = \<lparr>lTree = fold SetProgram programs (NewServerTree server), subscriptions = Map.empty,
     clientOverlays = Map.empty, regionOverlays = Map.empty, pendingUpgradeBin = ''''\<rparr>"

record SessionsConfig =
  DefaultName :: string
  DefaultPrograms :: "string list"

datatype 'c response =
    Ack
  | DestroyResult "Region option"
  | RegionResult "Region option"
  | ClientResult "'c option"
  | ProgramResult "ProgramConfig option"
  | ErrorResult "string option"
  | SessionExists "Region list"
  | SessionMissing "ProgramConfig list"
  | SubscribeResult "Region option"
  | StringResult string
  | OverlayResult string
  | RouteRegion "Region option"
  | RouteOverlay 'c

datatype 'c effect =
    SendIdentify 'c
  | SendSnapshot 'c TreeSnapshot
  | AddSubscriber Region 'c
  | RemoveSubscriber Region "32 word"
  | RegisterOverlay Region 'c
  | ClearOverlay Region "32 word"
  | DriversDisconnected "Region set"
  | SessionsChanged
  | Respond "'c response"

text \<open>
  The arguments are the fields of the Go requests and what the handler reads from outside: the
  geometry that the getters of a region return, the error of \<open>RegisterOverlay\<close>, and the program that
  the iteration over the map yields first.
\<close>

datatype 'c request =
    addClientReq "32 word" 'c
  | removeClientReq "32 word"
  | spawnRegionReq Region geometry string
  | restoreRegionReq Region geometry string
  | destroyRegionReq string
  | setRegionGeometryReq string geometry
  | findRegionReq string
  | killRegionReq string
  | killClientReq "32 word"
  | lookupProgramReq string
  | sessionConnectReq string SessionsConfig "string option"
  | addProgramReq ProgramConfig
  | removeProgramReq string
  | subscribeReq "32 word" string
  | unsubscribeReq "32 word"
  | setClientSessionReq "32 word" string
  | getClientSessionReq "32 word"
  | identifyReq "32 word" clientIdentity
  | treeSnapshotReq "32 word"
  | overlayRegisterReq "32 word" 'c string string
  | overlayClearReq "32 word" string
  | inputRouteReq string
  | setUpgradeReq UpgradeNode
  | setPendingUpgradeBinReq string
  | takePendingUpgradeBinReq

section \<open>Handlers\<close>

definition handleAddClient :: "32 word \<Rightarrow> 'c \<Rightarrow> 'c eventLoopState \<Rightarrow> 'c effect list \<times> 'c eventLoopState" where
  "handleAddClient i c st =
    ([SendIdentify c, SendSnapshot c (treeSnapshot (lTree st)), Respond Ack],
     st\<lparr>lTree := AddClient i c (lTree st)\<rparr>)"

definition handleRemoveClient :: "32 word \<Rightarrow> 'c eventLoopState \<Rightarrow> 'c effect list \<times> 'c eventLoopState" where
  "handleRemoveClient i st =
    (let t = lTree st;
         (e1, st) = (case subscriptions st i of
             Some rid \<Rightarrow> ((case treeRegion t rid of Some r \<Rightarrow> [RemoveSubscriber r i] | None \<Rightarrow> []),
                          st\<lparr>subscriptions := (subscriptions st)(i := None)\<rparr>)
           | None \<Rightarrow> ([], st));
         (e2, st) = (case clientOverlays st i of
             Some rid \<Rightarrow> ((case treeRegion t rid of Some r \<Rightarrow> [ClearOverlay r i] | None \<Rightarrow> []),
                          st\<lparr>clientOverlays := (clientOverlays st)(i := None),
                             regionOverlays := (if regionOverlays st rid = Some i then (regionOverlays st)(rid := None)
                                                else regionOverlays st)\<rparr>)
           | None \<Rightarrow> ([], st));
         orphaned = {r. \<exists>k e. tRegions t k = Some e \<and> reRegion e = r \<and> rNative r \<and> rDriver r = Some i}
     in (e1 @ e2 @ [DriversDisconnected orphaned], st\<lparr>lTree := DeleteClient i t\<rparr>))"

definition handleSpawnRegion ::
  "Region \<Rightarrow> geometry \<Rightarrow> string \<Rightarrow> 'c eventLoopState \<Rightarrow> 'c effect list \<times> 'c eventLoopState" where
  "handleSpawnRegion r g name st =
    (let r = r\<lparr>rSession := name\<rparr>;
         t = SetRegion r g (lTree st);
         (created, t) = EnsureSession name t;
         t = AddRegionToSession name (rID r) t
     in (Respond Ack # (if created then [SessionsChanged] else []), st\<lparr>lTree := t\<rparr>))"

definition handleDestroyRegion :: "string \<Rightarrow> 'c eventLoopState \<Rightarrow> 'c effect list \<times> 'c eventLoopState" where
  "handleDestroyRegion i st =
    (case treeRegion (lTree st) i of
       None \<Rightarrow> ([Respond (DestroyResult None)], st)
     | Some region \<Rightarrow>
         (let name = rSession region;
              t = RemoveRegionFromSession name i (DeleteRegion i (lTree st));
              removed = (case SessionRegionIDs t name of Some ids \<Rightarrow> ids = [] | None \<Rightarrow> False);
              t = (if removed then DeleteSession name t else t);
              st = st\<lparr>lTree := t\<rparr>;
              st = (case regionOverlays st i of
                      Some owner \<Rightarrow> st\<lparr>regionOverlays := (regionOverlays st)(i := None),
                                      clientOverlays := (clientOverlays st)(owner := None)\<rparr>
                    | None \<Rightarrow> st);
              st = st\<lparr>subscriptions := (\<lambda>c. if subscriptions st c = Some i then None else subscriptions st c)\<rparr>
          in (Respond (DestroyResult (Some region)) # (if removed then [SessionsChanged] else []), st)))"

definition handleSetRegionGeometry ::
  "string \<Rightarrow> geometry \<Rightarrow> 'c eventLoopState \<Rightarrow> 'c effect list \<times> 'c eventLoopState" where
  "handleSetRegionGeometry i g st =
    ([Respond Ack], (case treeRegion (lTree st) i of Some r \<Rightarrow> st\<lparr>lTree := SetRegion r g (lTree st)\<rparr> | None \<Rightarrow> st))"

definition handleSessionConnect ::
  "string \<Rightarrow> SessionsConfig \<Rightarrow> string option \<Rightarrow> 'c eventLoopState \<Rightarrow> 'c effect list \<times> 'c eventLoopState" where
  "handleSessionConnect name0 cfg first st =
    (let t = lTree st; name = (if name0 = '''' then DefaultName cfg else name0) in
     case SessionRegionIDs t name of
       Some ids \<Rightarrow> ([Respond (SessionExists (List.map_filter (treeRegion t) ids))], st)
     | None \<Rightarrow>
         (let names = (if DefaultPrograms cfg \<noteq> [] then DefaultPrograms cfg
                       else if treeProgram t ''default'' \<noteq> None then [''default'']
                       else (case first of Some p \<Rightarrow> [p] | None \<Rightarrow> []))
          in ([Respond (SessionMissing (List.map_filter (treeProgram t) names))], st)))"

text \<open>
  \<open>%q\<close> of a string: \<open>strconv.Quote\<close>, which escapes quotes, backslashes, control characters and the
  bytes that are no UTF-8. Runes above ASCII are kept: which of them are printable is a table of Unicode.
\<close>

definition quoteRune :: "rune \<Rightarrow> nat \<Rightarrow> string \<Rightarrow> string" where
  "quoteRune r n s =
    (if r = RuneError \<and> n = 1 then [CHR 0x5C, CHR ''x''] @ show_hex 2 (byte (hd s))
     else if r = 0x22 \<or> r = 0x5C then [CHR 0x5C, hd s]
     else if r = 7 then [CHR 0x5C, CHR ''a'']
     else if r = 8 then [CHR 0x5C, CHR ''b'']
     else if r = 12 then [CHR 0x5C, CHR ''f'']
     else if r = 10 then [CHR 0x5C, CHR ''n'']
     else if r = 13 then [CHR 0x5C, CHR ''r'']
     else if r = 9 then [CHR 0x5C, CHR ''t'']
     else if r = 11 then [CHR 0x5C, CHR ''v'']
     else if r < 0x20 \<or> r = 0x7F then [CHR 0x5C, CHR ''x''] @ show_hex 2 r
     else take n s)"

function quoteRunes :: "string \<Rightarrow> string" where
  "quoteRunes s =
    (if s = [] then [] else (case DecodeRune s of (r, n) \<Rightarrow> quoteRune r n s @ quoteRunes (drop n s)))"
  by pat_completeness auto
termination
  by (relation "measure length") (use DecodeRune_drop in auto)

declare quoteRunes.simps [simp del]

definition quoted :: "string \<Rightarrow> string" where
  "quoted s = [CHR 0x22] @ quoteRunes s @ [CHR 0x22]"

definition handleAddProgram :: "ProgramConfig \<Rightarrow> 'c eventLoopState \<Rightarrow> 'c effect list \<times> 'c eventLoopState" where
  "handleAddProgram p st =
    (if treeProgram (lTree st) (pcName p) \<noteq> None
     then ([Respond (ErrorResult (Some (''program '' @ quoted (pcName p) @ '' already exists'')))], st)
     else ([Respond (ErrorResult None)], st\<lparr>lTree := SetProgram p (lTree st)\<rparr>))"

definition handleRemoveProgram :: "string \<Rightarrow> 'c eventLoopState \<Rightarrow> 'c effect list \<times> 'c eventLoopState" where
  "handleRemoveProgram name st =
    (if treeProgram (lTree st) name = None
     then ([Respond (ErrorResult (Some (''program '' @ quoted name @ '' not found'')))], st)
     else ([Respond (ErrorResult None)], st\<lparr>lTree := DeleteProgram name (lTree st)\<rparr>))"

definition handleSubscribe :: "32 word \<Rightarrow> string \<Rightarrow> 'c eventLoopState \<Rightarrow> 'c effect list \<times> 'c eventLoopState" where
  "handleSubscribe i rid st =
    (let t = lTree st in
     case treeRegion t rid of
       None \<Rightarrow> ([Respond (SubscribeResult None)], st)
     | Some region \<Rightarrow>
         (let e1 = (case subscriptions st i of
                      Some prev \<Rightarrow> if prev \<noteq> rid
                                   then (case treeRegion t prev of Some r \<Rightarrow> [RemoveSubscriber r i] | None \<Rightarrow> []) else []
                    | None \<Rightarrow> [])
          in case treeClient t i of
               None \<Rightarrow> (e1 @ [Respond (SubscribeResult None)], st)
             | Some c \<Rightarrow>
                 (e1 @ [AddSubscriber region c, Respond (SubscribeResult (Some region))],
                  st\<lparr>subscriptions := (subscriptions st)(i \<mapsto> rid), lTree := SetClientSubscription i rid t\<rparr>)))"

definition handleUnsubscribe :: "32 word \<Rightarrow> 'c eventLoopState \<Rightarrow> 'c effect list \<times> 'c eventLoopState" where
  "handleUnsubscribe i st =
    (let t = lTree st;
         (e1, st) = (case subscriptions st i of
             Some rid \<Rightarrow> ((case treeRegion t rid of Some r \<Rightarrow> [RemoveSubscriber r i] | None \<Rightarrow> []),
                          st\<lparr>subscriptions := (subscriptions st)(i := None)\<rparr>)
           | None \<Rightarrow> ([], st))
     in (e1, st\<lparr>lTree := SetClientSubscription i '''' t\<rparr>))"

definition handleTreeSnapshot :: "32 word \<Rightarrow> 'c eventLoopState \<Rightarrow> 'c effect list \<times> 'c eventLoopState" where
  "handleTreeSnapshot i st =
    ((case treeClient (lTree st) i of Some c \<Rightarrow> [SendSnapshot c (treeSnapshot (lTree st))] | None \<Rightarrow> []), st)"

definition handleOverlayRegister ::
  "32 word \<Rightarrow> 'c \<Rightarrow> string \<Rightarrow> string \<Rightarrow> 'c eventLoopState \<Rightarrow> 'c effect list \<times> 'c eventLoopState" where
  "handleOverlayRegister i c rid err st =
    (case treeRegion (lTree st) rid of
       None \<Rightarrow> ([Respond (OverlayResult ''region not found'')], st)
     | Some region \<Rightarrow>
         (let st = (if err = '''' then
                      (let st = (case regionOverlays st rid of
                                   Some prev \<Rightarrow> if prev \<noteq> i then st\<lparr>clientOverlays := (clientOverlays st)(prev := None)\<rparr> else st
                                 | None \<Rightarrow> st)
                       in st\<lparr>clientOverlays := (clientOverlays st)(i \<mapsto> rid),
                             regionOverlays := (regionOverlays st)(rid \<mapsto> i)\<rparr>)
                    else st)
          in ([RegisterOverlay region c, Respond (OverlayResult err)], st)))"

definition handleOverlayClear :: "32 word \<Rightarrow> string \<Rightarrow> 'c eventLoopState \<Rightarrow> 'c effect list \<times> 'c eventLoopState" where
  "handleOverlayClear i rid st =
    (if regionOverlays st rid \<noteq> Some i then ([], st)
     else ((case treeRegion (lTree st) rid of Some r \<Rightarrow> [ClearOverlay r i] | None \<Rightarrow> []),
           st\<lparr>regionOverlays := (regionOverlays st)(rid := None), clientOverlays := (clientOverlays st)(i := None)\<rparr>))"

definition handleInputRoute :: "string \<Rightarrow> 'c eventLoopState \<Rightarrow> 'c effect list \<times> 'c eventLoopState" where
  "handleInputRoute rid st =
    (let t = lTree st in
     case treeRegion t rid of
       None \<Rightarrow> ([Respond (RouteRegion None)], st)
     | Some region \<Rightarrow>
         (case regionOverlays st rid of
            Some owner \<Rightarrow> (case treeClient t owner of
                             Some c \<Rightarrow> ([Respond (RouteOverlay c)], st)
                           | None \<Rightarrow> ([Respond (RouteRegion (Some region))], st))
          | None \<Rightarrow> ([Respond (RouteRegion (Some region))], st)))"

fun handleRequest :: "'c request \<Rightarrow> 'c eventLoopState \<Rightarrow> 'c effect list \<times> 'c eventLoopState" where
  "handleRequest (addClientReq i c) st = handleAddClient i c st"
| "handleRequest (removeClientReq i) st = handleRemoveClient i st"
| "handleRequest (spawnRegionReq r g name) st = handleSpawnRegion r g name st"
| "handleRequest (restoreRegionReq r g name) st = handleSpawnRegion r g name st"
| "handleRequest (destroyRegionReq i) st = handleDestroyRegion i st"
| "handleRequest (setRegionGeometryReq i g) st = handleSetRegionGeometry i g st"
| "handleRequest (findRegionReq i) st = ([Respond (RegionResult (treeRegion (lTree st) i))], st)"
| "handleRequest (killRegionReq i) st = ([Respond (RegionResult (treeRegion (lTree st) i))], st)"
| "handleRequest (killClientReq i) st = ([Respond (ClientResult (treeClient (lTree st) i))], st)"
| "handleRequest (lookupProgramReq name) st = ([Respond (ProgramResult (treeProgram (lTree st) name))], st)"
| "handleRequest (sessionConnectReq name cfg first) st = handleSessionConnect name cfg first st"
| "handleRequest (addProgramReq p) st = handleAddProgram p st"
| "handleRequest (removeProgramReq name) st = handleRemoveProgram name st"
| "handleRequest (subscribeReq i rid) st = handleSubscribe i rid st"
| "handleRequest (unsubscribeReq i) st = handleUnsubscribe i st"
| "handleRequest (setClientSessionReq i name) st = ([], st\<lparr>lTree := SetClientSession i name (lTree st)\<rparr>)"
| "handleRequest (getClientSessionReq i) st = ([Respond (StringResult (ClientSession (lTree st) i))], st)"
| "handleRequest (identifyReq i ident) st = ([], st\<lparr>lTree := SetClientIdentity i ident (lTree st)\<rparr>)"
| "handleRequest (treeSnapshotReq i) st = handleTreeSnapshot i st"
| "handleRequest (overlayRegisterReq i c rid err) st = handleOverlayRegister i c rid err st"
| "handleRequest (overlayClearReq i rid) st = handleOverlayClear i rid st"
| "handleRequest (inputRouteReq rid) st = handleInputRoute rid st"
| "handleRequest (setUpgradeReq u) st = ([Respond Ack], st\<lparr>lTree := SetUpgrade u (lTree st)\<rparr>)"
| "handleRequest (setPendingUpgradeBinReq path) st = ([Respond Ack], st\<lparr>pendingUpgradeBin := path\<rparr>)"
| "handleRequest takePendingUpgradeBinReq st = ([Respond (StringResult (pendingUpgradeBin st))], st\<lparr>pendingUpgradeBin := ''''\<rparr>)"

text \<open>One turn of the loop: the effects, the broadcast and the next state.\<close>

definition loopStep :: "'c request \<Rightarrow> 'c eventLoopState \<Rightarrow> ('c effect list \<times> TreeEvents option) \<times> 'c eventLoopState" where
  "loopStep rq st =
    (let (effs, st) = handleRequest rq (st\<lparr>lTree := StartTx (lTree st)\<rparr>);
         (vo, t) = CommitTx (lTree st)
     in ((effs, broadcast vo), st\<lparr>lTree := t\<rparr>))"

fun loopRun :: "'c request list \<Rightarrow> 'c eventLoopState \<Rightarrow> TreeEvents option list \<times> 'c eventLoopState" where
  "loopRun [] st = ([], st)"
| "loopRun (rq # rqs) st =
    (let ((_, msg), st) = loopStep rq st; (msgs, st) = loopRun rqs st in (msg # msgs, st))"

section \<open>Every client follows the loop\<close>

fun names_ok :: "'c request \<Rightarrow> bool" where
  "names_ok (spawnRegionReq r g name) \<longleftrightarrow> slashless (rID r) \<and> slashless name"
| "names_ok (restoreRegionReq r g name) \<longleftrightarrow> slashless (rID r) \<and> slashless name"
| "names_ok (addProgramReq p) \<longleftrightarrow> slashless (pcName p)"
| "names_ok (removeProgramReq name) \<longleftrightarrow> slashless name"
| "names_ok rq \<longleftrightarrow> True"

lemma spawn_emits:
  assumes "tree_ok (lTree st)" "tInTx (lTree st)" "slashless (rID r)" "slashless name"
  shows "emits (lTree st) (lTree (snd (handleSpawnRegion r g name st)))"
proof -
  let ?r = "r\<lparr>rSession := name\<rparr>"
  have 1: "emits (lTree st) (SetRegion ?r g (lTree st))"
    using SetRegion_emits [OF assms(1,2), of ?r] assms(3,4) by simp
  have 2: "emits (SetRegion ?r g (lTree st)) (snd (EnsureSession name (SetRegion ?r g (lTree st))))"
    by (rule EnsureSession_emits [OF emits_ok [OF 1] assms(4)])
  note 3 = AddRegionToSession_emits [OF emits_ok [OF 2] assms(4), of "rID r"]
  show ?thesis
    using emits_trans [OF emits_trans [OF 1 2] 3] by (simp add: handleSpawnRegion_def Let_def case_prod_unfold)
qed

lemma destroy_emits:
  assumes "tree_ok (lTree st)" "tInTx (lTree st)"
  shows "emits (lTree st) (lTree (snd (handleDestroyRegion i st)))"
proof (cases "treeRegion (lTree st) i")
  case (Some region)
  then have names: "slashless i" "slashless (rSession region)"
    using assms(1) by (auto simp: tree_ok_def treeRegion_def)
  note 1 = DeleteRegion_emits [OF assms names(1)]
  note 2 = RemoveRegionFromSession_emits [OF emits_ok [OF 1] names(2), of i]
  note 3 = DeleteSession_emits [OF emits_ok [OF 2] names(2)]
  from emits_trans [OF 1 2] emits_trans [OF emits_trans [OF 1 2] 3] Some show ?thesis
    by (simp add: handleDestroyRegion_def Let_def split: option.split)
qed (use assms in \<open>simp add: handleDestroyRegion_def emits_refl\<close>)

lemma handle_emits:
  assumes "names_ok rq" "tree_ok (lTree st)" "tInTx (lTree st)"
  shows "emits (lTree st) (lTree (snd (handleRequest rq st)))"
proof -
  note refl = emits_refl [OF assms(2,3)]
  note prog = program_emits [OF assms(2,3)] and client = client_emits [OF assms(2,3)]
  note update = updateClient_emits [OF assms(2,3)]
  have geometry: "emits (lTree st) (SetRegion r g (lTree st))" if "treeRegion (lTree st) i = Some r" for r i g
    using that assms(2) by (intro SetRegion_emits [OF assms(2,3)]) (auto simp: tree_ok_def treeRegion_def)
  show ?thesis
  proof (cases rq)
    case (spawnRegionReq r g name)
    then show ?thesis using spawn_emits [OF assms(2,3)] assms(1) by simp
  next
    case (restoreRegionReq r g name)
    then show ?thesis using spawn_emits [OF assms(2,3)] assms(1) by simp
  next
    case (destroyRegionReq i)
    then show ?thesis using destroy_emits [OF assms(2,3)] by simp
  next
    case (setRegionGeometryReq i g)
    then show ?thesis by (auto simp: handleSetRegionGeometry_def geometry refl split: option.split)
  next
    case (addProgramReq p)
    then show ?thesis using assms(1) by (simp add: handleAddProgram_def prog refl)
  next
    case (removeProgramReq name)
    then show ?thesis using assms(1) by (simp add: handleRemoveProgram_def prog refl)
  qed (simp_all add: refl client update SetUpgrade_emits [OF assms(2,3)] handleAddClient_def handleRemoveClient_def
      handleSessionConnect_def handleSubscribe_def handleUnsubscribe_def handleTreeSnapshot_def handleOverlayRegister_def
      handleOverlayClear_def handleInputRoute_def SetClientSubscription_def SetClientSession_def SetClientIdentity_def
      Let_def case_prod_unfold split: option.split)
qed

interpretation loop: transaction "\<lambda>_. names_ok rq" "\<lambda>t. lTree (snd (handleRequest rq (st\<lparr>lTree := t\<rparr>)))" for rq st
  by unfold_locales (use handle_emits [of rq "st\<lparr>lTree := t\<rparr>" for t] in simp)

lemma loopStep_followed:
  assumes "names_ok rq" "tree_ok (lTree st)" "synced ts (lTree st)" "loopStep rq st = ((effs, msg), st')"
  shows "tree_ok (lTree st') \<and> (\<exists>ts'. follow msg ts = (True, ts') \<and> synced ts' (lTree st'))"
  using loop.followed [OF assms(1) assms(2,3), of st] assms(4)
  by (simp add: loopStep_def Let_def case_prod_unfold) auto

text \<open>A client that applies every broadcast, in order; \<open>None\<close> when one is refused.\<close>

fun followAll :: "TreeEvents option list \<Rightarrow> TreeStore \<Rightarrow> TreeStore option" where
  "followAll [] ts = Some ts"
| "followAll (msg # msgs) ts = (case follow msg ts of (True, ts) \<Rightarrow> followAll msgs ts | (False, _) \<Rightarrow> None)"

lemma loopRun_followed:
  assumes "list_all names_ok rqs" "tree_ok (lTree st)" "synced ts (lTree st)" "loopRun rqs st = (msgs, st')"
  shows "tree_ok (lTree st') \<and> (\<exists>ts'. followAll msgs ts = Some ts' \<and> synced ts' (lTree st'))"
  using assms
proof (induction rqs arbitrary: st ts msgs)
  case (Cons rq rqs)
  obtain effs msg st1 where 1: "loopStep rq st = ((effs, msg), st1)" by (metis surj_pair)
  obtain msgs' where 2: "loopRun rqs st1 = (msgs', st')" "msgs = msg # msgs'"
    using Cons.prems(4) 1 by (auto split: prod.splits)
  obtain ts1 where ts1: "tree_ok (lTree st1)" "follow msg ts = (True, ts1)" "synced ts1 (lTree st1)"
    using loopStep_followed [OF _ Cons.prems(2,3) 1] Cons.prems(1) by auto
  then show ?case using Cons.IH [OF _ ts1(1,3) 2(1)] Cons.prems(1) by (simp add: 2(2))
qed simp

section \<open>What the loop keeps\<close>

text \<open>
  A session is there exactly when a region has it, and lists its regions without repetition; a
  subscription joins a client and a region that are there; an overlay entry of a client is the entry of
  its region, which is there.
\<close>

definition sessions_ok :: "'c ServerTree \<Rightarrow> bool" where
  "sessions_ok t \<longleftrightarrow>
    (\<forall>n e. tSessions t n = Some e \<longrightarrow> seRegionIDs e \<noteq> [] \<and> distinct (seRegionIDs e) \<and>
       (\<forall>i. i \<in> set (seRegionIDs e) \<longleftrightarrow> (\<exists>re. tRegions t i = Some re \<and> rSession (reRegion re) = n))) \<and>
    (\<forall>i re. tRegions t i = Some re \<longrightarrow> tSessions t (rSession (reRegion re)) \<noteq> None)"

definition subscriptions_ok :: "'c eventLoopState \<Rightarrow> bool" where
  "subscriptions_ok st \<longleftrightarrow>
    (\<forall>c r. subscriptions st c = Some r \<longrightarrow> tRegions (lTree st) r \<noteq> None \<and> tClients (lTree st) (clientIDStr c) \<noteq> None)"

definition overlays_ok :: "'c eventLoopState \<Rightarrow> bool" where
  "overlays_ok st \<longleftrightarrow>
    (\<forall>c r. clientOverlays st c = Some r \<longrightarrow> regionOverlays st r = Some c) \<and>
    (\<forall>c r. regionOverlays st r = Some c \<longrightarrow> tRegions (lTree st) r \<noteq> None)"

definition loop_ok :: "'c eventLoopState \<Rightarrow> bool" where
  "loop_ok st \<longleftrightarrow> tree_ok (lTree st) \<and> sessions_ok (lTree st) \<and> subscriptions_ok st \<and> overlays_ok st"

text \<open>A region is spawned under a fresh identifier, and no name has a slash.\<close>

fun admissible :: "'c request \<Rightarrow> 'c eventLoopState \<Rightarrow> bool" where
  "admissible (spawnRegionReq r g name) st \<longleftrightarrow> slashless (rID r) \<and> slashless name \<and> tRegions (lTree st) (rID r) = None"
| "admissible (restoreRegionReq r g name) st \<longleftrightarrow> slashless (rID r) \<and> slashless name \<and> tRegions (lTree st) (rID r) = None"
| "admissible rq st \<longleftrightarrow> names_ok rq"

inductive loop_reachable :: "'c eventLoopState \<Rightarrow> bool" where
  start: "loop_reachable (initialLoop server programs)"
| step: "loop_reachable st \<Longrightarrow> admissible rq st \<Longrightarrow> loopStep rq st = (out, st') \<Longrightarrow> loop_reachable st'"

lemma removeString_remove1: "removeString xs v = remove1 v xs"
  by (induction xs) auto

lemma emitOp_reads [simp]:
  "tRegions (emitOp op t) = tRegions t" "tSessions (emitOp op t) = tSessions t" "tClients (emitOp op t) = tClients t"
  "tPrograms (emitOp op t) = tPrograms t"
  by (simp_all add: emitOp_def)

lemma mutation_reads [simp]:
  "tSessions (SetRegion r g t) = tSessions t" "tClients (SetRegion r g t) = tClients t"
  "tRegions (DeleteRegion k t) = (tRegions t)(k := None)"
  "tSessions (DeleteRegion k t) = tSessions t" "tClients (DeleteRegion k t) = tClients t"
  "tRegions (snd (EnsureSession n t)) = tRegions t" "tClients (snd (EnsureSession n t)) = tClients t"
  "tRegions (DeleteSession n t) = tRegions t" "tSessions (DeleteSession n t) = (tSessions t)(n := None)"
  "tClients (DeleteSession n t) = tClients t"
  "tRegions (AddRegionToSession n k t) = tRegions t" "tClients (AddRegionToSession n k t) = tClients t"
  "tRegions (RemoveRegionFromSession n k t) = tRegions t" "tClients (RemoveRegionFromSession n k t) = tClients t"
  by (simp_all add: SetRegion_def DeleteRegion_def EnsureSession_def DeleteSession_def AddRegionToSession_def
      RemoveRegionFromSession_def Let_def emit_defs split: option.split)

lemma client_reads [simp]:
  "tRegions (AddClient i c t) = tRegions t" "tSessions (AddClient i c t) = tSessions t"
  "tRegions (DeleteClient i t) = tRegions t" "tSessions (DeleteClient i t) = tSessions t"
  "tRegions (updateClient f i t) = tRegions t" "tSessions (updateClient f i t) = tSessions t"
  "tRegions (SetProgram p t) = tRegions t" "tSessions (SetProgram p t) = tSessions t" "tClients (SetProgram p t) = tClients t"
  "tRegions (DeleteProgram n t) = tRegions t" "tSessions (DeleteProgram n t) = tSessions t" "tClients (DeleteProgram n t) = tClients t"
  "tRegions (SetUpgrade u t) = tRegions t" "tSessions (SetUpgrade u t) = tSessions t" "tClients (SetUpgrade u t) = tClients t"
  "tClients (DeleteClient i t) = (tClients t)(clientIDStr i := None)"
  by (simp_all add: AddClient_def DeleteClient_def updateClient_def SetProgram_def DeleteProgram_def SetUpgrade_def
      Let_def emit_defs split: option.split)

lemma updated_clients [simp]:
  "tClients (AddClient i c t) k = None \<longleftrightarrow> k \<noteq> clientIDStr i \<and> tClients t k = None"
  "tClients (updateClient f i t) k = None \<longleftrightarrow> tClients t k = None"
  by (auto simp: AddClient_def updateClient_def Let_def emit_defs split: option.split)

lemma clientIDStr_inject [simp]: "clientIDStr i = clientIDStr j \<longleftrightarrow> i = j"
proof
  assume "clientIDStr i = clientIDStr j"
  then have "parse_digits 10 0 (nat_digits 10 (unat i)) = parse_digits 10 0 (nat_digits 10 (unat j))"
    by (simp add: clientIDStr_def)
  then show "i = j" by (simp add: parse_nat_digits word_uint_eq_iff)
qed simp

lemma sessions_okI:
  assumes "\<And>m e k. tSessions t m = Some e \<Longrightarrow> seRegionIDs e \<noteq> [] \<and> distinct (seRegionIDs e) \<and>
      (k \<in> set (seRegionIDs e) \<longleftrightarrow> (\<exists>re. tRegions t k = Some re \<and> rSession (reRegion re) = m))"
    and "\<And>k re. tRegions t k = Some re \<Longrightarrow> tSessions t (rSession (reRegion re)) \<noteq> None"
  shows "sessions_ok t"
  using assms unfolding sessions_ok_def by blast

lemma SetRegion_regions:
  "\<exists>node. tRegions (SetRegion r g t) = (tRegions t)(rID r \<mapsto> \<lparr>reRegion = r, reNode = node\<rparr>)"
  by (auto simp: SetRegion_def Let_def emit_defs)

text \<open>The three lookups that matter, one mutation each.\<close>

lemma sessions_spawn:
  assumes "sessions_ok (lTree st)" "tRegions (lTree st) (rID r) = None"
  shows "sessions_ok (lTree (snd (handleSpawnRegion r g n st)))"
proof -
  let ?t = "lTree st" and ?r = "r\<lparr>rSession := n\<rparr>"
  let ?u = "lTree (snd (handleSpawnRegion r g n st))"
  obtain node where R: "tRegions ?u = (tRegions ?t)(rID r \<mapsto> \<lparr>reRegion = ?r, reNode = node\<rparr>)"
    using SetRegion_regions [of ?r g ?t] by (auto simp: handleSpawnRegion_def Let_def case_prod_unfold)
  have S: "tSessions ?u k =
      (if k = n then Some (case tSessions ?t n of
         Some e \<Rightarrow> \<lparr>seRegionIDs = seRegionIDs e @ [rID r], seNode = (seNode e)\<lparr>snRegionIDs := seRegionIDs e @ [rID r]\<rparr>\<rparr>
       | None \<Rightarrow> \<lparr>seRegionIDs = [rID r], seNode = \<lparr>snName = n, snRegionIDs = [rID r]\<rparr>\<rparr>)
       else tSessions ?t k)" for k
    by (cases "tSessions ?t n")
      (simp_all add: handleSpawnRegion_def Let_def EnsureSession_def AddRegionToSession_def emit_defs case_prod_unfold)
  show ?thesis
    using assms unfolding sessions_ok_def R S
    by (auto split: option.splits if_splits) (metis option.distinct(1))
qed

lemma sessions_destroy:
  assumes "sessions_ok (lTree st)"
  shows "sessions_ok (lTree (snd (handleDestroyRegion i st)))"
proof (cases "tRegions (lTree st) i")
  case (Some re)
  let ?t = "lTree st" and ?n = "rSession (reRegion re)"
  let ?u = "lTree (snd (handleDestroyRegion i st))"
  obtain e where e: "tSessions ?t ?n = Some e" "i \<in> set (seRegionIDs e)" "distinct (seRegionIDs e)"
    using assms Some unfolding sessions_ok_def by (metis not_None_eq)
  have R: "tRegions ?u = (tRegions ?t)(i := None)"
    using Some by (simp add: handleDestroyRegion_def treeRegion_def Let_def split: option.split)
  have S: "tSessions ?u = (if remove1 i (seRegionIDs e) = [] then (tSessions ?t)(?n := None)
      else (tSessions ?t)(?n \<mapsto> e\<lparr>seRegionIDs := remove1 i (seRegionIDs e), seNode := (seNode e)\<lparr>snRegionIDs := remove1 i (seRegionIDs e)\<rparr>\<rparr>))"
    using Some e(1)
    by (simp add: handleDestroyRegion_def treeRegion_def Let_def RemoveRegionFromSession_def SessionRegionIDs_def emit_defs
        removeString_remove1 split: option.split)
  have others: "tSessions ?t (rSession (reRegion re')) \<noteq> None" if "tRegions ?t k = Some re'" for k re'
    using assms that by (simp add: sessions_ok_def)
  have member: "k \<in> set (seRegionIDs e') \<longleftrightarrow> (\<exists>re. tRegions ?t k = Some re \<and> rSession (reRegion re) = m)"
    "seRegionIDs e' \<noteq> []" "distinct (seRegionIDs e')" if "tSessions ?t m = Some e'" for m e' k
    using assms that by (simp_all add: sessions_ok_def)
  have gone: "k = i" if "remove1 i (seRegionIDs e) = []" "tRegions ?t k = Some re'" "rSession (reRegion re') = ?n" for k re'
    using that member(1) [OF e(1), of k] e(3) by (metis empty_iff in_set_remove1 list.set(1))
  have left: "k \<in> set (remove1 i (seRegionIDs e)) \<longleftrightarrow> k \<noteq> i \<and> (\<exists>re. tRegions ?t k = Some re \<and> rSession (reRegion re) = ?n)" for k
    using member(1) [OF e(1), of k] e(3) by (simp add: set_remove1_eq) blast
  have elsewhere: "tRegions ?t k = Some re' \<and> rSession (reRegion re') = m \<Longrightarrow> m \<noteq> ?n \<Longrightarrow> k \<noteq> i" for k re' m
    using Some by auto
  show ?thesis
  proof (rule sessions_okI)
    fix m e' k assume m: "tSessions ?u m = Some e'"
    show "seRegionIDs e' \<noteq> [] \<and> distinct (seRegionIDs e') \<and>
        (k \<in> set (seRegionIDs e') \<longleftrightarrow> (\<exists>re. tRegions ?u k = Some re \<and> rSession (reRegion re) = m))"
    proof (cases "m = ?n")
      case True
      with m have "seRegionIDs e' = remove1 i (seRegionIDs e)" "remove1 i (seRegionIDs e) \<noteq> []"
        unfolding S by (auto split: if_splits)
      then show ?thesis using left [of k] e(3) True unfolding R by auto
    next
      case False
      then have m': "tSessions ?t m = Some e'" using m unfolding S by (simp split: if_splits)
      show ?thesis using member(1) [OF m', of k] member(2,3) [OF m'] elsewhere [OF _ False, of k] unfolding R by auto
    qed
  next
    fix k re' assume k: "tRegions ?u k = Some re'"
    then have k': "tRegions ?t k = Some re'" "k \<noteq> i" unfolding R by (auto split: if_splits)
    show "tSessions ?u (rSession (reRegion re')) \<noteq> None"
      using others [OF k'(1)] gone [OF _ k'(1)] k'(2) unfolding S by auto
  qed
qed (use assms in \<open>simp add: handleDestroyRegion_def treeRegion_def\<close>)

lemma sessions_ok_cong:
  assumes "tSessions u = tSessions t" "\<And>i. map_option reRegion (tRegions u i) = map_option reRegion (tRegions t i)"
  shows "sessions_ok u \<longleftrightarrow> sessions_ok t"
proof -
  have members: "(\<exists>re. tRegions u i = Some re \<and> rSession (reRegion re) = n) \<longleftrightarrow> (\<exists>re. tRegions t i = Some re \<and> rSession (reRegion re) = n)" for i n
    using assms(2) [of i] by (cases "tRegions u i"; cases "tRegions t i"; simp)
  have homes: "(\<forall>re. tRegions u i = Some re \<longrightarrow> tSessions t (rSession (reRegion re)) \<noteq> None) \<longleftrightarrow>
      (\<forall>re. tRegions t i = Some re \<longrightarrow> tSessions t (rSession (reRegion re)) \<noteq> None)" for i
    using assms(2) [of i] by (cases "tRegions u i"; cases "tRegions t i"; simp)
  show ?thesis unfolding sessions_ok_def assms(1) by (simp only: members homes)
qed

lemma geometry_regions:
  assumes "tree_ok t" "treeRegion t i = Some r"
  shows "map_option reRegion (tRegions (SetRegion r g t) k) = map_option reRegion (tRegions t k)"
    "tRegions (SetRegion r g t) k = None \<longleftrightarrow> tRegions t k = None"
proof -
  obtain re where "tRegions t i = Some re" "reRegion re = r" "rID r = i"
    using assms by (auto simp: tree_ok_def treeRegion_def)
  then show "map_option reRegion (tRegions (SetRegion r g t) k) = map_option reRegion (tRegions t k)"
    "tRegions (SetRegion r g t) k = None \<longleftrightarrow> tRegions t k = None"
    using SetRegion_regions [of r g t] by (auto split: if_splits)
qed

lemma sessions_ok_unchanged [simp]:
  "sessions_ok (AddClient i c t) = sessions_ok t" "sessions_ok (DeleteClient i t) = sessions_ok t"
  "sessions_ok (updateClient f i t) = sessions_ok t" "sessions_ok (SetProgram p t) = sessions_ok t"
  "sessions_ok (DeleteProgram n t) = sessions_ok t" "sessions_ok (SetUpgrade u t) = sessions_ok t"
  by (rule sessions_ok_cong; simp)+

lemmas small_handlers = handleAddClient_def handleRemoveClient_def handleSetRegionGeometry_def
  handleSessionConnect_def handleAddProgram_def handleRemoveProgram_def handleSubscribe_def handleUnsubscribe_def
  handleTreeSnapshot_def handleOverlayRegister_def handleOverlayClear_def handleInputRoute_def SetClientSubscription_def
  SetClientSession_def SetClientIdentity_def Let_def case_prod_unfold

lemma handle_sessions:
  assumes "admissible rq st" "tree_ok (lTree st)" "sessions_ok (lTree st)"
  shows "sessions_ok (lTree (snd (handleRequest rq st)))"
proof -
  note spawn = sessions_spawn [OF assms(3)] and destroy = sessions_destroy [OF assms(3)]
  have resize: "sessions_ok (SetRegion r g (lTree st))" if "treeRegion (lTree st) i = Some r" for r g i
    using sessions_ok_cong [of "SetRegion r g (lTree st)" "lTree st"] geometry_regions(1) [OF assms(2) that] assms(3) by simp
  show ?thesis
    using assms(1,3) by (cases rq) (simp_all add: spawn destroy resize small_handlers split: option.split)
qed

lemma handle_subscriptions:
  assumes "admissible rq st" "tree_ok (lTree st)" "subscriptions_ok st"
  shows "subscriptions_ok (snd (handleRequest rq st))"
proof -
  have keep: "tRegions (lTree st) r \<noteq> None" "tClients (lTree st) (clientIDStr c) \<noteq> None"
    if "subscriptions st c = Some r" for c r
    using assms(3) that unfolding subscriptions_ok_def by blast+
  have resize: "tRegions (SetRegion r g (lTree st)) k = None \<longleftrightarrow> tRegions (lTree st) k = None"
    if "tRegions (lTree st) i = Some re" "r = reRegion re" for r re g i k
    using geometry_regions(2) [OF assms(2), of i r] that by (simp add: treeRegion_def)
  have spawn: "subscriptions_ok (snd (handleSpawnRegion r g n st))" for r g n
    using SetRegion_regions [of "r\<lparr>rSession := n\<rparr>" g "lTree st"] assms(3)
    by (auto simp: subscriptions_ok_def handleSpawnRegion_def Let_def case_prod_unfold)
  have destroy: "subscriptions_ok (snd (handleDestroyRegion i st))" for i
    using assms(3) by (auto simp: subscriptions_ok_def handleDestroyRegion_def Let_def split: option.split)
  show ?thesis
  proof (cases rq)
    case (spawnRegionReq r g n)
    then show ?thesis using spawn by simp
  next
    case (restoreRegionReq r g n)
    then show ?thesis using spawn by simp
  next
    case (destroyRegionReq i)
    then show ?thesis using destroy by simp
  qed (use assms(1,3) keep resize in \<open>auto simp: small_handlers subscriptions_ok_def treeRegion_def treeClient_def simp del: not_None_eq
      split: option.splits if_splits\<close>)
qed

lemma handle_overlays:
  assumes "admissible rq st" "tree_ok (lTree st)" "overlays_ok st"
  shows "overlays_ok (snd (handleRequest rq st))"
proof -
  have resize: "tRegions (SetRegion r g (lTree st)) k = None \<longleftrightarrow> tRegions (lTree st) k = None"
    if "tRegions (lTree st) i = Some re" "r = reRegion re" for r re g i k
    using geometry_regions(2) [OF assms(2), of i r] that by (simp add: treeRegion_def)
  have spawn: "overlays_ok (snd (handleSpawnRegion r g n st))" for r g n
    using SetRegion_regions [of "r\<lparr>rSession := n\<rparr>" g "lTree st"] assms(3)
    by (auto simp: overlays_ok_def handleSpawnRegion_def Let_def case_prod_unfold)
  have destroy: "overlays_ok (snd (handleDestroyRegion i st))" for i
    using assms(3) by (auto simp: overlays_ok_def handleDestroyRegion_def Let_def split: option.split)
  have owner: "c = d" if "clientOverlays st c = Some r" "clientOverlays st d = Some r" for c d r
    using assms(3) that unfolding overlays_ok_def by (metis option.inject)
  show ?thesis
  proof (cases rq)
    case (spawnRegionReq r g n)
    then show ?thesis using spawn by simp
  next
    case (restoreRegionReq r g n)
    then show ?thesis using spawn by simp
  next
    case (destroyRegionReq i)
    then show ?thesis using destroy by simp
  qed (use assms(1,3) resize in \<open>auto simp: small_handlers overlays_ok_def treeRegion_def treeClient_def simp del: not_None_eq dest: owner
      split: option.splits if_splits\<close>)
qed

lemma initial_loop_ok: "loop_ok (initialLoop server programs :: 'a eventLoopState)"
proof -
  have "tRegions (fold SetProgram programs t) = tRegions t \<and> tSessions (fold SetProgram programs t) = tSessions t" for t :: "'a ServerTree"
    by (induction programs arbitrary: t) simp_all
  then show ?thesis
    by (simp add: loop_ok_def initialLoop_def tree_ok_def sessions_ok_def subscriptions_ok_def overlays_ok_def NewServerTree_def)
qed

lemma loopStep_ok:
  assumes "loop_ok st" "admissible rq st" "loopStep rq st = (out, st')"
  shows "loop_ok st'"
proof -
  let ?s = "st\<lparr>lTree := StartTx (lTree st)\<rparr>"
  let ?u = "snd (handleRequest rq ?s)"
  have s: "tree_ok (lTree ?s)" "tInTx (lTree ?s)" "sessions_ok (lTree ?s)" "subscriptions_ok ?s" "overlays_ok ?s"
    using assms(1,2)
    by (auto simp: loop_ok_def tree_ok_def sessions_ok_def subscriptions_ok_def overlays_ok_def StartTx_def)
  have adm: "admissible rq ?s" using assms(2) by (cases rq) (simp_all add: StartTx_def)
  have "names_ok rq" using assms(2) by (cases rq) simp_all
  then have u: "tree_ok (lTree ?u)" using handle_emits [OF _ s(1,2)] emits_ok(1) by blast
  have c: "tRegions (snd (CommitTx t)) = tRegions t" "tSessions (snd (CommitTx t)) = tSessions t"
    "tClients (snd (CommitTx t)) = tClients t" for t :: "'a ServerTree"
    by (simp_all add: CommitTx_def Let_def)
  have "st' = ?u\<lparr>lTree := snd (CommitTx (lTree ?u))\<rparr>"
    using assms(3) by (simp add: loopStep_def Let_def case_prod_unfold)
  then show ?thesis
    using u handle_sessions [OF adm s(1,3)] handle_subscriptions [OF adm s(1,4)] handle_overlays [OF adm s(1,5)]
    by (simp add: loop_ok_def tree_ok_def sessions_ok_def subscriptions_ok_def overlays_ok_def c)
qed

lemma reachable_loop_ok: "loop_reachable st \<Longrightarrow> loop_ok st"
  by (induction rule: loop_reachable.induct) (simp_all add: initial_loop_ok loopStep_ok)

section \<open>Where the code falls short\<close>

text \<open>
  A session whose name has a slash is created on the server, but its operation changes nothing on the
  client, which takes the segment after the slash for a part of the node.
\<close>

lemma slash_session_lost:
  assumes "slashless a" "slashless b" "tInTx t" "tSessions t (a @ ''/'' @ b) = None"
  shows "\<exists>op u. EnsureSession (a @ ''/'' @ b) t = (True, u) \<and> tOps u = tOps t @ [op] \<and>
    tSessions u (a @ ''/'' @ b) \<noteq> None \<and> applyOp op (treeOf t) = treeOf t"
proof -
  have "splitPath (''/sessions/'' @ a @ ''/'' @ b) = [''sessions'', a, b]"
    using assms(1,2) split_at_append [of "CHR ''/''" a b] by (simp add: splitPath_def slashless_def split_at_no)
  then show ?thesis
    using assms(3,4) by (simp add: EnsureSession_def Let_def emit_defs emitOp_def applyOp_def applySessionOp_def split: option.split)
qed

text \<open>
  A client that has overlays on two regions and disconnects leaves its entry, and the overlay on the
  actor, on the first of them.
\<close>

lemma stale_overlay:
  assumes "tRegions (lTree st) r1 = Some e1" "tRegions (lTree st) r2 = Some e2" "r1 \<noteq> r2"
    and "reRegion e1 \<noteq> reRegion e2" "regionOverlays st r1 = None" "regionOverlays st r2 = None" "subscriptions st i = None"
  shows "let st1 = snd (handleOverlayRegister i c r1 '''' st); st2 = snd (handleOverlayRegister i c r2 '''' st1);
      (effs, st3) = handleRemoveClient i st2
    in regionOverlays st3 r1 = Some i \<and> clientOverlays st3 i = None \<and> ClearOverlay (reRegion e1) i \<notin> set effs"
  using assms by (auto simp: handleOverlayRegister_def handleRemoveClient_def treeRegion_def Let_def)

lemma loopStep_version:
  assumes "names_ok rq" "tree_ok (lTree st)" "loopStep rq st = ((effs, Some m), st')"
  shows "evsVersion m = tVersion (lTree st) + 1"
proof -
  let ?s = "st\<lparr>lTree := StartTx (lTree st)\<rparr>"
  have "tree_ok (lTree ?s)" "tInTx (lTree ?s)" "tVersion (lTree ?s) = tVersion (lTree st)"
    using assms(2) by (simp_all add: StartTx_def tree_ok_def)
  then have "tVersion (lTree (snd (handleRequest rq ?s))) = tVersion (lTree st)"
    using handle_emits [OF assms(1)] by (simp add: emits_def)
  then show ?thesis
    using assms(3) by (auto simp: loopStep_def Let_def case_prod_unfold broadcast_def CommitTx_def split: if_splits)
qed

end
