(* ===== verification/ServerActor.thy ===== *)
theory ServerActor
  imports ServerProxy WireCells TePaging
begin

text \<open>
  The actor of a region: \<open>internal/server/actor.go\<close>, with the snapshots of \<open>region.go\<close> and \<open>server.go\<close>
  and the outgoing queue of a client (\<open>client.go\<close>). The subscribers are a list in the order in which
  the loop over the map visits them. \<open>now\<close> and \<open>timeout\<close> are the clock and \<open>behindTimeout\<close>, in
  nanoseconds; a backend's answers are arguments. A panic of the actor is \<open>None\<close>.
\<close>

section \<open>The outgoing queue of a client\<close>

record Snapshot =
  shLines :: "string list"
  shCursorRow :: "16 word"
  shCursorCol :: "16 word"
  shCells :: "ScreenCell list list"
  shModes :: "int \<rightharpoonup> bool"
  shTitle :: string
  shIconName :: string
  shScrollbackLen :: int
  shScrollbackTotal :: "64 word"

record ScreenUpdate =
  suSnapshot :: Snapshot
  suScrollbackDesync :: bool
  suScrollbackDelta :: "ScreenCell list list"

datatype message = ScreenUpdateMsg ScreenUpdate | TerminalEventsMsg "TerminalEvent list"

record client =
  writeCh :: "message list"
  writeCap :: nat
  behind :: bool
  behindSince :: int
  closed :: bool

definition SendMessage :: "message \<Rightarrow> client \<Rightarrow> bool \<times> client" where
  "SendMessage m c =
    (if length (writeCh c) < writeCap c then (True, c\<lparr>writeCh := writeCh c @ [m]\<rparr>) else (False, c))"

definition WriteChHasRoom :: "client \<Rightarrow> bool" where
  "WriteChHasRoom c \<longleftrightarrow> length (writeCh c) < writeCap c"

definition newScreenUpdate :: "Snapshot \<Rightarrow> ScreenUpdate" where
  "newScreenUpdate snap = \<lparr>suSnapshot = snap, suScrollbackDesync = False, suScrollbackDelta = []\<rparr>"

definition markBehind :: "int \<Rightarrow> client \<Rightarrow> client" where
  "markBehind now c = (if behind c then c else c\<lparr>behind := True, behindSince := now\<rparr>)"

definition shedIfStuck :: "int \<Rightarrow> int \<Rightarrow> client \<Rightarrow> client" where
  "shedIfStuck now timeout c =
    (if behindSince c > 0 \<and> now - behindSince c > timeout then c\<lparr>behindSince := 0, closed := True\<rparr> else c)"

definition caughtUp :: "client \<Rightarrow> client" where
  "caughtUp c = c\<lparr>behind := False, behindSince := 0\<rparr>"

section \<open>State\<close>

record subscriberState =
  subID :: "32 word"
  subClient :: client
  lastTotalAdded :: "64 word"

record overlayState =
  ovClientID :: "32 word"
  ovCells :: "ScreenCell list list"
  ovCursorRow :: "16 word"
  ovCursorCol :: "16 word"
  ovModes :: "int \<rightharpoonup> bool"

record regionActor =
  aWidth :: int
  aHeight :: int
  aProxy :: "HistoryScreen EventProxy"
  aStream :: Stream
  aSubscribers :: "subscriberState list"
  aOverlay :: "overlayState option"
  scrollbackQueries :: "64 word"
  droppedBroadcasts :: "64 word"
  aStopped :: bool
  catchupArmed :: bool

abbreviation hscreen :: "regionActor \<Rightarrow> HistoryScreen" where
  "hscreen a \<equiv> pscreen (aProxy a)"

definition newRegionActor :: "int \<Rightarrow> int \<Rightarrow> HistoryScreen \<Rightarrow> regionActor" where
  "newRegionActor width height h =
    \<lparr>aWidth = width, aHeight = height, aProxy = NewEventProxy h, aStream = NewStream True False, aSubscribers = [],
     aOverlay = None, scrollbackQueries = 0, droppedBroadcasts = 0, aStopped = False, catchupArmed = False\<rparr>"

section \<open>Snapshots\<close>

definition spaces :: "int \<Rightarrow> string" where
  "spaces n = replicate (nat n) (CHR '' '')"

definition padLine :: "string \<Rightarrow> int \<Rightarrow> string option" where
  "padLine line width =
    (let rs = runes line in
     if len rs = width then Some line
     else if len rs > width then Some (string_of_runes (take (nat width) rs))
     else Some (line @ spaces (width - len rs)))"

definition regionSnapshot :: "textlib \<Rightarrow> regionActor \<Rightarrow> Snapshot option" where
  "regionSnapshot E a =
    (let s = hscr (hscreen a) in if aHeight a < 0 then None else do {
       display \<leftarrow> Display E s;
       lines \<leftarrow> those (map (\<lambda>i. if i < len display then padLine (display ! nat i) (aWidth a)
                                else if aWidth a < 0 then None else Some (spaces (aWidth a))) [0..aHeight a - 1]);
       let rows = minInt (aHeight a) (len (Buffer s));
       Some \<lparr>shLines = lines, shCursorRow = of_int (row s), shCursorCol = of_int (col s),
             shCells = map (map cellToProtocol) (take (nat rows) (Buffer s)),
             shModes = (\<lambda>k. if k \<in> Mode s then Some True else None), shTitle = Title s, shIconName = IconName s,
             shScrollbackLen = Scrollback (hscreen a), shScrollbackTotal = TotalAdded (history (hscreen a))\<rparr> })"

text \<open>The overlay's cells over the base, row by row and cell by cell where both have one.\<close>

fun overRow :: "ScreenCell list \<Rightarrow> ScreenCell list \<Rightarrow> ScreenCell list" where
  "overRow (oc # ocs) (c # cs) =
    (if scChar oc \<noteq> '''' \<and> scChar oc \<noteq> [CHR 0x00] then oc else c) # overRow ocs cs"
| "overRow ocs cs = cs"

fun overCells :: "ScreenCell list list \<Rightarrow> ScreenCell list list \<Rightarrow> ScreenCell list list" where
  "overCells (ol # ols) (l # ls) = overRow ol l # overCells ols ls"
| "overCells ols ls = ls"

definition compositeSnapshot :: "Snapshot \<Rightarrow> overlayState \<Rightarrow> Snapshot" where
  "compositeSnapshot base ov =
    (let cells = overCells (ovCells ov) (shCells base) in
     \<lparr>shLines = map (\<lambda>row. concat (map (\<lambda>c. if scChar c = '''' then '' '' else scChar c) row)) cells,
      shCursorRow = ovCursorRow ov, shCursorCol = ovCursorCol ov, shCells = cells,
      shModes = (if ovModes ov \<noteq> Map.empty then ovModes ov else shModes base),
      shTitle = shTitle base, shIconName = shIconName base, shScrollbackLen = 0, shScrollbackTotal = 0\<rparr>)"

definition compositedSnapshot :: "textlib \<Rightarrow> regionActor \<Rightarrow> Snapshot option" where
  "compositedSnapshot E a =
    map_option (\<lambda>snap. case aOverlay a of Some ov \<Rightarrow> compositeSnapshot snap ov | None \<Rightarrow> snap) (regionSnapshot E a)"

text \<open>The scrollback a client asks for: trailing blanks with no attribute at all are left out.\<close>

definition bareBlank :: "Cell \<Rightarrow> bool" where
  "bareBlank c \<longleftrightarrow> (Data c = '''' \<or> Data c = '' '' \<or> Data c = [CHR 0x00]) \<and> CellAttr c = zeroAttr"

definition getScrollback :: "regionActor \<Rightarrow> ScreenCell list list" where
  "getScrollback a =
    map (map cellToProtocol \<circ> rev \<circ> dropWhile bareBlank \<circ> rev) (items (HTop (history (hscreen a))))"

definition scrollbackSince :: "64 word \<Rightarrow> 64 word \<Rightarrow> regionActor \<Rightarrow> ScreenCell list list" where
  "scrollbackSince since till a =
    (let H = history (hscreen a) in
     if till \<le> since then []
     else (let since = (if since < FirstSeq H then FirstSeq H else since);
               till = (if till > TotalAdded H then TotalAdded H else till)
           in if till \<le> since then []
              else (let lo = sint (since - FirstSeq H); hi = sint (till - FirstSeq H) in
                    if lo < 0 \<or> hi > len (items (HTop H)) \<or> lo \<ge> hi then []
                    else map (map cellToProtocol) (take (nat (hi - lo)) (drop (nat lo) (items (HTop H)))))))"

section \<open>Delivery\<close>

text \<open>
  \<open>deliverFrames\<close> for one subscriber: the regular frame, and behind it the repair snapshot when the
  client was behind and has room. The result says whether the frame was dropped. The repair is an
  option because taking the snapshot may panic; it is only taken when it is sent.
\<close>

definition deliverTo ::
  "int \<Rightarrow> int \<Rightarrow> message \<Rightarrow> message option \<Rightarrow> 64 word \<Rightarrow> subscriberState \<Rightarrow> (bool \<times> subscriberState) option" where
  "deliverTo now timeout frame repair currentTotal sub =
    (case SendMessage frame (subClient sub) of
       (False, c) \<Rightarrow> Some (True, sub\<lparr>subClient := shedIfStuck now timeout (markBehind now c)\<rparr>)
     | (True, c) \<Rightarrow>
         let sub = sub\<lparr>subClient := c, lastTotalAdded := currentTotal\<rparr> in
         if \<not> behind c then Some (False, sub)
         else if \<not> WriteChHasRoom c then Some (False, sub)
         else do {
           m \<leftarrow> repair;
           Some (False, case SendMessage m c of
             (True, c) \<Rightarrow> sub\<lparr>subClient := caughtUp c\<rparr> | (False, c) \<Rightarrow> sub\<lparr>subClient := c\<rparr>) })"

fun deliverLoop ::
  "int \<Rightarrow> int \<Rightarrow> (subscriberState \<Rightarrow> message) \<Rightarrow> message option \<Rightarrow> 64 word \<Rightarrow> subscriberState list \<Rightarrow>
   (64 word \<times> subscriberState list) option" where
  "deliverLoop now timeout frameFor repair currentTotal [] = Some (0, [])"
| "deliverLoop now timeout frameFor repair currentTotal (sub # subs) = do {
     (dropped, sub) \<leftarrow> deliverTo now timeout (frameFor sub) repair currentTotal sub;
     (n, subs) \<leftarrow> deliverLoop now timeout frameFor repair currentTotal subs;
     Some (if dropped then n + 1 else n, sub # subs) }"

definition deliverFrames ::
  "int \<Rightarrow> int \<Rightarrow> (subscriberState \<Rightarrow> message) \<Rightarrow> message option \<Rightarrow> 64 word \<Rightarrow> regionActor \<Rightarrow> regionActor option" where
  "deliverFrames now timeout frameFor repair currentTotal a = do {
     (n, subs) \<leftarrow> deliverLoop now timeout frameFor repair currentTotal (aSubscribers a);
     Some (a\<lparr>aSubscribers := subs, droppedBroadcasts := droppedBroadcasts a + n\<rparr>) }"

definition deltaUpdate :: "Snapshot \<Rightarrow> ScreenCell list list \<Rightarrow> message" where
  "deltaUpdate snap delta = ScreenUpdateMsg ((newScreenUpdate snap)\<lparr>suScrollbackDelta := delta\<rparr>)"

definition desyncUpdate :: "Snapshot \<Rightarrow> message" where
  "desyncUpdate snap = ScreenUpdateMsg ((newScreenUpdate snap)\<lparr>suScrollbackDesync := True\<rparr>)"

definition deliverSnapshotPerSub :: "int \<Rightarrow> int \<Rightarrow> Snapshot \<Rightarrow> 64 word \<Rightarrow> regionActor \<Rightarrow> regionActor option" where
  "deliverSnapshotPerSub now timeout base currentTotal a =
    deliverFrames now timeout (\<lambda>sub. deltaUpdate base (scrollbackSince (lastTotalAdded sub) currentTotal a))
      (Some (desyncUpdate base)) currentTotal a"

definition deliverBroadcast ::
  "int \<Rightarrow> int \<Rightarrow> message \<Rightarrow> message option \<Rightarrow> 64 word \<Rightarrow> regionActor \<Rightarrow> regionActor option" where
  "deliverBroadcast now timeout m = deliverFrames now timeout (\<lambda>_. m)"

definition syncEvents :: "string list \<Rightarrow> TerminalEvent list" where
  "syncEvents = map (dataEvent ''sync'')"

definition currentSeq :: "regionActor \<Rightarrow> 64 word" where
  "currentSeq a = TotalAdded (history (hscreen a))"

definition broadcastTrailing ::
  "textlib \<Rightarrow> int \<Rightarrow> int \<Rightarrow> TerminalEvent list \<Rightarrow> string list \<Rightarrow> regionActor \<Rightarrow> regionActor option" where
  "broadcastTrailing E now timeout events syncs a =
    (if events = [] \<and> syncs = [] then Some a
     else deliverBroadcast now timeout (TerminalEventsMsg (events @ syncEvents syncs))
            (map_option desyncUpdate (regionSnapshot E a)) (currentSeq a) a)"

definition broadcastSyncs :: "textlib \<Rightarrow> int \<Rightarrow> int \<Rightarrow> string list \<Rightarrow> regionActor \<Rightarrow> regionActor option" where
  "broadcastSyncs E now timeout syncs = broadcastTrailing E now timeout [] syncs"

definition broadcastToSubscribers :: "textlib \<Rightarrow> int \<Rightarrow> int \<Rightarrow> regionActor \<Rightarrow> regionActor option" where
  "broadcastToSubscribers E now timeout a =
    (case Flush (aProxy a) of ((events, needsSnapshot, syncs), p) \<Rightarrow>
     let a = a\<lparr>aProxy := p\<rparr> in
     if \<not> needsSnapshot \<and> events = [] \<and> syncs = [] then Some a
     else if aSubscribers a = [] then Some a
     else if aOverlay a \<noteq> None then do {
       base \<leftarrow> compositedSnapshot E a;
       b \<leftarrow> deliverSnapshotPerSub now timeout base (currentSeq a) a;
       broadcastSyncs E now timeout syncs b }
     else if needsSnapshot then do {
       base \<leftarrow> regionSnapshot E a;
       b \<leftarrow> deliverSnapshotPerSub now timeout base (currentSeq a) a;
       broadcastTrailing E now timeout events syncs b }
     else deliverBroadcast now timeout (TerminalEventsMsg (events @ syncEvents syncs))
            (map_option desyncUpdate (regionSnapshot E a)) (currentSeq a) a)"

section \<open>Repair on a quiet region\<close>

text \<open>\<open>catchupBehindSubscribers\<close> for one subscriber.\<close>

definition repairOne :: "int \<Rightarrow> int \<Rightarrow> message option \<Rightarrow> 64 word \<Rightarrow> subscriberState \<Rightarrow> subscriberState option" where
  "repairOne now timeout repair current sub =
    (let c = subClient sub in
     if \<not> behind c then Some sub
     else if behindSince c > 0 \<and> now - behindSince c > timeout then
       Some (sub\<lparr>subClient := shedIfStuck now timeout c\<rparr>)
     else if \<not> WriteChHasRoom c then Some sub
     else do {
       m \<leftarrow> repair;
       Some (case SendMessage m c of
         (True, c) \<Rightarrow> sub\<lparr>subClient := caughtUp c, lastTotalAdded := current\<rparr>
       | (False, c) \<Rightarrow> sub\<lparr>subClient := c\<rparr>) })"

definition catchupBehindSubscribers :: "textlib \<Rightarrow> int \<Rightarrow> int \<Rightarrow> regionActor \<Rightarrow> regionActor option" where
  "catchupBehindSubscribers E now timeout a = do {
     subs \<leftarrow> those (map (repairOne now timeout (map_option desyncUpdate (compositedSnapshot E a)) (currentSeq a))
                       (aSubscribers a));
     Some (a\<lparr>aSubscribers := subs\<rparr>) }"

definition anyBehind :: "regionActor \<Rightarrow> bool" where
  "anyBehind a = list_ex (behind \<circ> subClient) (aSubscribers a)"

definition armCatchupIfBehind :: "regionActor \<Rightarrow> regionActor" where
  "armCatchupIfBehind a = (if catchupArmed a \<or> \<not> anyBehind a then a else a\<lparr>catchupArmed := True\<rparr>)"

section \<open>Messages of the actor\<close>

text \<open>
  What other goroutines send the actor. A message carries the client it is about, and \<open>resizeMsg\<close> the
  error its backend answers with, if any. A reply is what goes back over the message's channel;
  \<open>DestroyRegion\<close> is the call of \<open>destroyFn\<close>, which runs on a goroutine of its own.
\<close>

datatype regionMsg =
    ptyDataMsg bytes | childExitedMsg | addSubscriberMsg "32 word" client | removeSubscriberMsg "32 word"
  | snapshotMsg | scrollbackMsg | regionStatsMsg | scrollbackLenMsg
  | resizeMsg "16 word" "16 word" "string option"
  | overlayRegisterMsg "32 word"
  | overlayRenderMsg "32 word" "ScreenCell list list" "16 word" "16 word" "int \<rightharpoonup> bool"
  | overlayClearMsg "32 word" | syncMarkerMsg string | stopActorMsg

datatype regionReply =
    SnapshotReply Snapshot | ScrollbackReply "ScreenCell list list" "64 word" | StatsReply "64 word" "64 word"
  | LengthReply int | ResizeReply "string option" | OverlayReply int int | StopReply | DestroyRegion

definition feedActor :: "textlib \<Rightarrow> bytes \<Rightarrow> regionActor \<Rightarrow> regionActor" where
  "feedActor E dat a =
    (case FeedBytes (proxyListener (history_handle E)) dat (aStream a, aProxy a) of
       (_, (st, p)) \<Rightarrow> a\<lparr>aStream := st, aProxy := p\<rparr>)"

definition clearOverlayInternal :: "textlib \<Rightarrow> int \<Rightarrow> int \<Rightarrow> regionActor \<Rightarrow> regionActor option" where
  "clearOverlayInternal E now timeout a =
    (let a = a\<lparr>aOverlay := None\<rparr> in
     if aSubscribers a = [] then Some a
     else do { base \<leftarrow> regionSnapshot E a; deliverSnapshotPerSub now timeout base (currentSeq a) a })"

definition ownsOverlay :: "32 word \<Rightarrow> regionActor \<Rightarrow> bool" where
  "ownsOverlay i a = (case aOverlay a of Some ov \<Rightarrow> ovClientID ov = i | None \<Rightarrow> False)"

text \<open>The client is one object: a client that already subscribes is the one on the list.\<close>

definition clientNow :: "32 word \<Rightarrow> client \<Rightarrow> regionActor \<Rightarrow> client" where
  "clientNow i c a = (case find (\<lambda>sub. subID sub = i) (aSubscribers a) of Some sub \<Rightarrow> subClient sub | None \<Rightarrow> c)"

definition dropSubscriber :: "32 word \<Rightarrow> regionActor \<Rightarrow> regionActor" where
  "dropSubscriber i a = a\<lparr>aSubscribers := filter (\<lambda>sub. subID sub \<noteq> i) (aSubscribers a)\<rparr>"

definition addSubscriber :: "textlib \<Rightarrow> int \<Rightarrow> 32 word \<Rightarrow> client \<Rightarrow> regionActor \<Rightarrow> (regionReply list \<times> regionActor) option" where
  "addSubscriber E now i c0 a = do {
     snap \<leftarrow> compositedSnapshot E a;
     let c = (case SendMessage (ScreenUpdateMsg (newScreenUpdate snap)) (clientNow i c0 a) of
                (True, c) \<Rightarrow> c | (False, c) \<Rightarrow> markBehind now c);
     let syncs = AllSyncs (aProxy a);
     let c = (if syncs = [] then c else snd (SendMessage (TerminalEventsMsg (syncEvents syncs)) c));
     let a = dropSubscriber i a;
     Some ([SnapshotReply snap],
       a\<lparr>aSubscribers := aSubscribers a @ [\<lparr>subID = i, subClient = c, lastTotalAdded = currentSeq a\<rparr>]\<rparr>) }"

definition removeSubscriber :: "textlib \<Rightarrow> int \<Rightarrow> int \<Rightarrow> 32 word \<Rightarrow> regionActor \<Rightarrow> regionActor option" where
  "removeSubscriber E now timeout i a =
    (let a = dropSubscriber i a in
     if ownsOverlay i a then clearOverlayInternal E now timeout a else Some a)"

definition resizeActor :: "16 word \<Rightarrow> 16 word \<Rightarrow> string option \<Rightarrow> regionActor \<Rightarrow> (regionReply list \<times> regionActor) option" where
  "resizeActor width height err a =
    (if err \<noteq> None then Some ([ResizeReply err], a)
     else do {
       h \<leftarrow> historyResize (uint height) (uint width) (hscreen a);
       Some ([ResizeReply None], a\<lparr>aProxy := (aProxy a)\<lparr>pscreen := h\<rparr>, aWidth := uint width, aHeight := uint height\<rparr>) })"

definition overlayRender ::
  "textlib \<Rightarrow> int \<Rightarrow> int \<Rightarrow> 32 word \<Rightarrow> ScreenCell list list \<Rightarrow> 16 word \<Rightarrow> 16 word \<Rightarrow> (int \<rightharpoonup> bool) \<Rightarrow>
   regionActor \<Rightarrow> regionActor option" where
  "overlayRender E now timeout i cells r c modes a =
    (if \<not> ownsOverlay i a then Some a
     else (let a = a\<lparr>aOverlay := Some \<lparr>ovClientID = i, ovCells = cells, ovCursorRow = r, ovCursorCol = c, ovModes = modes\<rparr>\<rparr>
           in do { base \<leftarrow> compositedSnapshot E a; deliverSnapshotPerSub now timeout base (currentSeq a) a }))"

text \<open>Every handler but that of \<open>ptyDataMsg\<close>.\<close>

fun handleRegion1 :: "textlib \<Rightarrow> int \<Rightarrow> int \<Rightarrow> regionMsg \<Rightarrow> regionActor \<Rightarrow> (regionReply list \<times> regionActor) option" where
  "handleRegion1 E now timeout (ptyDataMsg dat) a = Some ([], a)"
| "handleRegion1 E now timeout childExitedMsg a = do {
     b \<leftarrow> broadcastToSubscribers E now timeout a;
     Some ([DestroyRegion], b\<lparr>aStopped := True\<rparr>) }"
| "handleRegion1 E now timeout (addSubscriberMsg i c) a = addSubscriber E now i c a"
| "handleRegion1 E now timeout (removeSubscriberMsg i) a = map_option (Pair []) (removeSubscriber E now timeout i a)"
| "handleRegion1 E now timeout snapshotMsg a = map_option (\<lambda>snap. ([SnapshotReply snap], a)) (compositedSnapshot E a)"
| "handleRegion1 E now timeout scrollbackMsg a =
     Some ([ScrollbackReply (getScrollback a) (currentSeq a)], a\<lparr>scrollbackQueries := scrollbackQueries a + 1\<rparr>)"
| "handleRegion1 E now timeout regionStatsMsg a = Some ([StatsReply (scrollbackQueries a) (droppedBroadcasts a)], a)"
| "handleRegion1 E now timeout scrollbackLenMsg a = Some ([LengthReply (Scrollback (hscreen a))], a)"
| "handleRegion1 E now timeout (resizeMsg width height err) a = resizeActor width height err a"
| "handleRegion1 E now timeout (overlayRegisterMsg i) a =
     Some ([OverlayReply (aWidth a) (aHeight a)],
       a\<lparr>aOverlay := Some \<lparr>ovClientID = i, ovCells = [], ovCursorRow = 0, ovCursorCol = 0, ovModes = Map.empty\<rparr>\<rparr>)"
| "handleRegion1 E now timeout (overlayRenderMsg i cells r c modes) a =
     map_option (Pair []) (overlayRender E now timeout i cells r c modes a)"
| "handleRegion1 E now timeout (overlayClearMsg i) a =
     (if ownsOverlay i a then map_option (Pair []) (clearOverlayInternal E now timeout a) else Some ([], a))"
| "handleRegion1 E now timeout (syncMarkerMsg i) a =
     map_option (Pair []) (broadcastToSubscribers E now timeout (a\<lparr>aProxy := EmitSyncMarker i (aProxy a)\<rparr>))"
| "handleRegion1 E now timeout stopActorMsg a = Some ([StopReply], a\<lparr>aStopped := True\<rparr>)"

definition coalesceMaxBytes :: int where
  "coalesceMaxBytes = 64 * 1024"

text \<open>
  Further output already waiting in the inbox is fed at once, up to the limit; the first other
  message ends the batch and is handled after the broadcast.
\<close>

fun coalesce :: "textlib \<Rightarrow> int \<Rightarrow> regionMsg list \<Rightarrow> regionActor \<Rightarrow> regionMsg option \<times> regionMsg list \<times> regionActor" where
  "coalesce E fed [] a = (None, [], a)"
| "coalesce E fed (m # inbox) a =
     (if fed \<ge> coalesceMaxBytes then (None, m # inbox, a)
      else case m of
        ptyDataMsg dat \<Rightarrow> coalesce E (fed + len dat) inbox (feedActor E dat a)
      | _ \<Rightarrow> (Some m, inbox, a))"

definition handleRegion ::
  "textlib \<Rightarrow> int \<Rightarrow> int \<Rightarrow> regionMsg \<Rightarrow> regionMsg list \<Rightarrow> regionActor \<Rightarrow>
   (regionReply list \<times> regionMsg list \<times> regionActor) option" where
  "handleRegion E now timeout m inbox a =
    (case m of
       ptyDataMsg dat \<Rightarrow>
         (case coalesce E (len dat) inbox (feedActor E dat a) of (next, inbox, a) \<Rightarrow> do {
            a \<leftarrow> broadcastToSubscribers E now timeout a;
            case next of
              None \<Rightarrow> Some ([], inbox, a)
            | Some m \<Rightarrow> map_option (\<lambda>(out, a). (out, inbox, a)) (handleRegion1 E now timeout m a) })
     | _ \<Rightarrow> map_option (\<lambda>(out, a). (out, inbox, a)) (handleRegion1 E now timeout m a))"

text \<open>
  The loop of \<open>run\<close>, one round: a message from the inbox, or the timer when it fires (\<open>None\<close>); a
  stopped actor takes no further round.
\<close>

definition actorRound ::
  "textlib \<Rightarrow> int \<Rightarrow> int \<Rightarrow> regionMsg option \<Rightarrow> regionMsg list \<Rightarrow> regionActor \<Rightarrow>
   (regionReply list \<times> regionMsg list \<times> regionActor) option" where
  "actorRound E now timeout m inbox a =
    (if aStopped a then Some ([], inbox, a)
     else do {
       (out, inbox, a) \<leftarrow>
         (case m of
            Some m \<Rightarrow> handleRegion E now timeout m inbox a
          | None \<Rightarrow> map_option (\<lambda>a. ([], inbox, a)) (catchupBehindSubscribers E now timeout (a\<lparr>catchupArmed := False\<rparr>)));
       Some (out, inbox, if aStopped a then a else armCatchupIfBehind a) })"

section \<open>A subscriber over a run\<close>

text \<open>
  What happens to one subscriber: the actor offers it a frame (with the repair snapshot it would send
  behind it), its write loop takes the oldest message, the timer tries a repair. Messages of other
  parts of the server only take room in the queue and are left out.
\<close>

datatype link_op = Offer int message message "64 word" | Consume | Tick int message "64 word"

fun link_step :: "int \<Rightarrow> link_op \<Rightarrow> message list \<times> subscriberState \<Rightarrow> (message list \<times> subscriberState) option" where
  "link_step timeout (Offer now m r n) (taken, sub) =
     map_option (\<lambda>(_, sub). (taken, sub)) (deliverTo now timeout m (Some r) n sub)"
| "link_step timeout Consume (taken, sub) =
     (case writeCh (subClient sub) of
        [] \<Rightarrow> Some (taken, sub)
      | m # ms \<Rightarrow> Some (taken @ [m], sub\<lparr>subClient := (subClient sub)\<lparr>writeCh := ms\<rparr>\<rparr>))"
| "link_step timeout (Tick now r n) (taken, sub) =
     map_option (\<lambda>sub. (taken, sub)) (repairOne now timeout (Some r) n sub)"

fun offered :: "link_op list \<Rightarrow> message list" where
  "offered [] = []"
| "offered (Offer now m r n # ops) = m # offered ops"
| "offered (Consume # ops) = offered ops"
| "offered (Tick now r n # ops) = offered ops"

fun repair_of :: "link_op \<Rightarrow> message option" where
  "repair_of (Offer now m r n) = Some r"
| "repair_of Consume = None"
| "repair_of (Tick now r n) = Some r"

lemma offered_append [simp]: "offered (xs @ ys) = offered xs @ offered ys"
  by (induction xs rule: offered.induct) simp_all

text \<open>What the client has been given, and what it has been given when it has missed nothing it needs.\<close>

definition given :: "message list \<times> subscriberState \<Rightarrow> message list" where
  "given x = fst x @ writeCh (subClient (snd x))"

definition in_step :: "message list \<Rightarrow> link_op list \<Rightarrow> message list \<Rightarrow> bool" where
  "in_step start ops ms \<longleftrightarrow>
     ms = start @ offered ops \<or>
     (\<exists>before op after pre r. ops = before @ op # after \<and> repair_of op = Some r \<and> ms = pre @ r # offered after)"

lemma in_step_start: "in_step start [] start"
  by (simp add: in_step_def)

lemma in_step_snoc: "in_step start ops ms \<Longrightarrow> in_step start (ops @ [op]) (ms @ offered [op])"
  unfolding in_step_def
proof (elim disjE exE conjE)
  fix before op1 after pre r
  assume "ops = before @ op1 # after" "repair_of op1 = Some r" "ms = pre @ r # offered after"
  then show "ms @ offered [op] = start @ offered (ops @ [op]) \<or>
    (\<exists>before op1 after pre r. ops @ [op] = before @ op1 # after \<and> repair_of op1 = Some r \<and>
       ms @ offered [op] = pre @ r # offered after)"
    by (intro disjI2 exI [of _ before] exI [of _ op1] exI [of _ "after @ [op]"] exI [of _ pre] exI [of _ r]) simp
qed simp

lemma in_step_repair: "repair_of op = Some r \<Longrightarrow> in_step start (ops @ [op]) (pre @ [r])"
  unfolding in_step_def
  by (intro disjI2 exI [of _ ops] exI [of _ op] exI [of _ "[]"] exI [of _ pre] exI [of _ r]) simp

definition link_ok :: "nat \<Rightarrow> message list \<Rightarrow> link_op list \<Rightarrow> message list \<times> subscriberState \<Rightarrow> bool" where
  "link_ok room start ops x \<longleftrightarrow>
     (let c = subClient (snd x) in
      writeCap c = room \<and> length (writeCh c) \<le> room \<and> (\<not> behind c \<longrightarrow> in_step start ops (given x)))"

lemma shedIfStuck_reads [simp]:
  "writeCh (shedIfStuck now timeout c) = writeCh c" "writeCap (shedIfStuck now timeout c) = writeCap c"
  "behind (shedIfStuck now timeout c) = behind c"
  by (simp_all add: shedIfStuck_def)

lemma markBehind_reads [simp]:
  "writeCh (markBehind now c) = writeCh c" "writeCap (markBehind now c) = writeCap c" "behind (markBehind now c)"
  by (simp_all add: markBehind_def)

lemma caughtUp_reads [simp]:
  "writeCh (caughtUp c) = writeCh c" "writeCap (caughtUp c) = writeCap c" "\<not> behind (caughtUp c)"
  by (simp_all add: caughtUp_def)

lemma deliverTo_cases:
  assumes "deliverTo now timeout m (Some r) n sub = Some (dropped, sub')" "c = subClient sub" "c' = subClient sub'"
  obtains (lost) "writeCh c' = writeCh c" "writeCap c' = writeCap c" "behind c'" "dropped"
  | (sent) "writeCh c' = writeCh c @ [m]" "writeCap c' = writeCap c" "length (writeCh c') \<le> writeCap c"
      "behind c' = behind c" "lastTotalAdded sub' = n"
  | (repaired) "writeCh c' = writeCh c @ [m, r]" "writeCap c' = writeCap c" "length (writeCh c') \<le> writeCap c"
      "\<not> behind c'" "lastTotalAdded sub' = n"
  using assms
  by (cases "length (writeCh c) < writeCap c"; cases "behind c"; cases "Suc (length (writeCh c)) < writeCap c")
    (auto simp: deliverTo_def SendMessage_def WriteChHasRoom_def Let_def)

lemma repairOne_cases:
  assumes "repairOne now timeout (Some r) n sub = Some sub'" "c = subClient sub" "c' = subClient sub'"
  obtains (same) "writeCh c' = writeCh c" "writeCap c' = writeCap c" "behind c' = behind c"
  | (repaired) "writeCh c' = writeCh c @ [r]" "writeCap c' = writeCap c" "length (writeCh c') \<le> writeCap c" "\<not> behind c'"
  using assms
  by (cases "length (writeCh c) < writeCap c"; cases "behind c")
    (auto simp: repairOne_def SendMessage_def WriteChHasRoom_def Let_def split: if_splits)

lemma link_step_ok:
  assumes ok: "link_ok room start ops x" and step: "link_step timeout op x = Some y"
  shows "link_ok room start (ops @ [op]) y"
proof (cases x)
  case x: (Pair taken sub)
  let ?c = "subClient sub"
  have ok': "writeCap ?c = room" "length (writeCh ?c) \<le> room" "\<not> behind ?c \<Longrightarrow> in_step start ops (given x)"
    using ok by (simp_all add: link_ok_def x Let_def)
  note on = in_step_snoc [of start ops "given x" op]
  show ?thesis
  proof (cases op)
    case (Offer now m r n)
    then obtain d sub' where d: "deliverTo now timeout m (Some r) n sub = Some (d, sub')" and y: "y = (taken, sub')"
      using step by (auto simp: x)
    note again = in_step_repair [of op r start ops "taken @ writeCh ?c @ [m]"]
    show ?thesis
      by (rule deliverTo_cases [OF d refl refl])
        (use ok' on again in \<open>simp_all add: link_ok_def x y Let_def given_def Offer\<close>)
  next
    case Consume
    then show ?thesis
      using ok step on by (auto simp: link_ok_def x Let_def given_def split: list.splits)
  next
    case (Tick now r n)
    then obtain sub' where d: "repairOne now timeout (Some r) n sub = Some sub'" and y: "y = (taken, sub')"
      using step by (auto simp: x)
    note again = in_step_repair [of op r start ops "taken @ writeCh ?c"]
    show ?thesis
      by (rule repairOne_cases [OF d refl refl])
        (use ok' on again in \<open>simp_all add: link_ok_def x y Let_def given_def Tick\<close>)
  qed
qed

lemma link_run_ok:
  "for_each (link_step timeout) ops x = Some y \<Longrightarrow> link_ok room start past x \<Longrightarrow> link_ok room start (past @ ops) y"
proof (induction ops arbitrary: x "past")
  case (Cons op ops)
  then obtain z where "link_step timeout op x = Some z" "for_each (link_step timeout) ops z = Some y"
    by (auto simp: bind_eq_Some_conv)
  then show ?case using Cons.IH [of z "past @ [op]"] link_step_ok [OF Cons.prems(2)] by simp
qed simp

text \<open>A run never fails: the repair snapshots are given.\<close>

lemma link_step_returns: "\<exists>y. link_step timeout op x = Some y"
  by (cases x; cases op)
    (auto simp: deliverTo_def repairOne_def SendMessage_def Let_def split: prod.splits bool.splits list.splits)

lemma link_run_returns: "\<exists>y. for_each (link_step timeout) ops x = Some y"
proof (induction ops arbitrary: x)
  case (Cons op ops)
  obtain z where "link_step timeout op x = Some z" using link_step_returns by blast
  then show ?case using Cons.IH [of z] by simp
qed simp

text \<open>The quiet region: a tick repairs a client that has room and is not given up.\<close>

lemma tick_repairs:
  assumes "behind c" "WriteChHasRoom c" "\<not> (behindSince c > 0 \<and> now - behindSince c > timeout)" "c = subClient sub"
  shows "repairOne now timeout (Some r) n sub =
    Some (sub\<lparr>subClient := c\<lparr>writeCh := writeCh c @ [r], behind := False, behindSince := 0\<rparr>, lastTotalAdded := n\<rparr>)"
  using assms by (auto simp: repairOne_def SendMessage_def WriteChHasRoom_def caughtUp_def Let_def)

section \<open>A snapshot can be taken\<close>

lemma displayFrom_returns:
  "0 \<le> c \<Longrightarrow> len line = C \<Longrightarrow> \<exists>text. displayFrom E C line c = Some text"
proof (induction E C line c rule: displayFrom.induct)
  case (1 E C line c)
  show ?case
  proof (cases "c \<ge> C")
    case True
    then show ?thesis by (simp add: displayFrom.simps)
  next
    case False
    then obtain cell where cell: "idx line c = Some cell" using 1 by (auto simp: idx_def len_def)
    show ?thesis
      using 1 False cell by (subst displayFrom.simps) (auto simp: bind_eq_Some_conv)
  qed
qed

lemma those_map_returns: "(\<And>x. x \<in> set xs \<Longrightarrow> \<exists>y. f x = Some y) \<Longrightarrow> \<exists>ys. those (map f xs) = Some ys"
  by (induction xs) (auto, force)

lemma those_length: "those xs = Some ys \<Longrightarrow> length ys = length xs"
  by (induction xs arbitrary: ys) (auto split: option.splits)

lemma Display_returns:
  assumes "wf_screen s"
  shows "\<exists>display. Display E s = Some display"
  unfolding Display_def
proof (rule those_map_returns)
  fix r
  assume "r \<in> set [0..Lines s - 1]"
  then obtain line where line: "idx (Buffer s) r = Some line" "len line = Columns s"
    using assms by (auto simp: wf_screen_def idx_def len_def grid_ok_def)
  then show "\<exists>text. idx (Buffer s) r \<bind> (\<lambda>line. displayFrom E (Columns s) line 0) = Some text"
    using displayFrom_returns [of 0 line "Columns s" E] by simp
qed

lemma padLine_returns: "0 \<le> width \<Longrightarrow> \<exists>text. padLine line width = Some text"
  by (simp add: padLine_def Let_def)

lemma regionSnapshot_returns:
  assumes "wf_screen (hscr (hscreen a))" "0 \<le> aWidth a" "0 \<le> aHeight a"
  shows "\<exists>snap. regionSnapshot E a = Some snap"
proof -
  obtain display where d: "Display E (hscr (hscreen a)) = Some display" using Display_returns [OF assms(1)] by blast
  let ?f = "\<lambda>i. if i < len display then padLine (display ! nat i) (aWidth a)
      else if aWidth a < 0 then None else Some (spaces (aWidth a))"
  have "\<exists>text. ?f i = Some text" for i
    using assms(2) padLine_returns [OF assms(2)] by (cases "i < len display") simp_all
  then obtain ls where ls: "those (map ?f [0..aHeight a - 1]) = Some ls"
    using those_map_returns [of "[0..aHeight a - 1]" ?f] by blast
  show ?thesis using d ls assms(3) by (simp add: regionSnapshot_def Let_def)
qed

lemma regionSnapshot_fields:
  assumes "regionSnapshot E a = Some snap" "wf_screen (hscr (hscreen a))" "aHeight a = Lines (hscr (hscreen a))"
  shows "shCells snap = map (map cellToProtocol) (Buffer (hscr (hscreen a)))"
    "shCursorRow snap = of_int (row (hscr (hscreen a)))" "shCursorCol snap = of_int (col (hscr (hscreen a)))"
    "shTitle snap = Title (hscr (hscreen a))" "shIconName snap = IconName (hscr (hscreen a))"
    "{k. shModes snap k = Some True} = Mode (hscr (hscreen a))"
    "shScrollbackLen snap = len (items (HTop (history (hscreen a))))" "shScrollbackTotal snap = currentSeq a"
proof -
  have "len (Buffer (hscr (hscreen a))) = Lines (hscr (hscreen a))" using assms(2) by (simp add: wf_screen_def grid_ok_def len_def)
  with assms show "shCells snap = map (map cellToProtocol) (Buffer (hscr (hscreen a)))"
    "shCursorRow snap = of_int (row (hscr (hscreen a)))" "shCursorCol snap = of_int (col (hscr (hscreen a)))"
    "shTitle snap = Title (hscr (hscreen a))" "shIconName snap = IconName (hscr (hscreen a))"
    "{k. shModes snap k = Some True} = Mode (hscr (hscreen a))"
    "shScrollbackLen snap = len (items (HTop (history (hscreen a))))" "shScrollbackTotal snap = currentSeq a"
    by (auto simp: regionSnapshot_def Let_def bind_eq_Some_conv minInt_def len_def Scrollback_def currentSeq_def
        split: if_splits)
qed

end
