(* ===== verification/TuiScreen.thy ===== *)
theory TuiScreen
  imports ServerActor TuiReplay
begin

text \<open>
  The terminal layer of the client, \<open>internal/tui/terminal.go\<close>: what it does with the messages of the
  region it shows. \<open>handleScreenUpdate\<close> builds a new screen from a snapshot and carries the scrollback
  over, \<open>handleTerminalEvents\<close> replays recorded events. A panic is \<open>None\<close>.
\<close>

section \<open>State\<close>

record TerminalLayer =
  tlScreen :: "HistoryScreen option"
  tlLines :: "string list"
  tlCursorRow :: int
  tlCursorCol :: int
  pendingClear :: bool
  scrollbackRequested :: bool
  termWidth :: int
  termHeight :: int
  statusBarMargin :: int

text \<open>What an update hands to the program's main loop or sends to the server.\<close>

datatype layerCmd = ClearScreen | SyncMsg string | SendResize "16 word" "16 word" | SendSubscribe

definition NewTerminalLayer :: "int \<Rightarrow> int \<Rightarrow> int \<Rightarrow> TerminalLayer" where
  "NewTerminalLayer width height margin =
    \<lparr>tlScreen = None, tlLines = [], tlCursorRow = 0, tlCursorCol = 0, pendingClear = False,
     scrollbackRequested = False, termWidth = width, termHeight = height, statusBarMargin = margin\<rparr>"

definition contentHeight :: "TerminalLayer \<Rightarrow> int" where
  "contentHeight t = (let h = termHeight t - 1 - statusBarMargin t in if h < 1 then 1 else h)"

definition sendResize :: "TerminalLayer \<Rightarrow> layerCmd" where
  "sendResize t = SendResize (of_int (termWidth t)) (of_int (contentHeight t))"

definition Activate :: "TerminalLayer \<Rightarrow> TerminalLayer \<times> layerCmd list" where
  "Activate t =
    (t\<lparr>scrollbackRequested := False\<rparr>,
     SendSubscribe # (if termWidth t > 0 \<and> termHeight t > 2 then [sendResize t] else []))"

section \<open>A screen from cells\<close>

definition initCell :: "ScreenCell \<Rightarrow> Cell" where
  "initCell pc =
    \<lparr>Data = (if scChar pc = '''' \<or> scChar pc = [CHR 0x00] then '' '' else scChar pc), CellAttr = decodedAttr pc\<rparr>"

fun initRow :: "ScreenCell list \<Rightarrow> Cell list \<Rightarrow> Cell list" where
  "initRow (pc # pcs) (c # cs) = initCell pc # initRow pcs cs"
| "initRow pcs cs = cs"

fun initRows :: "ScreenCell list list \<Rightarrow> Cell grid \<Rightarrow> Cell grid" where
  "initRows (p # ps) (l # ls) = initRow p l # initRows ps ls"
| "initRows ps ls = ls"

definition initScreenFromCells :: "ScreenCell list list \<Rightarrow> Screen \<Rightarrow> Screen" where
  "initScreenFromCells cells s = s\<lparr>Buffer := initRows cells (Buffer s)\<rparr>"

text \<open>Without cells the lines are drawn, each on a row of its own.\<close>

definition drawLines :: "textlib \<Rightarrow> string list \<Rightarrow> HistoryScreen \<Rightarrow> HistoryScreen option" where
  "drawLines E ls h =
    for_each (\<lambda>(i, line) h. do {
       h \<leftarrow> (if i > 0 then do { h \<leftarrow> history_motion E EvLineFeed h; history_motion E EvCarriageReturn h } else Some h);
       history_edit E (EvDraw line) h }) (zip [0..len ls - 1] ls) h"

section \<open>Snapshots\<close>

definition keptHistory :: "int \<Rightarrow> HistoryScreen option \<Rightarrow> Cell list list \<times> 64 word \<times> 64 word" where
  "keptHistory serverScrollback screen =
    (case screen of
       None \<Rightarrow> ([], 0, 0)
     | Some h \<Rightarrow>
         let its = items (HTop (history h)) in
         (if serverScrollback > 0 \<and> len its > serverScrollback then take (nat serverScrollback) its else its,
          TotalAdded (history h), FirstSeq (history h)))"

definition adoptHistory ::
  "Cell list list \<Rightarrow> 64 word \<Rightarrow> 64 word \<Rightarrow> Cell list list \<Rightarrow> 64 word \<Rightarrow> bool \<Rightarrow> HistoryScreen \<Rightarrow> HistoryScreen" where
  "adoptHistory prev prevTotal prevFirst delta serverTotal desync h =
    (let base = (if \<not> desync \<and> serverTotal > prevTotal \<and> of_int (len delta) = serverTotal - prevTotal
                 then serverTotal else prevTotal);
         h = SetTotalAdded base h; combined = prev @ delta
     in if combined = [] then h
        else (let h = PrependHistory combined h in if prev \<noteq> [] then SetFirstSeq prevFirst h else h))"

definition handleScreenUpdate :: "textlib \<Rightarrow> ScreenUpdate \<Rightarrow> TerminalLayer \<Rightarrow> (TerminalLayer \<times> layerCmd list) option" where
  "handleScreenUpdate E u t0 =
    (let snap = suSnapshot u;
         t = (if suScrollbackDesync u then t0\<lparr>scrollbackRequested := False\<rparr> else t0);
         height = (if termHeight t \<le> 0 then 23 else contentHeight t);
         width = (if termWidth t \<le> 0 then 80 else termWidth t);
         t = t\<lparr>tlLines := shLines snap, tlCursorRow := uint (shCursorRow snap), tlCursorCol := uint (shCursorCol snap)\<rparr>;
         delta = map protocolCellsToTe (suScrollbackDelta u)
     in case keptHistory (shScrollbackLen snap) (tlScreen t) of (prev, prevTotal, prevFirst) \<Rightarrow> do {
       h \<leftarrow> NewHistoryScreen width height 10000;
       let h = adoptHistory prev prevTotal prevFirst delta (shScrollbackTotal snap) (suScrollbackDesync u) h;
       h \<leftarrow> (if shCells snap \<noteq> [] then Some (h\<lparr>hscr := initScreenFromCells (shCells snap) (hscr h)\<rparr>)
             else drawLines E (shLines snap) h);
       h \<leftarrow> history_motion E (EvCursorPosition [uint (shCursorRow snap) + 1, uint (shCursorCol snap) + 1]) h;
       let h = h\<lparr>hscr := (hscr h)\<lparr>Title := shTitle snap, IconName := shIconName snap,
                                   Mode := {k. shModes snap k = Some True}\<rparr>\<rparr>;
       Some (t\<lparr>tlScreen := Some h, pendingClear := False\<rparr>, if pendingClear t then [ClearScreen] else []) })"

section \<open>Events\<close>

definition handleTerminalEvents ::
  "textlib \<Rightarrow> TerminalEvent list \<Rightarrow> TerminalLayer \<Rightarrow> (TerminalLayer \<times> layerCmd list) option" where
  "handleTerminalEvents E events t =
    (case tlScreen t of
       None \<Rightarrow> Some (t, [])
     | Some h \<Rightarrow> do {
         (h, clear) \<leftarrow> replayEvents (history_handle E) (filter (\<lambda>ev. evOp ev \<noteq> ''sync'') events) h;
         Some (t\<lparr>tlScreen := Some h, tlCursorRow := row (hscr h), tlCursorCol := col (hscr h)\<rparr>,
               (if clear then [ClearScreen] else []) @
               map (SyncMsg \<circ> evData) (filter (\<lambda>ev. evOp ev = ''sync'') events)) })"

definition windowSize :: "int \<Rightarrow> int \<Rightarrow> TerminalLayer \<Rightarrow> (TerminalLayer \<times> layerCmd list) option" where
  "windowSize width height t0 =
    (let t = t0\<lparr>termWidth := width, termHeight := height\<rparr> in do {
       screen \<leftarrow> (case tlScreen t of None \<Rightarrow> Some None | Some h \<Rightarrow> map_option Some (historyResize (contentHeight t) width h));
       Some (t\<lparr>tlScreen := screen\<rparr>, [sendResize t]) })"

fun receives :: "textlib \<Rightarrow> message \<Rightarrow> TerminalLayer \<Rightarrow> (TerminalLayer \<times> layerCmd list) option" where
  "receives E (ScreenUpdateMsg u) t = handleScreenUpdate E u t"
| "receives E (TerminalEventsMsg evs) t = handleTerminalEvents E evs t"

section \<open>The delta of the server\<close>

lemma scrollbackSince_tracks:
  assumes "tracks L (history (hscreen a))" "n \<le> length L" "length L - n \<le> length (items (HTop (history (hscreen a))))"
    and "length L < 2 ^ 63"
  shows "scrollbackSince (word_of_nat n) (currentSeq a) a = map (map cellToProtocol) (drop n L)"
proof -
  let ?H = "history (hscreen a)"
  obtain k where k: "k \<le> length L" "items (HTop ?H) = drop k L" "FirstSeq ?H = word_of_nat k" "TotalAdded ?H = word_of_nat (length L)"
    using assms(1) by (auto simp: tracks_def)
  show ?thesis
  proof (cases "n = length L")
    case True
    then show ?thesis using k by (simp add: scrollbackSince_def currentSeq_def Let_def)
  next
    case False
    then have n: "n < length L" "k \<le> n" using assms(2,3) k by auto
    have u: "unat (word_of_nat m :: 64 word) = m" if "m \<le> length L" for m
      using that assms(4) by (simp add: unat_of_nat take_bit_nat_eq_self_iff)
    have diff: "word_of_nat m - word_of_nat k = (word_of_nat (m - k) :: 64 word)" if "k \<le> m" for m
      using that by (simp add: of_nat_diff)
    have si: "sint (word_of_nat m :: 64 word) = int m" if "m \<le> length L" for m
      using that assms(4) by (simp add: signed_of_nat signed_take_bit_int_eq_self)
    let ?N = "word_of_nat n :: 64 word" and ?T = "word_of_nat (length L) :: 64 word" and ?F = "FirstSeq ?H"
    have "unat ?N = n" "unat ?T = length L" "unat ?F = k" using n k(1) u unfolding k(3) by simp_all
    with n have less: "\<not> ?T \<le> ?N" "\<not> ?N < ?F" by (simp_all only: word_less_nat_alt word_le_nat_alt not_less not_le)
    have "?N - ?F = word_of_nat (n - k)" "?T - ?F = word_of_nat (length L - k)"
      unfolding k(3) by (rule diff, use n k(1) in simp)+
    then have offsets: "sint (?N - ?F) = int (n - k)" "sint (?T - ?F) = int (length L - k)"
      using si [of "n - k"] si [of "length L - k"] n by simp_all
    have "nat (int (length L - k) - int (n - k)) = length L - n" "nat (int n - int k) + k = n" using n by simp_all
    then show ?thesis
      unfolding scrollbackSince_def currentSeq_def k(4) Let_def
      by (simp only: less if_False order.irrefl offsets not_less not_le k(2) len_def length_drop) (use n in simp)
  qed
qed

section \<open>The scrollback of the client\<close>

lemma NewHistoryScreen_blank:
  obtains h where "NewHistoryScreen cols rows n = Some h" "wf_screen (hscr h)" "Lines (hscr h) = max 1 rows"
    "Columns (hscr h) = max 1 cols" "Mode (hscr h) = resetModes" "Margins (hscr h) = None"
    "history h = \<lparr>HTop = \<lparr>items = [], dmax = n\<rparr>, HBottom = \<lparr>items = [], dmax = n\<rparr>, Ratio = 1 / 2, HSize = n,
       Position = n, TotalAdded = 0, FirstSeq = 0\<rparr>"
proof -
  obtain s where s: "NewScreen cols rows = Some s" "wf_screen s" "Lines s = max 1 rows" "Columns s = max 1 cols"
    using NewScreen_wf [of rows cols] by (auto simp: returns_ex)
  then obtain t where "s = resetFields t"
    by (auto simp: NewScreen_def Reset_def bind_eq_Some_conv)
  with s show ?thesis using that by (simp add: NewHistoryScreen_def NewHistoryScreenWithRatio_def resetFields_fields)
qed

lemma PrependHistory_fits:
  assumes "items (HTop (history h)) = []" "C \<noteq> []" "len C \<le> dmax (HTop (history h))"
  shows "PrependHistory C h = h\<lparr>history := (history h)\<lparr>HTop := (HTop (history h))\<lparr>items := C\<rparr>,
    FirstSeq := FirstSeq (history h) - of_int (len C)\<rparr>\<rparr>"
proof -
  have "\<not> dmax (HTop (history h)) < 0" "\<not> len C > dmax (HTop (history h))" using assms(3) by (simp_all add: len_def)
  then show ?thesis using assms(1,2) by (simp add: PrependHistory_def Let_def len_def [of "[]"])
qed

text \<open>A delta that bridges the gap is appended to the rows the client has, under the server's numbers.\<close>

lemma adoptHistory_tracks:
  assumes "tracks M (history k)" "length M \<le> T" "length delta = T - length M" "T < 2 ^ 64"
    and "length (items (HTop (history k))) + length delta \<le> nat (dmax (HTop (history h)))"
    and "items (HTop (history h)) = []"
    and "h' = adoptHistory (items (HTop (history k))) (TotalAdded (history k)) (FirstSeq (history k)) delta
      (word_of_nat T) False h"
  shows "tracks (M @ delta) (history h')" "items (HTop (history h')) = items (HTop (history k)) @ delta"
    "hscr h' = hscr h" "HSize (history h') = HSize (history h)" "Position (history h') = Position (history h)"
proof -
  obtain j where j: "j \<le> length M" "items (HTop (history k)) = drop j M" "FirstSeq (history k) = word_of_nat j"
    "TotalAdded (history k) = word_of_nat (length M)"
    using assms(1) by (auto simp: tracks_def)
  let ?M = "word_of_nat (length M) :: 64 word" and ?T = "word_of_nat T :: 64 word"
  have u: "unat ?M = length M" "unat ?T = T" using assms(2,4) by (simp_all add: unat_of_nat take_bit_nat_eq_self_iff)
  have base: "(if \<not> False \<and> ?T > ?M \<and> of_int (len delta) = ?T - ?M then ?T else ?M) = ?T"
  proof (cases "T = length M")
    case False
    then have "?M < ?T" using assms(2) by (simp only: word_less_nat_alt u)
    moreover have "of_int (len delta) = ?T - ?M" using assms(2,3) by (simp add: len_def of_nat_diff)
    ultimately show ?thesis by simp
  qed simp
  have kept: "len (drop j M @ delta) \<le> dmax (HTop (history h)) \<or> drop j M @ delta = []"
    using assms(5) unfolding j(2) len_def by (cases "0 \<le> dmax (HTop (history h))") auto
  have T: "length (M @ delta) = T" using assms(2,3) by simp
  have shift: "?T - of_int (len delta) = ?M" using assms(2,3) by (simp add: len_def of_nat_diff)
  let ?first = "if drop j M = [] then ?M else word_of_nat j"
  have h': "h' = h\<lparr>history := (history h)\<lparr>TotalAdded := ?T, HTop := (HTop (history h))\<lparr>items := drop j M @ delta\<rparr>,
      FirstSeq := ?first\<rparr>\<rparr>"
  proof (cases "drop j M @ delta = []")
    case True
    then have "?T = ?M" using shift by (simp add: len_def)
    with True assms(6) show ?thesis
      unfolding assms(7) adoptHistory_def base j(2-4) Let_def by (simp add: SetTotalAdded_def Let_def)
  next
    case False
    let ?C = "drop j M @ delta" and ?h = "SetTotalAdded ?T h"
    have "?h = h\<lparr>history := (history h)\<lparr>TotalAdded := ?T, FirstSeq := ?T\<rparr>\<rparr>"
      using assms(6) by (simp add: SetTotalAdded_def Let_def)
    then have prepended: "PrependHistory ?C ?h = h\<lparr>history := (history h)\<lparr>TotalAdded := ?T,
        HTop := (HTop (history h))\<lparr>items := ?C\<rparr>, FirstSeq := ?T - of_int (len ?C)\<rparr>\<rparr>"
      using PrependHistory_fits [of ?h ?C] False kept assms(6) by fastforce
    have "?T - of_int (len ?C) = ?first" if "drop j M = []" using that shift by simp
    with False show ?thesis
      unfolding assms(7) adoptHistory_def base j(2-4) Let_def prepended by (simp only: if_False SetFirstSeq_def) simp
  qed
  show "tracks (M @ delta) (history h')"
    unfolding tracks_def T using j(1) assms(2)
    by (intro exI [of _ "if drop j M = [] then length M else j"]) (auto simp: h')
  show "items (HTop (history h')) = items (HTop (history k)) @ delta" "hscr h' = hscr h"
    "HSize (history h') = HSize (history h)" "Position (history h') = Position (history h)"
    by (simp_all add: h' j(2))
qed

section \<open>The screen of the client\<close>

lemma initRow_all: "length line = length pcs \<Longrightarrow> initRow pcs line = map initCell pcs"
  by (induction pcs line rule: initRow.induct) simp_all

lemma initRows_all: "map length g = map length ps \<Longrightarrow> initRows ps g = map (map initCell) ps"
  by (induction ps g rule: initRows.induct) (simp_all add: initRow_all)

lemma grid_ok_shape: "grid_ok L C g \<Longrightarrow> map length g = replicate (nat L) (nat C)"
  by (intro replicate_eqI) (auto simp: grid_ok_def)

lemma CursorPosition_snapshot:
  assumes "Margins s = None" "Mode s = resetModes" "0 \<le> r" "r < Lines s" "0 \<le> c" "1 \<le> Columns s"
  shows "row (CursorPosition [r + 1, c + 1] s) = r" "col (CursorPosition [r + 1, c + 1] s) = min c (Columns s - 1)"
    "Buffer (CursorPosition [r + 1, c + 1] s) = Buffer s" "Lines (CursorPosition [r + 1, c + 1] s) = Lines s"
    "Columns (CursorPosition [r + 1, c + 1] s) = Columns s"
  using assms
  by (auto simp: CursorPosition_def first_param_def second_param_def at_least_1_def ensureVB_def ensureHB_def
      isModeSet_def resetModes_def Let_def horizontalMargins_def split: prod.split)

lemma history_CursorPosition:
  assumes "Position (history h) = HSize (history h)"
  shows "history_motion E (EvCursorPosition ps) h = Some (afterEvent False (h\<lparr>hscr := CursorPosition ps (hscr h)\<rparr>))"
  using assms by (simp add: aroundEvent_def onScreen_def beforeEvent_def toLive_live)

text \<open>
  A whole update: the region's snapshot with the delta of what scrolled off since the client's last
  message.
\<close>

definition wireRows :: "Cell list list \<Rightarrow> Cell list list" where
  "wireRows = map (map wireCell)"

text \<open>
  What the client shows for a cell: the cell as the wire carries it, but a blank for an empty one, also
  for the continuation of a wide character.
\<close>

definition shownCell :: "Cell \<Rightarrow> Cell" where
  "shownCell c = (wireCell c)\<lparr>Data := if Data c = '''' \<or> Data c = [CHR 0x00] then '' '' else Data c\<rparr>"

text \<open>The attributes of all cells are ones that SGR can set.\<close>

definition rendered :: "Cell list list \<Rightarrow> bool" where
  "rendered g \<longleftrightarrow> list_all (list_all (\<lambda>c. attr_ok (CellAttr c))) g"

lemma length_wireRows [simp]: "length (wireRows xs) = length xs"
  by (simp add: wireRows_def)

lemma initCell_shown:
  assumes "attr_ok (CellAttr c)"
  shows "initCell (cellToProtocol c) = shownCell c"
proof -
  have "scChar (cellToProtocol c) = Data c" by (simp add: cellToProtocol_def Let_def)
  moreover from this have "decodedAttr (cellToProtocol c) = wireAttr (CellAttr c)"
    using decode_encode_cell [OF assms] by (cases c) (simp add: protocolCellToTe_def wireCell_def)
  ultimately show ?thesis by (cases c) (simp add: initCell_def shownCell_def wireCell_def)
qed

lemma rendered_shown: "rendered g \<Longrightarrow> map (map initCell) (map (map cellToProtocol) g) = map (map shownCell) g"
  by (simp add: rendered_def list_all_iff initCell_shown)

lemma rendered_wire: "rendered g \<Longrightarrow> map protocolCellsToTe (map (map cellToProtocol) g) = wireRows g"
  by (simp add: rendered_def list_all_iff wireRows_def protocolCellsToTe_def decode_encode_cell)

lemma rendered_drop: "rendered (drop k g) \<Longrightarrow> k \<le> n \<Longrightarrow> rendered (drop n g)"
  by (auto simp: rendered_def list_all_iff dest: set_drop_subset_set_drop [THEN subsetD])

lemma handleScreenUpdate_delta:
  assumes snap: "regionSnapshot E a = Some snap" "wf_screen (hscr (hscreen a))" "aHeight a = Lines (hscr (hscreen a))"
    and small: "Lines (hscr (hscreen a)) < 2 ^ 16" "Columns (hscr (hscreen a)) < 2 ^ 16"
    and size: "termHeight t > 0" "contentHeight t = Lines (hscr (hscreen a))" "termWidth t = Columns (hscr (hscreen a))"
    and server: "tracks L (history (hscreen a))" "length L < 2 ^ 63"
      "length L - n \<le> length (items (HTop (history (hscreen a))))"
    and cells: "rendered (Buffer (hscr (hscreen a)))" "rendered (items (HTop (history (hscreen a))))"
    and client: "tlScreen t = Some k" "tracks M (history k)" "length M = n" "n \<le> length L"
      "length (items (HTop (history k))) \<le> length (items (HTop (history (hscreen a))))"
      "length (items (HTop (history k))) + (length L - n) \<le> 10000"
  shows "\<exists>t' outs h. receives E (deltaUpdate snap (scrollbackSince (word_of_nat n) (currentSeq a) a)) t = Some (t', outs) \<and>
    tlScreen t' = Some h \<and> tracks (M @ wireRows (drop n L)) (history h) \<and>
    items (HTop (history h)) = items (HTop (history k)) @ wireRows (drop n L) \<and>
    Buffer (hscr h) = map (map shownCell) (Buffer (hscr (hscreen a))) \<and>
    Mode (hscr h) = Mode (hscr (hscreen a)) \<and> Title (hscr h) = Title (hscr (hscreen a)) \<and>
    IconName (hscr h) = IconName (hscr (hscreen a)) \<and> row (hscr h) = row (hscr (hscreen a)) \<and>
    col (hscr h) = min (col (hscr (hscreen a))) (Columns (hscr (hscreen a)) - 1)"
proof -
  let ?s = "hscr (hscreen a)" and ?d = "wireRows (drop n L)"
  note f = regionSnapshot_fields [OF snap]
  have wf: "1 \<le> Lines ?s" "1 \<le> Columns ?s" "grid_ok (Lines ?s) (Columns ?s) (Buffer ?s)" "0 \<le> row ?s" "row ?s < Lines ?s"
    "0 \<le> col ?s" "col ?s \<le> Columns ?s" using snap(2) by (auto simp: wf_screen_def)
  have pos: "uint (shCursorRow snap) = row ?s" "uint (shCursorCol snap) = col ?s"
    unfolding f(2,3) using wf small by (simp_all add: unsigned_of_int take_bit_int_eq_self)
  obtain h0 where h0: "NewHistoryScreen (Columns ?s) (Lines ?s) 10000 = Some h0" "wf_screen (hscr h0)"
    "Lines (hscr h0) = Lines ?s" "Columns (hscr h0) = Columns ?s" "Mode (hscr h0) = resetModes" "Margins (hscr h0) = None"
    "dmax (HTop (history h0)) = 10000" "items (HTop (history h0)) = []" "Position (history h0) = HSize (history h0)"
    by (rule NewHistoryScreen_blank [of "Columns ?s" "Lines ?s" 10000]) (use wf in simp)
  define h1 where "h1 = adoptHistory (items (HTop (history k))) (TotalAdded (history k)) (FirstSeq (history k)) ?d
    (word_of_nat (length L)) False h0"
  have h1: "tracks (M @ ?d) (history h1)" "items (HTop (history h1)) = items (HTop (history k)) @ ?d"
    "hscr h1 = hscr h0" "Position (history h1) = HSize (history h1)"
    using adoptHistory_tracks [OF client(2) _ _ _ _ h0(8) h1_def] client server(2) h0(7,9) by simp_all
  have total: "shScrollbackTotal snap = word_of_nat (length L)"
    unfolding f(8) currentSeq_def using server(1) by (auto simp: tracks_def)
  have kept: "keptHistory (shScrollbackLen snap) (Some k) =
      (items (HTop (history k)), TotalAdded (history k), FirstSeq (history k))"
    unfolding f(7) keptHistory_def using client(5) by (simp add: len_def Let_def)
  obtain e where e: "items (HTop (history (hscreen a))) = drop e L" "e \<le> length L"
    using server(1) by (auto simp: tracks_def)
  have "length L - n \<le> length L - e" using server(3) by (simp only: e(1) length_drop)
  then have "e \<le> n" using client(4) e(2) by linarith
  then have newer: "rendered (drop n L)" using cells(2) unfolding e(1) by (rule rendered_drop [rotated])
  have delta: "map protocolCellsToTe (scrollbackSince (word_of_nat n) (currentSeq a) a) = ?d"
    by (subst scrollbackSince_tracks [OF server(1) client(4) server(3,2)]) (rule rendered_wire [OF newer])
  define h2 where "h2 = h1\<lparr>hscr := initScreenFromCells (shCells snap) (hscr h1)\<rparr>"
  have "map length (Buffer (hscr h0)) = map length (shCells snap)"
    using grid_ok_shape [of "Lines ?s" "Columns ?s" "Buffer (hscr h0)"] grid_ok_shape [OF wf(3)] h0(2-4)
    by (simp add: wf_screen_def f(1) comp_def)
  then have h2: "Buffer (hscr h2) = map (map shownCell) (Buffer ?s)" "history h2 = history h1"
    "Margins (hscr h2) = None" "Mode (hscr h2) = resetModes" "Lines (hscr h2) = Lines ?s" "Columns (hscr h2) = Columns ?s"
    using rendered_shown [OF cells(1)] by (simp_all add: h2_def h1(3) h0 initScreenFromCells_def initRows_all f(1))
  have ne: "shCells snap \<noteq> []" using wf unfolding f(1) by (auto simp: grid_ok_def)
  define h3 where "h3 = afterEvent False (h2\<lparr>hscr := CursorPosition [row ?s + 1, col ?s + 1] (hscr h2)\<rparr>)"
  have move: "history_motion E (EvCursorPosition [row ?s + 1, col ?s + 1]) h2 = Some h3"
    unfolding h3_def by (rule history_CursorPosition) (simp add: h2(2) h1(4))
  have h3: "history h3 = history h1" "Buffer (hscr h3) = map (map shownCell) (Buffer ?s)" "row (hscr h3) = row ?s"
    "col (hscr h3) = min (col ?s) (Columns ?s - 1)"
    using CursorPosition_snapshot [OF h2(3,4), of "row ?s" "col ?s"] wf h2
    by (simp_all add: h3_def afterEvent_def Let_def)
  define h4 where "h4 = h3\<lparr>hscr := (hscr h3)\<lparr>Title := Title ?s, IconName := IconName ?s, Mode := Mode ?s\<rparr>\<rparr>"
  have "receives E (deltaUpdate snap (scrollbackSince (word_of_nat n) (currentSeq a) a)) t =
      Some (t\<lparr>tlLines := shLines snap, tlCursorRow := row ?s, tlCursorCol := col ?s, tlScreen := Some h4, pendingClear := False\<rparr>,
            if pendingClear t then [ClearScreen] else [])"
    using size wf(1,2) ne move
    by (simp add: deltaUpdate_def newScreenUpdate_def handleScreenUpdate_def client(1) kept delta total pos Let_def h0(1)
        h1_def [symmetric] h2_def [symmetric] h4_def f(4-6))
  then show ?thesis using h1(1,2) h3 by (simp add: h4_def)
qed

end
