(* ===== verification/NxFrames.thy ===== *)
theory NxFrames
  imports Prelude
begin

text \<open>
  The framings of nx2: the frames between host and broker (\<open>nx2/internal/wire/frame.go\<close>), the tab
  envelope of the shell (\<open>nx2/apps/shell/sproto/sproto.go\<close>) and the cell grid a guest hands to its
  host (\<open>nx2/internal/cellgrid/frame.go\<close>). Bytes are 8-bit words, strings are their bytes.
\<close>

type_synonym octets = "8 word list"

section \<open>Little-endian numbers\<close>

unbundle bit_operations_syntax

definition putU16 :: "16 word \<Rightarrow> octets" where
  "putU16 v = [ucast v, ucast (drop_bit 8 v)]"

definition putU32 :: "32 word \<Rightarrow> octets" where
  "putU32 v = [ucast v, ucast (drop_bit 8 v), ucast (drop_bit 16 v), ucast (drop_bit 24 v)]"

definition getU16 :: "octets \<Rightarrow> 16 word" where
  "getU16 s = ucast (s ! 0) OR push_bit 8 (ucast (s ! 1))"

definition getU32 :: "octets \<Rightarrow> 32 word" where
  "getU32 s = ucast (s ! 0) OR push_bit 8 (ucast (s ! 1)) OR push_bit 16 (ucast (s ! 2)) OR push_bit 24 (ucast (s ! 3))"

lemma length_put [simp]: "length (putU16 v) = 2" "length (putU32 w) = 4"
  by (simp_all add: putU16_def putU32_def)

lemma get_putU16 [simp]: "getU16 (putU16 v @ rest) = v"
proof (rule bit_word_eqI)
  fix n
  assume "n < LENGTH(16)"
  then show "bit (getU16 (putU16 v @ rest)) n = bit v n"
    by (cases "n < 8") (auto simp: getU16_def putU16_def bit_simps)
qed

lemma get_putU32 [simp]: "getU32 (putU32 v @ rest) = v"
proof (rule bit_word_eqI)
  fix n
  assume "n < LENGTH(32)"
  then consider "n < 8" | "8 \<le> n" "n < 16" | "16 \<le> n" "n < 24" | "24 \<le> n" "n < 32" by force
  then show "bit (getU32 (putU32 v @ rest)) n = bit v n"
    by cases (auto simp: getU32_def putU32_def bit_simps)
qed

lemma get_put_all [simp]: "getU16 (putU16 v) = v" "getU32 (putU32 w) = w"
  using get_putU16 [of v "[]"] get_putU32 [of w "[]"] by simp_all

section \<open>Frames of the wire\<close>

definition MaxFrameLen :: nat where
  "MaxFrameLen = 16 * 2 ^ 20"

datatype frameError = ErrFrameTooLarge | ErrEOF | ErrUnexpectedEOF

text \<open>\<open>WriteFrame\<close> onto a writer that takes everything: the bytes written.\<close>

definition WriteFrame :: "8 word \<Rightarrow> octets \<Rightarrow> frameError + octets" where
  "WriteFrame t payload =
    (if length payload > MaxFrameLen then Inl ErrFrameTooLarge
     else Inr (t # putU32 (word_of_nat (length payload)) @ payload))"

text \<open>\<open>io.ReadFull\<close> of \<open>n\<close> bytes from a reader that ends after the bytes given.\<close>

definition ReadFull :: "nat \<Rightarrow> octets \<Rightarrow> frameError + octets \<times> octets" where
  "ReadFull n src =
    (if n \<le> length src then Inr (take n src, drop n src)
     else Inl (if src = [] then ErrEOF else ErrUnexpectedEOF))"

definition ReadFrame :: "octets \<Rightarrow> frameError + (8 word \<times> octets) \<times> octets" where
  "ReadFrame src =
    (case ReadFull 5 src of
       Inl e \<Rightarrow> Inl e
     | Inr (hdr, src) \<Rightarrow>
         let n = unat (getU32 (drop 1 hdr)) in
         if n > MaxFrameLen then Inl ErrFrameTooLarge
         else if n = 0 then Inr ((hdr ! 0, []), src)
         else case ReadFull n src of
           Inl e \<Rightarrow> Inl e
         | Inr (buf, src) \<Rightarrow> Inr ((hdr ! 0, buf), src))"

lemma unat_small: "n \<le> MaxFrameLen \<Longrightarrow> unat (word_of_nat n :: 32 word) = n"
  by (simp add: MaxFrameLen_def unat_of_nat take_bit_nat_eq_self_iff)

lemma Read_WriteFrame:
  assumes "WriteFrame t payload = Inr b"
  shows "ReadFrame (b @ rest) = Inr ((t, payload), rest)"
proof -
  let ?n = "word_of_nat (length payload) :: 32 word"
  have b: "length payload \<le> MaxFrameLen" "b = t # putU32 ?n @ payload"
    using assms by (simp_all add: WriteFrame_def split: if_splits)
  have "take 5 (b @ rest) = t # putU32 ?n" "drop 5 (b @ rest) = payload @ rest" "5 \<le> length (b @ rest)"
    by (simp_all add: b(2) putU32_def)
  then have "ReadFull 5 (b @ rest) = Inr (t # putU32 ?n, payload @ rest)" by (simp add: ReadFull_def)
  then show ?thesis
    using b(1) by (simp add: ReadFrame_def unat_small Let_def ReadFull_def)
qed

section \<open>Framings\<close>

text \<open>
  What a reader of frames relies on: a whole frame is read back and the rest is left, and a frame cut
  short is not read. The stream then splits into the frames that have arrived and a rest that waits.
\<close>

locale framing =
  fixes encode :: "'f \<Rightarrow> octets" and decode :: "octets \<Rightarrow> ('f \<times> octets) option" and ok :: "'f \<Rightarrow> bool"
  assumes whole: "ok f \<Longrightarrow> decode (encode f @ rest) = Some (f, rest)"
    and cut: "ok f \<Longrightarrow> encode f = b @ missing \<Longrightarrow> missing \<noteq> [] \<Longrightarrow> decode b = None"
    and at_end: "decode [] = None"
begin

abbreviation stream :: "'f list \<Rightarrow> octets" where
  "stream fs \<equiv> concat (map encode fs)"

lemma split_stream:
  "list_all ok fs \<Longrightarrow> stream fs = b @ missing \<Longrightarrow>
   \<exists>now later d. fs = now @ later \<and> b = stream now @ d \<and> stream later = d @ missing \<and> decode d = None \<and>
     (missing = [] \<longrightarrow> later = [])"
proof (induction fs arbitrary: b)
  case Nil
  then have "b = []" "missing = []" by simp_all
  then show ?case by (intro exI [of _ "[]"]) (simp add: at_end)
next
  case (Cons f fs)
  show ?case
  proof (cases "length (encode f) \<le> length b")
    case True
    then obtain b' where b: "b = encode f @ b'" "stream fs = b' @ missing"
      using Cons.prems(2) by (auto simp: append_eq_append_conv2)
    obtain now later d where "fs = now @ later" "b' = stream now @ d" "stream later = d @ missing" "decode d = None"
      "missing = [] \<longrightarrow> later = []"
      using Cons.IH [of b'] Cons.prems(1) b(2) by auto
    then show ?thesis
      using b(1) by (intro exI [of _ "f # now"] exI [of _ later] exI [of _ d]) simp
  next
    case False
    then obtain m where m: "encode f = b @ m" "m \<noteq> []" "missing = m @ stream fs"
      using Cons.prems(2) by (auto simp: append_eq_append_conv2)
    then have "decode b = None" using cut [of f b m] Cons.prems(1) by simp
    then show ?thesis
      using Cons.prems(2) m(2,3) by (intro exI [of _ "[]"] exI [of _ "f # fs"] exI [of _ b]) simp
  qed
qed

end

definition wireEncode :: "8 word \<times> octets \<Rightarrow> octets" where
  "wireEncode f = (case WriteFrame (fst f) (snd f) of Inl e \<Rightarrow> [] | Inr b \<Rightarrow> b)"

definition wireDecode :: "octets \<Rightarrow> ((8 word \<times> octets) \<times> octets) option" where
  "wireDecode b = (case ReadFrame b of Inl e \<Rightarrow> None | Inr x \<Rightarrow> Some x)"

lemma ReadFrame_cut:
  assumes "WriteFrame t payload = Inr (b @ missing)" "missing \<noteq> []"
  shows "ReadFrame b = Inl (if b = [] then ErrEOF else if length b < 5 then ErrUnexpectedEOF
    else if length b = 5 then ErrEOF else ErrUnexpectedEOF)"
proof -
  let ?n = "word_of_nat (length payload) :: 32 word"
  have w: "length payload \<le> MaxFrameLen" "b @ missing = t # putU32 ?n @ payload"
    using assms(1) by (simp_all add: WriteFrame_def split: if_splits)
  show ?thesis
  proof (cases "5 \<le> length b")
    case True
    have "take 5 b = take 5 (b @ missing)" using True by simp
    then have hdr: "take 5 b = t # putU32 ?n" unfolding w(2) by (simp add: putU32_def)
    have "length b < 5 + length payload"
      using arg_cong [OF w(2), of length] assms(2) by (cases missing) simp_all
    then show ?thesis
      using True w(1) by (auto simp: ReadFrame_def ReadFull_def hdr unat_small Let_def)
  qed (auto simp: ReadFrame_def ReadFull_def)
qed

interpretation wire: framing wireEncode wireDecode "\<lambda>f. length (snd f) \<le> MaxFrameLen"
proof
  fix f :: "8 word \<times> octets" and rest b missing :: octets
  assume f: "length (snd f) \<le> MaxFrameLen"
  then obtain w where w: "WriteFrame (fst f) (snd f) = Inr w" "wireEncode f = w" by (simp add: WriteFrame_def wireEncode_def)
  show "wireDecode (wireEncode f @ rest) = Some (f, rest)"
    using Read_WriteFrame [OF w(1), of rest] by (simp add: w(2) wireDecode_def)
  assume "wireEncode f = b @ missing" "missing \<noteq> []"
  then show "wireDecode b = None" using ReadFrame_cut [of "fst f" "snd f" b missing] w by (simp add: wireDecode_def)
next
  show "wireDecode [] = None" by (simp add: wireDecode_def ReadFrame_def ReadFull_def)
qed

section \<open>The tab envelope\<close>

definition MaxMsgLen :: nat where
  "MaxMsgLen = 16 * 2 ^ 20"

definition headerLen :: nat where
  "headerLen = 1 + 4 + 4"

definition sprotoEncode :: "8 word \<Rightarrow> 32 word \<Rightarrow> octets \<Rightarrow> octets \<Rightarrow> octets" where
  "sprotoEncode ctrl tabID inner dst = dst @ ctrl # putU32 tabID @ putU32 (word_of_nat (length inner)) @ inner"

text \<open>\<open>Next\<close> of the decoder, on its buffer.\<close>

datatype decoded = NeedMore | TooLarge | Decoded "8 word" "32 word" octets

definition sprotoNext :: "octets \<Rightarrow> decoded \<times> octets" where
  "sprotoNext buf =
    (if length buf < headerLen then (NeedMore, buf)
     else (let tabID = getU32 (take 4 (drop 1 buf)); n = unat (getU32 (take 4 (drop 5 buf))) in
       if n > MaxMsgLen then (TooLarge, buf)
       else (let total = headerLen + n in
         if length buf < total then (NeedMore, buf)
         else (Decoded (buf ! 0) tabID (take n (drop headerLen buf)), drop total buf))))"

lemma sprotoNext_shorter: "sprotoNext buf = (Decoded c i p, rest) \<Longrightarrow> length rest < length buf"
  by (auto simp: sprotoNext_def headerLen_def Let_def split: if_splits)

lemma envelope_parts:
  fixes c :: "8 word"
  shows "take 4 (drop 1 (c # putU32 i @ putU32 n @ rest)) = putU32 i"
    "take 4 (drop 5 (c # putU32 i @ putU32 n @ rest)) = putU32 n"
    "drop 9 (c # putU32 i @ putU32 n @ rest) = rest"
  by (simp_all add: putU32_def)

lemma sprotoNext_encode:
  assumes "length inner \<le> MaxMsgLen"
  shows "sprotoNext (sprotoEncode ctrl tabID inner [] @ rest) = (Decoded ctrl tabID inner, rest)"
proof -
  let ?buf = "ctrl # putU32 tabID @ putU32 (word_of_nat (length inner)) @ inner @ rest"
  have n: "unat (word_of_nat (length inner) :: 32 word) = length inner"
    using assms unat_small [of "length inner"] by (simp add: MaxMsgLen_def MaxFrameLen_def)
  have "drop (9 + length inner) ?buf = drop (length inner) (drop 9 ?buf)" by (simp only: drop_drop add.commute)
  also have "\<dots> = rest" by (simp only: envelope_parts) simp
  finally have rest: "drop (9 + length inner) ?buf = rest" .
  then have "sprotoNext ?buf = (Decoded ctrl tabID inner, rest)"
    using assms unfolding sprotoNext_def Let_def headerLen_def by (simp only: envelope_parts get_put_all n) (simp add: rest)
  then show ?thesis by (simp add: sprotoEncode_def)
qed

text \<open>A frame that has not arrived completely is waited for.\<close>

lemma sprotoNext_partial:
  assumes "length inner \<le> MaxMsgLen" "sprotoEncode ctrl tabID inner [] = buf @ missing" "missing \<noteq> []"
  shows "sprotoNext buf = (NeedMore, buf)"
proof (cases "length buf < headerLen")
  case False
  have n: "unat (word_of_nat (length inner) :: 32 word) = length inner"
    using assms(1) unat_small [of "length inner"] by (simp add: MaxMsgLen_def MaxFrameLen_def)
  have "take 4 (drop 5 buf) = take 4 (drop 5 (sprotoEncode ctrl tabID inner []))"
    using False unfolding assms(2) by (simp add: headerLen_def)
  also have "\<dots> = putU32 (word_of_nat (length inner))"
    using envelope_parts(2) [of ctrl tabID "word_of_nat (length inner)" inner] by (simp add: sprotoEncode_def)
  finally have "getU32 (take 4 (drop 5 buf)) = word_of_nat (length inner)" by simp
  moreover have "length buf < headerLen + length inner"
    using arg_cong [OF assms(2), of length] assms(3) by (cases missing) (simp_all add: sprotoEncode_def headerLen_def)
  ultimately show ?thesis using False assms(1) n by (simp add: sprotoNext_def Let_def)
qed (simp add: sprotoNext_def)

definition envelopeEncode :: "8 word \<times> 32 word \<times> octets \<Rightarrow> octets" where
  "envelopeEncode f = (case f of (ctrl, i, payload) \<Rightarrow> sprotoEncode ctrl i payload [])"

definition envelopeDecode :: "octets \<Rightarrow> ((8 word \<times> 32 word \<times> octets) \<times> octets) option" where
  "envelopeDecode b = (case sprotoNext b of (Decoded ctrl i payload, rest) \<Rightarrow> Some ((ctrl, i, payload), rest) | _ \<Rightarrow> None)"

interpretation envelope: framing envelopeEncode envelopeDecode "\<lambda>(ctrl, i, payload). length payload \<le> MaxMsgLen"
proof
  fix f :: "8 word \<times> 32 word \<times> octets" and rest b missing :: octets
  assume f: "case f of (ctrl, i, payload) \<Rightarrow> length payload \<le> MaxMsgLen"
  then show "envelopeDecode (envelopeEncode f @ rest) = Some (f, rest)"
    by (auto simp: envelopeDecode_def envelopeEncode_def sprotoNext_encode split: prod.splits)
  assume "envelopeEncode f = b @ missing" "missing \<noteq> []"
  with f show "envelopeDecode b = None"
    by (cases f) (simp add: envelopeEncode_def envelopeDecode_def sprotoNext_partial)
next
  show "envelopeDecode [] = None" by (simp add: envelopeDecode_def sprotoNext_def headerLen_def)
qed

end
