(* ===== verification/NxCells.thy ===== *)
theory NxCells
  imports NxFrames "HOL-Library.State_Monad"
begin

text \<open>
  The cell grid a guest of nx2 hands to its host, \<open>nx2/internal/cellgrid/frame.go\<close>: the encoder, and
  the decoder as a state monad over its \<open>reader\<close>, whose error flag sticks.
\<close>

section \<open>Frames\<close>

record GridColor =
  gcMode :: "8 word"
  gcIndex :: "8 word"
  gcR :: "8 word"
  gcG :: "8 word"
  gcB :: "8 word"

record GridCell =
  gdData :: octets
  gdFg :: GridColor
  gdBg :: GridColor
  gdAttrs :: "16 word"

record GridFrame =
  gfCols :: int
  gfRows :: int
  gfCursorRow :: int
  gfCursorCol :: int
  gfCursorHidden :: bool
  gfCells :: "GridCell list"

definition gridMagic :: "32 word" where
  "gridMagic = 0x4E583246"

definition gridVersion :: "16 word" where
  "gridVersion = 0"

definition flagCursorHidden :: "16 word" where
  "flagCursorHidden = 1"

definition gridTrueColor :: "8 word" where
  "gridTrueColor = 3"

definition zeroColor :: GridColor where
  "zeroColor = \<lparr>gcMode = 0, gcIndex = 0, gcR = 0, gcG = 0, gcB = 0\<rparr>"

definition appendColor :: "octets \<Rightarrow> GridColor \<Rightarrow> octets" where
  "appendColor b c =
    (if gcMode c = gridTrueColor then b @ [gcMode c, gcR c, gcG c, gcB c] else b @ [gcMode c, gcIndex c, 0, 0])"

definition encodeGridCell :: "octets \<Rightarrow> GridCell \<Rightarrow> octets" where
  "encodeGridCell dst c =
    appendColor (appendColor (dst @ putU16 (word_of_nat (length (gdData c))) @ gdData c) (gdFg c)) (gdBg c) @
    putU16 (gdAttrs c)"

definition encodeGrid :: "GridFrame \<Rightarrow> octets \<Rightarrow> octets" where
  "encodeGrid f dst =
    foldl encodeGridCell
      (dst @ putU32 gridMagic @ putU16 gridVersion @ putU16 (of_int (gfCols f)) @ putU16 (of_int (gfRows f)) @
       putU16 (of_int (gfCursorRow f)) @ putU16 (of_int (gfCursorCol f)) @
       putU16 (if gfCursorHidden f then flagCursorHidden else 0))
      (gfCells f)"

section \<open>The decoder\<close>

record reader =
  rdB :: octets
  rdOff :: nat
  rdErr :: bool

type_synonym 'a reads = "(reader, 'a) state"

text \<open>\<open>take\<close>, whose nil slice is \<open>None\<close>.\<close>

definition takeBytes :: "nat \<Rightarrow> octets option reads" where
  "takeBytes n = State (\<lambda>r.
     if rdErr r \<or> rdOff r + n > length (rdB r) then (None, r\<lparr>rdErr := True\<rparr>)
     else (Some (take n (drop (rdOff r) (rdB r))), r\<lparr>rdOff := rdOff r + n\<rparr>))"

definition readU16 :: "16 word reads" where
  "readU16 = do { s \<leftarrow> takeBytes 2; State_Monad.return (case s of None \<Rightarrow> 0 | Some s \<Rightarrow> getU16 s) }"

definition readU32 :: "32 word reads" where
  "readU32 = do { s \<leftarrow> takeBytes 4; State_Monad.return (case s of None \<Rightarrow> 0 | Some s \<Rightarrow> getU32 s) }"

definition colorOf :: "octets \<Rightarrow> GridColor" where
  "colorOf s =
    (if s ! 0 = gridTrueColor then \<lparr>gcMode = s ! 0, gcIndex = 0, gcR = s ! 1, gcG = s ! 2, gcB = s ! 3\<rparr>
     else \<lparr>gcMode = s ! 0, gcIndex = s ! 1, gcR = 0, gcG = 0, gcB = 0\<rparr>)"

definition readColor :: "GridColor reads" where
  "readColor = do { s \<leftarrow> takeBytes 4; State_Monad.return (case s of None \<Rightarrow> zeroColor | Some s \<Rightarrow> colorOf s) }"

definition readGridCell :: "GridCell reads" where
  "readGridCell = do {
     dl \<leftarrow> readU16;
     dat \<leftarrow> takeBytes (unat dl);
     fg \<leftarrow> readColor;
     bg \<leftarrow> readColor;
     attrs \<leftarrow> readU16;
     State_Monad.return \<lparr>gdData = (case dat of None \<Rightarrow> [] | Some s \<Rightarrow> s), gdFg = fg, gdBg = bg, gdAttrs = attrs\<rparr> }"

fun readGridCells :: "nat \<Rightarrow> GridCell list reads" where
  "readGridCells 0 = State_Monad.return []"
| "readGridCells (Suc n) = do { c \<leftarrow> readGridCell; cs \<leftarrow> readGridCells n; State_Monad.return (c # cs) }"

datatype gridError = BadMagic | BadVersion | Truncated

text \<open>
  The number of cells is a product of two 16-bit numbers, so the check for a negative one never
  fires. The error flag is read at the end.
\<close>

definition readGrid :: "(gridError + GridFrame) reads" where
  "readGrid = do {
     m \<leftarrow> readU32;
     if m \<noteq> gridMagic then State_Monad.return (Inl BadMagic)
     else do {
       v \<leftarrow> readU16;
       if v \<noteq> gridVersion then State_Monad.return (Inl BadVersion)
       else do {
         cols \<leftarrow> readU16;
         rows \<leftarrow> readU16;
         r \<leftarrow> readU16;
         c \<leftarrow> readU16;
         flags \<leftarrow> readU16;
         cells \<leftarrow> readGridCells (unat cols * unat rows);
         State_Monad.return (Inr \<lparr>gfCols = uint cols, gfRows = uint rows, gfCursorRow = uint r, gfCursorCol = uint c,
           gfCursorHidden = (flags AND flagCursorHidden \<noteq> 0), gfCells = cells\<rparr>) } } }"

definition decodeGrid :: "octets \<Rightarrow> gridError + GridFrame" where
  "decodeGrid b =
    (case run_state readGrid \<lparr>rdB = b, rdOff = 0, rdErr = False\<rparr> of
       (Inl e, _) \<Rightarrow> Inl e
     | (Inr f, r) \<Rightarrow> if rdErr r then Inl Truncated else Inr f)"

section \<open>Reads never look past their error flag\<close>

text \<open>
  A read that leaves the flag clear has read nothing beyond the buffer, so it reads the same from any
  longer buffer; the flag sticks.
\<close>

definition steady :: "'a reads \<Rightarrow> bool" where
  "steady m \<longleftrightarrow> (\<forall>r v q. run_state m r = (v, q) \<longrightarrow>
     rdB q = rdB r \<and> (rdErr r \<longrightarrow> rdErr q) \<and> (rdOff r \<le> length (rdB r) \<longrightarrow> rdOff q \<le> length (rdB r)) \<and>
     (\<not> rdErr q \<longrightarrow> (\<forall>x. run_state m (r\<lparr>rdB := rdB r @ x\<rparr>) = (v, q\<lparr>rdB := rdB q @ x\<rparr>))))"

named_theorems steady_intro \<open>reads that are steady\<close>

lemma steady_return [steady_intro]: "steady (State_Monad.return v)"
  by (simp add: steady_def)

lemma steady_bind [steady_intro]:
  assumes "steady m" "\<And>v. steady (f v)"
  shows "steady (m \<bind> f)"
  unfolding steady_def
proof (intro allI impI)
  fix r w q
  assume run: "run_state (m \<bind> f) r = (w, q)"
  obtain v p where m: "run_state m r = (v, p)" by fastforce
  with run have f: "run_state (f v) p = (w, q)" by simp
  have M: "rdB p = rdB r" "rdErr r \<longrightarrow> rdErr p" "rdOff r \<le> length (rdB r) \<longrightarrow> rdOff p \<le> length (rdB r)"
    "\<And>x. \<not> rdErr p \<Longrightarrow> run_state m (r\<lparr>rdB := rdB r @ x\<rparr>) = (v, p\<lparr>rdB := rdB p @ x\<rparr>)"
    using assms(1) m unfolding steady_def by blast+
  have F: "rdB q = rdB p" "rdErr p \<longrightarrow> rdErr q" "rdOff p \<le> length (rdB p) \<longrightarrow> rdOff q \<le> length (rdB p)"
    "\<And>x. \<not> rdErr q \<Longrightarrow> run_state (f v) (p\<lparr>rdB := rdB p @ x\<rparr>) = (w, q\<lparr>rdB := rdB q @ x\<rparr>)"
    using assms(2) [of v] f unfolding steady_def by blast+
  show "rdB q = rdB r \<and> (rdErr r \<longrightarrow> rdErr q) \<and> (rdOff r \<le> length (rdB r) \<longrightarrow> rdOff q \<le> length (rdB r)) \<and>
     (\<not> rdErr q \<longrightarrow> (\<forall>x. run_state (m \<bind> f) (r\<lparr>rdB := rdB r @ x\<rparr>) = (w, q\<lparr>rdB := rdB q @ x\<rparr>)))"
    using M F by auto
qed

lemma steady_if [steady_intro]: "steady a \<Longrightarrow> steady b \<Longrightarrow> steady (if c then a else b)"
  by simp

lemma steady_take [steady_intro]: "steady (takeBytes n)"
  by (auto simp: steady_def takeBytes_def split: if_splits)

lemma steady_reads [steady_intro]: "steady readU16" "steady readU32" "steady readColor"
  unfolding readU16_def readU32_def readColor_def by (intro steady_intro)+

lemma steady_cell [steady_intro]: "steady readGridCell"
  unfolding readGridCell_def by (intro steady_intro)

lemma steady_cells [steady_intro]: "steady (readGridCells n)"
  by (induction n) (auto intro: steady_intro)

lemma steady_grid: "steady readGrid"
  unfolding readGrid_def by (intro steady_intro)

section \<open>Reading what was encoded\<close>

definition reading :: "octets \<Rightarrow> octets \<Rightarrow> reader" where
  "reading pre rest = \<lparr>rdB = pre @ rest, rdOff = length pre, rdErr = False\<rparr>"

lemma take_reading: "length s = n \<Longrightarrow> run_state (takeBytes n) (reading pre (s @ rest)) = (Some s, reading (pre @ s) rest)"
  by (simp add: takeBytes_def reading_def)

lemma read_numbers:
  "run_state readU16 (reading pre (putU16 v @ rest)) = (v, reading (pre @ putU16 v) rest)"
  "run_state readU32 (reading pre (putU32 w @ rest)) = (w, reading (pre @ putU32 w) rest)"
  by (simp_all add: readU16_def readU32_def take_reading)

text \<open>What a colour keeps on the wire: a true colour its channels, any other its index.\<close>

definition wireGridColor :: "GridColor \<Rightarrow> GridColor" where
  "wireGridColor c =
    (if gcMode c = gridTrueColor then c\<lparr>gcIndex := 0\<rparr> else c\<lparr>gcR := 0, gcG := 0, gcB := 0\<rparr>)"

definition wireGridCell :: "GridCell \<Rightarrow> GridCell" where
  "wireGridCell c = c\<lparr>gdFg := wireGridColor (gdFg c), gdBg := wireGridColor (gdBg c)\<rparr>"

lemma appendColor_length [simp]: "length (appendColor [] c) = 4"
  by (simp add: appendColor_def)

lemma appendColor_append: "appendColor b c = b @ appendColor [] c"
  by (simp add: appendColor_def)

lemma read_color:
  "run_state readColor (reading pre (appendColor [] c @ rest)) = (wireGridColor c, reading (pre @ appendColor [] c) rest)"
proof -
  have "colorOf (appendColor [] c) = wireGridColor c"
    by (cases c) (simp add: colorOf_def appendColor_def wireGridColor_def)
  then show ?thesis by (simp add: readColor_def take_reading)
qed

lemma encodeGridCell_append: "encodeGridCell dst c = dst @ encodeGridCell [] c"
  by (simp add: encodeGridCell_def appendColor_append [of "_ @ _"] appendColor_append [of "_ # _"] appendColor_def)

lemma encodeGridCell_parts:
  "encodeGridCell [] c = putU16 (word_of_nat (length (gdData c))) @ gdData c @ appendColor [] (gdFg c) @
     appendColor [] (gdBg c) @ putU16 (gdAttrs c)"
  by (simp add: encodeGridCell_def appendColor_def)

lemma read_cell:
  assumes "length (gdData c) < 2 ^ 16"
  shows "run_state readGridCell (reading pre (encodeGridCell [] c @ rest)) =
    (wireGridCell c, reading (pre @ encodeGridCell [] c) rest)"
proof -
  have n: "unat (word_of_nat (length (gdData c)) :: 16 word) = length (gdData c)"
    using assms by (simp add: unat_of_nat take_bit_nat_eq_self_iff)
  show ?thesis
    unfolding readGridCell_def encodeGridCell_parts
    by (simp add: read_numbers take_reading read_color n) (simp add: wireGridCell_def)
qed

definition encodedCells :: "GridCell list \<Rightarrow> octets" where
  "encodedCells cs = concat (map (encodeGridCell []) cs)"

lemma read_cells:
  "list_all (\<lambda>c. length (gdData c) < 2 ^ 16) cs \<Longrightarrow>
   run_state (readGridCells (length cs)) (reading pre (encodedCells cs @ rest)) =
   (map wireGridCell cs, reading (pre @ encodedCells cs) rest)"
proof (induction cs arbitrary: pre)
  case (Cons c cs)
  then show ?case by (simp add: encodedCells_def read_cell)
qed (simp add: encodedCells_def)

lemma foldl_encode: "foldl encodeGridCell dst cs = dst @ encodedCells cs"
proof (induction cs arbitrary: dst)
  case (Cons c cs)
  show ?case using Cons [of "encodeGridCell dst c"] by (simp add: encodedCells_def encodeGridCell_append [of dst])
qed (simp add: encodedCells_def)

text \<open>The frames a guest builds: a full grid of bounded size.\<close>

definition grid_frame_ok :: "GridFrame \<Rightarrow> bool" where
  "grid_frame_ok f \<longleftrightarrow>
     0 \<le> gfCols f \<and> gfCols f < 2 ^ 16 \<and> 0 \<le> gfRows f \<and> gfRows f < 2 ^ 16 \<and>
     0 \<le> gfCursorRow f \<and> gfCursorRow f < 2 ^ 16 \<and> 0 \<le> gfCursorCol f \<and> gfCursorCol f < 2 ^ 16 \<and>
     int (length (gfCells f)) = gfCols f * gfRows f \<and> list_all (\<lambda>c. length (gdData c) < 2 ^ 16) (gfCells f)"

lemma uint_u16: "0 \<le> i \<Longrightarrow> i < 2 ^ 16 \<Longrightarrow> uint (word_of_int i :: 16 word) = i"
  by (simp add: unsigned_of_int take_bit_int_eq_self)

lemma read_grid:
  assumes "grid_frame_ok f"
  shows "run_state readGrid (reading [] (encodeGrid f [] @ rest)) =
    (Inr (f\<lparr>gfCells := map wireGridCell (gfCells f)\<rparr>), reading (encodeGrid f []) rest)"
proof -
  note ok = assms [unfolded grid_frame_ok_def]
  have u: "uint (word_of_int (gfCols f) :: 16 word) = gfCols f" "uint (word_of_int (gfRows f) :: 16 word) = gfRows f"
    "uint (word_of_int (gfCursorRow f) :: 16 word) = gfCursorRow f" "uint (word_of_int (gfCursorCol f) :: 16 word) = gfCursorCol f"
    using ok uint_u16 by blast+
  have "int (unat (word_of_int (gfCols f) :: 16 word) * unat (word_of_int (gfRows f) :: 16 word)) = int (length (gfCells f))"
    using ok u by simp
  then have n: "unat (word_of_int (gfCols f) :: 16 word) * unat (word_of_int (gfRows f) :: 16 word) = length (gfCells f)"
    by (simp only: of_nat_eq_iff)
  have h: "((if gfCursorHidden f then flagCursorHidden else 0) AND flagCursorHidden \<noteq> 0) = gfCursorHidden f"
    by (simp add: flagCursorHidden_def)
  show ?thesis
    unfolding encodeGrid_def foldl_encode readGrid_def
    using ok by (simp add: read_numbers read_cells n u h)
qed

section \<open>Decoding\<close>

lemma decode_encodeGrid:
  "grid_frame_ok f \<Longrightarrow> decodeGrid (encodeGrid f [] @ rest) = Inr (f\<lparr>gfCells := map wireGridCell (gfCells f)\<rparr>)"
  using read_grid [of f rest] by (simp add: decodeGrid_def reading_def)

text \<open>A frame cut short is refused: a successful decode would have read the missing bytes.\<close>

lemma decode_prefix:
  assumes "grid_frame_ok f" "encodeGrid f [] = b @ missing" "missing \<noteq> []"
  shows "\<exists>e. decodeGrid b = Inl e"
proof (cases "run_state readGrid \<lparr>rdB = b, rdOff = 0, rdErr = False\<rparr>")
  case run: (Pair v q)
  have full: "run_state readGrid (reading [] (encodeGrid f [])) = (Inr (f\<lparr>gfCells := map wireGridCell (gfCells f)\<rparr>), reading (encodeGrid f []) [])"
    using read_grid [OF assms(1), of "[]"] by simp
  have st: "rdOff q \<le> length b" "\<And>x. \<not> rdErr q \<Longrightarrow> run_state readGrid \<lparr>rdB = b @ x, rdOff = 0, rdErr = False\<rparr> = (v, q\<lparr>rdB := rdB q @ x\<rparr>)"
    using steady_grid run unfolding steady_def by fastforce+
  have "rdErr q"
  proof (rule ccontr)
    assume "\<not> rdErr q"
    from st(2) [OF this, of missing] full have "q\<lparr>rdB := rdB q @ missing\<rparr> = reading (encodeGrid f []) []"
      by (simp add: reading_def assms(2))
    then have "rdOff q = length (encodeGrid f [])" by (cases q) (simp add: reading_def)
    with st(1) assms(2,3) show False by simp
  qed
  then show ?thesis by (cases v) (simp_all add: decodeGrid_def run)
qed

end
