(* ===== verification/NxMux.thy ===== *)
theory NxMux
  imports NxFrames "HOL-Library.AList"
begin

text \<open>
  The server half of the nx2 shell, \<open>nx2/apps/shell/shellmux/shellmux.go\<close>: a multiplexer that routes
  the frames of its host to the children of its tabs and answers the commands that open and close
  tabs. What it sends and which calls its children get is recorded in \<open>mxOut\<close>, in order.

  The JSON of commands and events and the opener of children are the parameter \<open>muxEnv\<close>; the opener
  answers by the number of the attempt. The map of tabs is a list in the order in which the loops
  over it visit them.
\<close>

section \<open>State\<close>

record MuxCmd =
  mcOp :: string
  mcTab :: "32 word"
  mcApp :: octets
  mcArgs :: "octets list"

record MuxEventMsg =
  meOp :: string
  meTab :: "32 word"
  meTabs :: "32 word list"

record 'c muxEnv =
  openChild :: "nat \<Rightarrow> octets list \<Rightarrow> 'c option"
  unmarshalCmd :: "octets \<Rightarrow> MuxCmd option"
  marshalEvent :: "MuxEventMsg \<Rightarrow> octets"

datatype childCall = ChildInput octets | ChildSnapshot | ChildClose

datatype 'c muxOut = SendOut octets | ToChild "32 word" 'c childCall | CloseOut

record 'c Companion =
  mxDec :: octets
  mxTabs :: "(32 word \<times> 'c) list"
  mxNextID :: "32 word"
  mxAttempts :: nat
  mxClosed :: bool
  mxOut :: "'c muxOut list"

definition ctrlTab :: "8 word" where
  "ctrlTab = 0"

definition ctrlMux :: "8 word" where
  "ctrlMux = 1"

definition ctrlMuxEvent :: "8 word" where
  "ctrlMuxEvent = 2"

section \<open>Operations\<close>

definition put_out :: "'c muxOut \<Rightarrow> 'c Companion \<Rightarrow> 'c Companion" where
  "put_out x s = s\<lparr>mxOut := mxOut s @ [x]\<rparr>"

definition muxWriteFrame :: "8 word \<Rightarrow> 32 word \<Rightarrow> octets \<Rightarrow> 'c Companion \<Rightarrow> 'c Companion" where
  "muxWriteFrame ctrl i inner = put_out (SendOut (sprotoEncode ctrl i inner []))"

definition muxWriteEvent :: "'c muxEnv \<Rightarrow> MuxEventMsg \<Rightarrow> 'c Companion \<Rightarrow> 'c Companion" where
  "muxWriteEvent env ev = muxWriteFrame ctrlMuxEvent (meTab ev) (marshalEvent env ev)"

text \<open>\<open>openTab\<close>: \<open>None\<close> is the error of the opener, which leaves the tabs as they are.\<close>

definition openTab :: "'c muxEnv \<Rightarrow> octets list \<Rightarrow> 'c Companion \<Rightarrow> 32 word option \<times> 'c Companion" where
  "openTab env argv s0 =
    (let s = s0\<lparr>mxAttempts := mxAttempts s0 + 1\<rparr> in
     case openChild env (mxAttempts s0) argv of
       None \<Rightarrow> (None, s)
     | Some c \<Rightarrow>
         let i = mxNextID s; s = s\<lparr>mxNextID := i + 1, mxTabs := AList.update i c (mxTabs s)\<rparr>
         in (Some i, muxWriteEvent env \<lparr>meOp = ''opened'', meTab = i, meTabs = []\<rparr> s))"

definition closeTab :: "'c muxEnv \<Rightarrow> 32 word \<Rightarrow> 'c Companion \<Rightarrow> 'c Companion" where
  "closeTab env i s =
    (case map_of (mxTabs s) i of
       None \<Rightarrow> s
     | Some c \<Rightarrow> muxWriteEvent env \<lparr>meOp = ''closed'', meTab = i, meTabs = []\<rparr>
                   (put_out (ToChild i c ChildClose) (s\<lparr>mxTabs := AList.delete i (mxTabs s)\<rparr>)))"

definition routeToChild :: "32 word \<Rightarrow> octets \<Rightarrow> 'c Companion \<Rightarrow> 'c Companion" where
  "routeToChild i payload s =
    (case map_of (mxTabs s) i of None \<Rightarrow> s | Some c \<Rightarrow> put_out (ToChild i c (ChildInput payload)) s)"

definition handleMux :: "'c muxEnv \<Rightarrow> octets \<Rightarrow> 'c Companion \<Rightarrow> 'c Companion" where
  "handleMux env payload s =
    (case unmarshalCmd env payload of
       None \<Rightarrow> s
     | Some cmd \<Rightarrow>
         if mcOp cmd = ''open'' then
           snd (openTab env (if mcApp cmd \<noteq> [] then mcApp cmd # mcArgs cmd else mcArgs cmd) s)
         else if mcOp cmd = ''close'' then closeTab env (mcTab cmd) s
         else s)"

definition muxFrame :: "'c muxEnv \<Rightarrow> 8 word \<Rightarrow> 32 word \<Rightarrow> octets \<Rightarrow> 'c Companion \<Rightarrow> 'c Companion" where
  "muxFrame env ctrl i payload s =
    (if ctrl = ctrlTab then routeToChild i payload s
     else if ctrl = ctrlMux then handleMux env payload s
     else s)"

lemma put_out_reads [simp]:
  "mxDec (put_out x s) = mxDec s" "mxTabs (put_out x s) = mxTabs s" "mxOut (put_out x s) = mxOut s @ [x]"
  "put_out x (s\<lparr>mxDec := d\<rparr>) = (put_out x s)\<lparr>mxDec := d\<rparr>"
  by (simp_all add: put_out_def)

lemma muxWriteEvent_reads [simp]:
  "mxDec (muxWriteEvent env ev s) = mxDec s" "mxTabs (muxWriteEvent env ev s) = mxTabs s"
  "mxOut (muxWriteEvent env ev s) = mxOut s @ [SendOut (sprotoEncode ctrlMuxEvent (meTab ev) (marshalEvent env ev) [])]"
  "muxWriteEvent env ev (s\<lparr>mxDec := d\<rparr>) = (muxWriteEvent env ev s)\<lparr>mxDec := d\<rparr>"
  by (simp_all add: muxWriteEvent_def muxWriteFrame_def)

lemma openTab_dec [simp]:
  "mxDec (snd (openTab env argv s)) = mxDec s"
  "snd (openTab env argv (s\<lparr>mxDec := d\<rparr>)) = (snd (openTab env argv s))\<lparr>mxDec := d\<rparr>"
  by (simp_all add: openTab_def Let_def muxWriteEvent_def muxWriteFrame_def put_out_def split: option.split)

lemma closeTab_dec [simp]:
  "mxDec (closeTab env i s) = mxDec s"
  "closeTab env i (s\<lparr>mxDec := d\<rparr>) = (closeTab env i s)\<lparr>mxDec := d\<rparr>"
  by (simp_all add: closeTab_def muxWriteEvent_def muxWriteFrame_def put_out_def split: option.split)

lemma muxFrame_dec [simp]:
  "mxDec (muxFrame env ctrl i payload s) = mxDec s"
  "muxFrame env ctrl i payload (s\<lparr>mxDec := d\<rparr>) = (muxFrame env ctrl i payload s)\<lparr>mxDec := d\<rparr>"
  by (simp_all add: muxFrame_def routeToChild_def handleMux_def split: option.split)

text \<open>The loop of \<open>Input\<close>: every complete frame in the buffer; a frame too large ends it.\<close>

function muxDrain :: "'c muxEnv \<Rightarrow> 'c Companion \<Rightarrow> 'c Companion" where
  "muxDrain env s =
    (case sprotoNext (mxDec s) of
       (Decoded ctrl i payload, rest) \<Rightarrow> muxDrain env (muxFrame env ctrl i payload (s\<lparr>mxDec := rest\<rparr>))
     | _ \<Rightarrow> s)"
  by pat_completeness auto

termination
  by (relation "measure (\<lambda>(env, s). length (mxDec s))") (auto dest!: sprotoNext_shorter [OF sym])

declare muxDrain.simps [simp del]

definition muxInput :: "'c muxEnv \<Rightarrow> octets \<Rightarrow> 'c Companion \<Rightarrow> 'c Companion" where
  "muxInput env b s = muxDrain env (s\<lparr>mxDec := mxDec s @ b\<rparr>)"

text \<open>The output of a child, pumped by a goroutine of its own.\<close>

definition childOutput :: "32 word \<Rightarrow> octets \<Rightarrow> 'c Companion \<Rightarrow> 'c Companion" where
  "childOutput i chunk s = (if chunk = [] then s else muxWriteFrame ctrlTab i chunk s)"

definition muxSnapshot :: "'c muxEnv \<Rightarrow> 'c Companion \<Rightarrow> 'c Companion" where
  "muxSnapshot env s =
    fold (\<lambda>(i, c). put_out (ToChild i c ChildSnapshot)) (mxTabs s)
      (muxWriteEvent env \<lparr>meOp = ''list'', meTab = 0, meTabs = sort (map fst (mxTabs s))\<rparr> s)"

definition muxClose :: "'c Companion \<Rightarrow> 'c Companion" where
  "muxClose s =
    (if mxClosed s then s
     else fold (\<lambda>(i, c). put_out (ToChild i c ChildClose)) (mxTabs s)
            (put_out CloseOut (s\<lparr>mxClosed := True, mxTabs := []\<rparr>)))"

definition emptyMux :: "'c Companion" where
  "emptyMux = \<lparr>mxDec = [], mxTabs = [], mxNextID = 0, mxAttempts = 0, mxClosed = False, mxOut = []\<rparr>"

text \<open>\<open>NewWithOpener\<close>: \<open>None\<close> is the error of the opener.\<close>

definition NewWithOpener :: "'c muxEnv \<Rightarrow> 'c Companion option" where
  "NewWithOpener env = (case openTab env [] emptyMux of (None, s) \<Rightarrow> None | (Some i, s) \<Rightarrow> Some s)"

section \<open>Chunks\<close>

type_synonym muxMsg = "8 word \<times> 32 word \<times> octets"

definition onFrame :: "'c muxEnv \<Rightarrow> muxMsg \<Rightarrow> 'c Companion \<Rightarrow> 'c Companion" where
  "onFrame env f = (case f of (ctrl, i, payload) \<Rightarrow> muxFrame env ctrl i payload)"

lemma onFrame_dec [simp]:
  "mxDec (onFrame env f s) = mxDec s" "onFrame env f (s\<lparr>mxDec := d\<rparr>) = (onFrame env f s)\<lparr>mxDec := d\<rparr>"
  by (simp_all add: onFrame_def split: prod.split)

lemma fold_onFrame_dec [simp]:
  "mxDec (fold (onFrame env) fs s) = mxDec s"
  "fold (onFrame env) fs (s\<lparr>mxDec := d\<rparr>) = (fold (onFrame env) fs s)\<lparr>mxDec := d\<rparr>"
  by (induction fs arbitrary: s) simp_all

lemma muxDrain_frames:
  "list_all (\<lambda>(ctrl, i, payload). length payload \<le> MaxMsgLen) fs \<Longrightarrow>
   muxDrain env (s\<lparr>mxDec := envelope.stream fs @ d\<rparr>) = muxDrain env ((fold (onFrame env) fs s)\<lparr>mxDec := d\<rparr>)"
proof (induction fs arbitrary: s)
  case (Cons f fs)
  have "muxDrain env (s\<lparr>mxDec := envelopeEncode f @ rest\<rparr>) = muxDrain env ((onFrame env f s)\<lparr>mxDec := rest\<rparr>)" for rest
    using Cons.prems
    by (cases f) (subst muxDrain.simps, simp add: envelopeEncode_def sprotoNext_encode onFrame_def)
  then show ?case using Cons.IH [of "onFrame env f s"] Cons.prems by simp
qed simp

lemma muxDrain_waits: "envelopeDecode d = None \<Longrightarrow> muxDrain env (s\<lparr>mxDec := d\<rparr>) = s\<lparr>mxDec := d\<rparr>"
  by (subst muxDrain.simps) (auto simp: envelopeDecode_def split: prod.splits decoded.splits)

lemma muxInput_chunks:
  "list_all (\<lambda>(ctrl, i, payload). length payload \<le> MaxMsgLen) fs \<Longrightarrow> mxDec s @ concat chunks = envelope.stream fs \<Longrightarrow>
   (chunks = [] \<Longrightarrow> fs = []) \<Longrightarrow> fold (muxInput env) chunks s = (fold (onFrame env) fs s)\<lparr>mxDec := []\<rparr>"
proof (induction chunks arbitrary: s fs)
  case Nil
  then show ?case by simp
next
  case (Cons b chunks)
  obtain now later d where L: "fs = now @ later" "mxDec s @ b = envelope.stream now @ d"
    "envelope.stream later = d @ concat chunks" "envelopeDecode d = None" "concat chunks = [] \<longrightarrow> later = []"
    using envelope.split_stream [OF Cons.prems(1), of "mxDec s @ b" "concat chunks"] Cons.prems(2) by auto
  have ok: "list_all (\<lambda>(ctrl, i, payload). length payload \<le> MaxMsgLen) now"
    "list_all (\<lambda>(ctrl, i, payload). length payload \<le> MaxMsgLen) later" using Cons.prems(1) by (simp_all add: L(1))
  have "muxInput env b s = (fold (onFrame env) now s)\<lparr>mxDec := d\<rparr>"
    unfolding muxInput_def L(2) by (simp add: muxDrain_frames [OF ok(1)] muxDrain_waits [OF L(4)])
  moreover have "fold (muxInput env) chunks ((fold (onFrame env) now s)\<lparr>mxDec := d\<rparr>) =
      (fold (onFrame env) later ((fold (onFrame env) now s)\<lparr>mxDec := d\<rparr>))\<lparr>mxDec := []\<rparr>"
    by (rule Cons.IH [OF ok(2)]) (use L(3,5) in auto)
  ultimately show ?case by (simp add: L(1))
qed

section \<open>Routing\<close>

text \<open>What the child of tab \<open>i\<close> has been given.\<close>

definition inputsTo :: "32 word \<Rightarrow> 'c muxOut list \<Rightarrow> octets list" where
  "inputsTo i outs =
    concat (map (\<lambda>x. case x of ToChild j c (ChildInput p) \<Rightarrow> if j = i then [p] else [] | _ \<Rightarrow> []) outs)"

definition addressed :: "32 word \<Rightarrow> muxMsg list \<Rightarrow> octets list" where
  "addressed i fs = map (snd \<circ> snd) (filter (\<lambda>(ctrl, j, payload). ctrl = ctrlTab \<and> j = i) fs)"

definition closes :: "'c muxEnv \<Rightarrow> 32 word \<Rightarrow> muxMsg \<Rightarrow> bool" where
  "closes env i f =
    (case f of (ctrl, j, payload) \<Rightarrow> ctrl = ctrlMux \<and>
       (case unmarshalCmd env payload of None \<Rightarrow> False | Some cmd \<Rightarrow> mcOp cmd = ''close'' \<and> mcTab cmd = i))"

lemma inputsTo_append [simp]: "inputsTo i (xs @ ys) = inputsTo i xs @ inputsTo i ys"
  by (simp add: inputsTo_def)

lemma inputsTo_simps [simp]:
  "inputsTo i [] = []" "inputsTo i (SendOut b # xs) = inputsTo i xs" "inputsTo i (ToChild j c ChildClose # xs) = inputsTo i xs"
  "inputsTo i (ToChild j c (ChildInput p) # xs) = (if j = i then [p] else []) @ inputsTo i xs"
  by (simp_all add: inputsTo_def)

lemma openTab_routes:
  "inputsTo i (mxOut (snd (openTab env argv s))) = inputsTo i (mxOut s)"
  "map_of (mxTabs s) i \<noteq> None \<Longrightarrow> map_of (mxTabs (snd (openTab env argv s))) i \<noteq> None"
  by (auto simp: openTab_def Let_def update_conv' split: option.split)

lemma closeTab_routes:
  "inputsTo i (mxOut (closeTab env j s)) = inputsTo i (mxOut s)"
  "i \<noteq> j \<Longrightarrow> map_of (mxTabs s) i \<noteq> None \<Longrightarrow> map_of (mxTabs (closeTab env j s)) i \<noteq> None"
  by (auto simp: closeTab_def delete_conv' split: option.split)

lemma onFrame_routes:
  assumes "map_of (mxTabs s) i \<noteq> None" "\<not> closes env i f"
  shows "map_of (mxTabs (onFrame env f s)) i \<noteq> None \<and>
    inputsTo i (mxOut (onFrame env f s)) = inputsTo i (mxOut s) @ addressed i [f]"
proof -
  obtain ctrl j payload where f: "f = (ctrl, j, payload)" by (cases f)
  consider (tab) "ctrl = ctrlTab" | (mux) "ctrl = ctrlMux" | (other) "ctrl \<noteq> ctrlTab" "ctrl \<noteq> ctrlMux" by blast
  then show ?thesis
  proof cases
    case tab
    then show ?thesis
      using assms(1) by (auto simp: onFrame_def f muxFrame_def routeToChild_def addressed_def split: option.split)
  next
    case mux
    then have "ctrl \<noteq> ctrlTab" by (simp add: ctrlTab_def ctrlMux_def)
    then show ?thesis
      using assms mux openTab_routes [where i = i and env = env and s = s] closeTab_routes [where i = i and env = env and s = s]
      by (cases "unmarshalCmd env payload")
        (auto simp: onFrame_def f muxFrame_def handleMux_def closes_def addressed_def)
  next
    case other
    then show ?thesis using assms(1) by (simp add: onFrame_def f muxFrame_def addressed_def)
  qed
qed

lemma frames_route:
  "map_of (mxTabs s) i \<noteq> None \<Longrightarrow> list_all (\<lambda>f. \<not> closes env i f) fs \<Longrightarrow>
   inputsTo i (mxOut (fold (onFrame env) fs s)) = inputsTo i (mxOut s) @ addressed i fs"
proof (induction fs arbitrary: s)
  case (Cons f fs)
  have "addressed i (f # fs) = addressed i [f] @ addressed i fs" by (simp add: addressed_def)
  then show ?case using Cons.IH [of "onFrame env f s"] Cons.prems onFrame_routes [of s i env f] by simp
qed (simp add: addressed_def)

end
