(* ===== verification/NxKeymap.thy ===== *)
theory NxKeymap
  imports GoStrings "HOL-Library.AList" "HOL-Library.Sublist"
begin

text \<open>
  The key bindings of the nx2 shell: the registry with its styles, key specs and trie of chords
  (\<open>nx2/apps/shell/keymap/keymap.go\<close>), and the matcher that turns input bytes into forwarded bytes and
  commands (\<open>matcher.go\<close>). Key specs are ASCII; \<open>overrides\<close> is the map of the code as a list in the
  order in which the loop over it visits the keys.
\<close>

section \<open>Data\<close>

record Command =
  cmName :: string
  cmCategory :: string
  cmLayer :: string
  cmDescription :: string

record resolvedBinding =
  rbCommand :: Command
  rbArgs :: string
  rbKey :: string

record alwaysBinding =
  abRaw :: bytes
  abCommand :: Command
  abArgs :: string
  abKey :: string
  abWhen :: string

record virtualBinding =
  vbCommand :: Command
  vbArgs :: string
  vbKey :: string
  vbWhen :: string

datatype chordNode = ChordNode "resolvedBinding option" "(string \<times> chordNode) list"

record BindingInfo =
  biCategory :: string
  biKey :: string
  biKeyDisplay :: string
  biCommandName :: string
  biArgs :: string
  biDescription :: string
  biAlways :: bool

record Registry =
  rgChordRoot :: chordNode
  rgAlways :: "alwaysBinding list"
  rgVirtual :: "string \<rightharpoonup> virtualBinding"
  rgBindings :: "BindingInfo list"
  PrefixKey :: char
  PrefixStr :: string
  rgStyle :: string

section \<open>The trie of chords\<close>

abbreviation emptyNode :: chordNode where
  "emptyNode \<equiv> ChordNode None []"

fun chordInsert :: "string list \<Rightarrow> resolvedBinding \<Rightarrow> chordNode \<Rightarrow> chordNode" where
  "chordInsert [] b (ChordNode x cs) = ChordNode (Some b) cs"
| "chordInsert (k # ks) b (ChordNode x cs) =
     ChordNode x (AList.update k (chordInsert ks b (case map_of cs k of None \<Rightarrow> emptyNode | Some c \<Rightarrow> c)) cs)"

fun chordMatch :: "string list \<Rightarrow> chordNode \<Rightarrow> resolvedBinding option \<times> bool" where
  "chordMatch [] (ChordNode x cs) = (x, len cs > 0)"
| "chordMatch (k # ks) (ChordNode x cs) =
     (case map_of cs k of None \<Rightarrow> (None, False) | Some c \<Rightarrow> chordMatch ks c)"

definition MatchChord :: "Registry \<Rightarrow> string list \<Rightarrow> (Command \<times> string) option \<times> bool" where
  "MatchChord r keys =
    (case chordMatch keys (rgChordRoot r) of (b, isPrefix) \<Rightarrow> (map_option (\<lambda>b. (rbCommand b, rbArgs b)) b, isPrefix))"

definition LookupVirtual :: "Registry \<Rightarrow> string \<Rightarrow> (Command \<times> string \<times> string) option" where
  "LookupVirtual r name = map_option (\<lambda>v. (vbCommand v, vbArgs v, vbWhen v)) (rgVirtual r name)"

section \<open>Commands and styles\<close>

record stylePreset =
  spPrefix :: string
  spBindings :: "(string \<times> string \<times> string) list"

definition allCommands :: "Command list" where
  "allCommands = map (\<lambda>(n, c, l, d). \<lparr>cmName = n, cmCategory = c, cmLayer = l, cmDescription = d\<rparr>) [
     (''run-command'', ''main'', ''main'', ''command palette''),
     (''detach'', ''main'', ''main'', ''detach''),
     (''show-help'', ''main'', ''main'', ''show keybindings''),
     (''show-log'', ''main'', ''main'', ''open log viewer''),
     (''show-release-notes'', ''main'', ''main'', ''show release notes''),
     (''open-session'', ''session'', ''session-manager'', ''create new session''),
     (''close-session'', ''session'', ''session-manager'', ''kill current session''),
     (''next-session'', ''session'', ''session-manager'', ''next session''),
     (''prev-session'', ''session'', ''session-manager'', ''previous session''),
     (''switch-session'', ''session'', ''session-manager'', ''switch session''),
     (''show-status'', ''session'', ''session-manager'', ''show status''),
     (''open-tab'', ''tab'', ''session'', ''open new tab''),
     (''close-tab'', ''tab'', ''session'', ''close active tab''),
     (''next-tab'', ''tab'', ''session'', ''next tab''),
     (''prev-tab'', ''tab'', ''session'', ''previous tab''),
     (''switch-tab'', ''tab'', ''session'', ''switch to tab N''),
     (''scroll-up'', ''tab'', ''session'', ''enter scrollback / scroll up''),
     (''scroll-down'', ''tab'', ''session'', ''scroll down (in scrollback)''),
     (''send-prefix'', ''tab'', ''session'', ''send literal prefix key''),
     (''enter-scrollback'', ''tab'', ''session'', ''enter scrollback mode''),
     (''refresh-screen'', ''tab'', ''session'', ''refresh screen'')]"

definition nativePreset :: stylePreset where
  "nativePreset = \<lparr>spPrefix = ''ctrl+b'', spBindings = [
    (''c'', ''open-tab'', ''''), (''x'', ''close-tab'', ''''), (''alt+.'', ''next-tab'', ''''),
    (''alt+,'', ''prev-tab'', ''''), (''1'', ''switch-tab'', ''1''), (''2'', ''switch-tab'', ''2''),
    (''3'', ''switch-tab'', ''3''), (''4'', ''switch-tab'', ''4''), (''5'', ''switch-tab'', ''5''),
    (''6'', ''switch-tab'', ''6''), (''7'', ''switch-tab'', ''7''), (''8'', ''switch-tab'', ''8''),
    (''9'', ''switch-tab'', ''9''), (''S o'', ''open-session'', ''''), (''S c'', ''close-session'', ''''),
    (''ctrl+.'', ''next-session'', ''''), (''ctrl+,'', ''prev-session'', ''''),
    (''w'', ''switch-session'', ''''), (''d'', ''detach'', ''''), ('':'', ''run-command'', ''''),
    (''ctrl+b'', ''send-prefix'', ''''), (''l'', ''show-log'', ''''), (''?'', ''show-help'', ''''),
    (''s'', ''show-status'', ''''), (''n'', ''show-release-notes'', ''''),
    (''['', ''enter-scrollback'', ''''), (''r'', ''refresh-screen'', ''''),
    (''pgup?normal-screen'', ''scroll-up'', ''''), (''pgdown?normal-screen'', ''scroll-down'', ''''),
    (''wheelup?normal-screen'', ''scroll-up'', ''''), (''wheeldown?normal-screen'', ''scroll-down'', '''')]\<rparr>"

definition tmuxPreset :: stylePreset where
  "tmuxPreset = \<lparr>spPrefix = ''ctrl+b'', spBindings = [
    (''c'', ''open-tab'', ''''), (''&'', ''close-tab'', ''''), (''n'', ''next-tab'', ''''),
    (''p'', ''prev-tab'', ''''), (''0'', ''switch-tab'', ''0''), (''1'', ''switch-tab'', ''1''),
    (''2'', ''switch-tab'', ''2''), (''3'', ''switch-tab'', ''3''), (''4'', ''switch-tab'', ''4''),
    (''5'', ''switch-tab'', ''5''), (''6'', ''switch-tab'', ''6''), (''7'', ''switch-tab'', ''7''),
    (''8'', ''switch-tab'', ''8''), (''9'', ''switch-tab'', ''9''), (''$'', ''open-session'', ''''),
    (''s'', ''switch-session'', ''''), ('')'', ''next-session'', ''''), (''('', ''prev-session'', ''''),
    (''d'', ''detach'', ''''), (''ctrl+b'', ''send-prefix'', ''''), (''?'', ''show-help'', ''''),
    (''['', ''enter-scrollback'', ''''), (''l'', ''show-log'', ''''), (''r'', ''refresh-screen'', ''''),
    (''pgup?normal-screen'', ''scroll-up'', ''''), (''pgdown?normal-screen'', ''scroll-down'', ''''),
    (''wheelup?normal-screen'', ''scroll-up'', ''''), (''wheeldown?normal-screen'', ''scroll-down'', '''')]\<rparr>"

definition screenPreset :: stylePreset where
  "screenPreset = \<lparr>spPrefix = ''ctrl+a'', spBindings = [
    (''c'', ''open-tab'', ''''), (''k'', ''close-tab'', ''''), (''n'', ''next-tab'', ''''),
    (''p'', ''prev-tab'', ''''), (''0'', ''switch-tab'', ''0''), (''1'', ''switch-tab'', ''1''),
    (''2'', ''switch-tab'', ''2''), (''3'', ''switch-tab'', ''3''), (''4'', ''switch-tab'', ''4''),
    (''5'', ''switch-tab'', ''5''), (''6'', ''switch-tab'', ''6''), (''7'', ''switch-tab'', ''7''),
    (''8'', ''switch-tab'', ''8''), (''9'', ''switch-tab'', ''9''), (''S'', ''open-session'', ''''),
    ([CHR 0x22], ''switch-session'', ''''), (''d'', ''detach'', ''''), (''ctrl+a'', ''send-prefix'', ''''),
    (''?'', ''show-help'', ''''), (''['', ''enter-scrollback'', ''''), (''l'', ''show-log'', ''''),
    (''pgup?normal-screen'', ''scroll-up'', ''''), (''pgdown?normal-screen'', ''scroll-down'', ''''),
    (''wheelup?normal-screen'', ''scroll-up'', ''''), (''wheeldown?normal-screen'', ''scroll-down'', '''')]\<rparr>"

definition zellijPreset :: stylePreset where
  "zellijPreset = \<lparr>spPrefix = ''ctrl+b'', spBindings = [
    (''alt+n'', ''open-tab'', ''''), (''alt+x'', ''close-tab'', ''''), (''alt+,'', ''prev-tab'', ''''),
    (''alt+.'', ''next-tab'', ''''), (''alt+1'', ''switch-tab'', ''1''), (''alt+2'', ''switch-tab'', ''2''),
    (''alt+3'', ''switch-tab'', ''3''), (''alt+4'', ''switch-tab'', ''4''),
    (''alt+5'', ''switch-tab'', ''5''), (''alt+6'', ''switch-tab'', ''6''),
    (''alt+7'', ''switch-tab'', ''7''), (''alt+8'', ''switch-tab'', ''8''),
    (''alt+9'', ''switch-tab'', ''9''), (''S'', ''open-session'', ''''), (''X'', ''close-session'', ''''),
    (''w'', ''switch-session'', ''''), (''alt+d'', ''detach'', ''''), (''alt+h'', ''show-help'', ''''),
    (''alt+e'', ''enter-scrollback'', ''''), (''ctrl+b'', ''send-prefix'', ''''),
    (''s'', ''show-status'', ''''), (''l'', ''show-log'', ''''), (''r'', ''refresh-screen'', ''''),
    (''pgup?normal-screen'', ''scroll-up'', ''''), (''pgdown?normal-screen'', ''scroll-down'', ''''),
    (''wheelup?normal-screen'', ''scroll-up'', ''''), (''wheeldown?normal-screen'', ''scroll-down'', '''')]\<rparr>"

definition getPreset :: "string \<Rightarrow> stylePreset" where
  "getPreset style =
    (if style = ''tmux'' then tmuxPreset
     else if style = ''screen'' then screenPreset
     else if style = ''zellij'' then zellijPreset
     else nativePreset)"

section \<open>Key specs\<close>

definition fnKeyCodes :: "string \<Rightarrow> (string \<times> string) option" where
  "fnKeyCodes = map_of [
     (''f1'', ''1'', ''P''), (''f2'', ''1'', ''Q''), (''f3'', ''1'', ''R''), (''f4'', ''1'', ''S''),
     (''f5'', ''15'', ''~''), (''f6'', ''17'', ''~''), (''f7'', ''18'', ''~''), (''f8'', ''19'', ''~''),
     (''f9'', ''20'', ''~''), (''f10'', ''21'', ''~''), (''f11'', ''23'', ''~''), (''f12'', ''24'', ''~'')]"

definition escape :: char where
  "escape = CHR 0x1b"

definition namedKeys :: "string \<Rightarrow> bytes option" where
  "namedKeys = map_of [(''pgup'', escape # ''[5~''), (''pgdown'', escape # ''[6~'')]"

definition virtualKeys :: "string \<Rightarrow> bool" where
  "virtualKeys key \<longleftrightarrow> key = ''wheelup'' \<or> key = ''wheeldown''"

text \<open>\<open>pgup?normal-screen\<close>: the first question mark, neither first nor last, splits the spec.\<close>

definition parseKeyCondition :: "string \<Rightarrow> string \<times> string" where
  "parseKeyCondition spec =
    (let i = length (takeWhile (\<lambda>c. c \<noteq> CHR ''?'') spec) in
     if i < length spec \<and> i > 0 \<and> i < length spec - 1 then (take i spec, drop (i + 1) spec) else (spec, ''''))"

definition is_letter :: "char \<Rightarrow> bool" where
  "is_letter c \<longleftrightarrow> (byte (CHR ''a'') \<le> byte c \<and> byte c \<le> byte (CHR ''z'')) \<or>
     (byte (CHR ''A'') \<le> byte c \<and> byte c \<le> byte (CHR ''Z''))"

definition csi_u_key :: "char \<Rightarrow> bool" where
  "csi_u_key c \<longleftrightarrow> byte (CHR ''!'') \<le> byte c \<and> byte c \<le> byte (CHR ''~'') \<and> \<not> is_letter c"

definition keyToRawBytes :: "string \<Rightarrow> bytes option" where
  "keyToRawBytes key =
    (case namedKeys key of
       Some raw \<Rightarrow> Some raw
     | None \<Rightarrow>
         if has_prefix ''alt+'' key then
           (let rest = drop 4 key in
            case fnKeyCodes rest of
              Some (code, fin) \<Rightarrow> Some ([escape] @ ''['' @ code @ '';3'' @ fin)
            | None \<Rightarrow> if length rest = 1 then Some [escape, rest ! 0] else None)
         else if has_prefix ''ctrl+'' key then
           (let rest = drop 5 key in
            case fnKeyCodes rest of
              Some (code, fin) \<Rightarrow> Some ([escape] @ ''['' @ code @ '';5'' @ fin)
            | None \<Rightarrow> if length rest = 1 \<and> csi_u_key (rest ! 0)
                      then Some ([escape] @ ''['' @ show_int (byte (rest ! 0)) @ '';5u'') else None)
         else None)"

definition prefixKeyToByte :: "string \<Rightarrow> char" where
  "prefixKeyToByte key =
    (let ch = drop 5 key in
     if \<not> has_prefix ''ctrl+'' key \<or> length ch \<noteq> 1 then CHR 0x02
     else (let c = byte (ch ! 0) in
       if byte (CHR ''a'') \<le> c \<and> c \<le> byte (CHR ''z'') then byte_char (c - byte (CHR ''a'') + 1)
       else if byte (CHR ''A'') \<le> c \<and> c \<le> byte (CHR ''Z'') then byte_char (c - byte (CHR ''A'') + 1)
       else CHR 0x02))"

definition isAlwaysKey :: "string \<Rightarrow> bool" where
  "isAlwaysKey key \<longleftrightarrow>
    namedKeys key \<noteq> None \<or> has_prefix ''alt+'' key \<or>
    (has_prefix ''ctrl+'' key \<and>
      (let rest = drop 5 key in fnKeyCodes rest \<noteq> None \<or> (length rest = 1 \<and> csi_u_key (rest ! 0))))"

definition parseCommandInvocation :: "string \<Rightarrow> string \<times> string" where
  "parseCommandInvocation s =
    (let i = length (takeWhile (\<lambda>c. c \<noteq> CHR '' '') s) in
     if i < length s then (take i s, drop (i + 1) s) else (s, ''''))"

definition commandInvocation :: "string \<Rightarrow> string \<Rightarrow> string" where
  "commandInvocation name args = (if args = '''' then name else name @ '' '' @ args)"

text \<open>\<open>strings.Fields\<close> of an ASCII string.\<close>

definition is_space :: "char \<Rightarrow> bool" where
  "is_space c \<longleftrightarrow> c = CHR '' '' \<or> (9 \<le> byte c \<and> byte c \<le> 13)"

fun fields_from :: "string \<Rightarrow> string \<Rightarrow> string list" where
  "fields_from cur [] = (if cur = [] then [] else [cur])"
| "fields_from cur (c # cs) =
     (if is_space c then (if cur = [] then fields_from [] cs else cur # fields_from [] cs)
      else fields_from (cur @ [c]) cs)"

definition fields :: "string \<Rightarrow> string list" where
  "fields = fields_from []"

section \<open>Building the registry\<close>

definition byName :: "string \<Rightarrow> Command option" where
  "byName name = find (\<lambda>c. cmName c = name) allCommands"

type_synonym binding = "string \<times> string \<times> string"

definition effectiveBindings :: "stylePreset \<Rightarrow> string \<Rightarrow> (string \<times> string list) list \<Rightarrow> binding list" where
  "effectiveBindings preset prefixStr overrides =
    (let bindings = map (\<lambda>(key, name, args). if name = ''send-prefix'' then (prefixStr, name, args) else (key, name, args))
                      (spBindings preset)
     in if overrides = [] then bindings
        else filter (\<lambda>(key, name, args). commandInvocation name args \<notin> fst ` set overrides) bindings @
          concat (map (\<lambda>(inv, keys). case parseCommandInvocation inv of (name, args) \<Rightarrow>
            if byName name = None then [] else map (\<lambda>key. (key, name, args)) keys) overrides))"

datatype placed = Virtual virtualBinding | Always alwaysBinding | Chord "string list" resolvedBinding

text \<open>Where a binding goes; \<open>None\<close> when its command is unknown or its key has no bytes.\<close>

definition place :: "binding \<Rightarrow> (Command \<times> string \<times> string \<times> placed) option" where
  "place b =
    (case b of (spec, name, args) \<Rightarrow> do {
       cmd \<leftarrow> byName name;
       case parseKeyCondition spec of (key, cond) \<Rightarrow>
         if virtualKeys key then
           Some (cmd, args, key, Virtual \<lparr>vbCommand = cmd, vbArgs = args, vbKey = key, vbWhen = cond\<rparr>)
         else if isAlwaysKey key then do {
           raw \<leftarrow> keyToRawBytes key;
           Some (cmd, args, key, Always \<lparr>abRaw = raw, abCommand = cmd, abArgs = args, abKey = key, abWhen = cond\<rparr>) }
         else Some (cmd, args, key, Chord (fields key) \<lparr>rbCommand = cmd, rbArgs = args, rbKey = key\<rparr>) })"

fun addPlaced :: "placed \<Rightarrow> Registry \<Rightarrow> Registry" where
  "addPlaced (Virtual v) r = r\<lparr>rgVirtual := (rgVirtual r)(vbKey v \<mapsto> v)\<rparr>"
| "addPlaced (Always a) r = r\<lparr>rgAlways := rgAlways r @ [a]\<rparr>"
| "addPlaced (Chord keys b) r = r\<lparr>rgChordRoot := chordInsert keys b (rgChordRoot r)\<rparr>"

definition commaSpaced :: "string \<Rightarrow> string" where
  "commaSpaced key = concat (map (\<lambda>c. if c = CHR '' '' then '', '' else [c]) key)"

definition bindingInfo :: "string \<Rightarrow> Command \<times> string \<times> string \<times> placed \<Rightarrow> BindingInfo" where
  "bindingInfo prefixStr x =
    (case x of (cmd, args, key, _) \<Rightarrow>
       \<lparr>biCategory = cmCategory cmd, biKey = key,
        biKeyDisplay = (if isAlwaysKey key \<or> virtualKeys key then key else prefixStr @ '', '' @ commaSpaced key),
        biCommandName = cmName cmd, biArgs = args, biDescription = cmDescription cmd,
        biAlways = (isAlwaysKey key \<or> virtualKeys key)\<rparr>)"

definition categories :: "string list" where
  "categories = [''main'', ''session'', ''tab'']"

definition NewRegistry :: "string \<Rightarrow> string \<Rightarrow> (string \<times> string list) list \<Rightarrow> Registry" where
  "NewRegistry style pre overrides =
    (let preset = getPreset style;
         prefixStr = (if pre \<noteq> '''' then pre else spPrefix preset);
         placed = List.map_filter place (effectiveBindings preset prefixStr overrides);
         r = \<lparr>rgChordRoot = emptyNode, rgAlways = [], rgVirtual = Map.empty, rgBindings = [],
              PrefixKey = prefixKeyToByte prefixStr, PrefixStr = prefixStr,
              rgStyle = (if style = '''' then ''native'' else style)\<rparr>;
         r = fold (\<lambda>(_, _, _, p). addPlaced p) placed r
     in r\<lparr>rgBindings := concat (map (\<lambda>cat. map (bindingInfo prefixStr)
            (filter (\<lambda>(cmd, _). cmCategory cmd = cat) placed)) categories)\<rparr>)"

section \<open>The matcher\<close>

record Matcher =
  mtReg :: Registry
  inChord :: bool
  chord :: "string list"

datatype Action = Forward bytes | CommandAction string string

definition NewMatcher :: "Registry \<Rightarrow> Matcher" where
  "NewMatcher r = \<lparr>mtReg = r, inChord = False, chord = []\<rparr>"

definition resetChord :: "Matcher \<Rightarrow> Matcher" where
  "resetChord m = m\<lparr>inChord := False, chord := []\<rparr>"

definition byteToToken :: "char \<Rightarrow> string" where
  "byteToToken b =
    (if 0x20 \<le> byte b \<and> byte b \<le> 0x7e then [b]
     else if 0x01 \<le> byte b \<and> byte b \<le> 0x1a then ''ctrl+'' @ [byte_char (byte (CHR ''a'') + byte b - 1)]
     else '''')"

text \<open>The longest binding at the front of the input that is allowed now, the first of equal length.\<close>

definition matchAlways :: "Registry \<Rightarrow> bytes \<Rightarrow> bool \<Rightarrow> nat \<times> string \<times> string" where
  "matchAlways r s altScreen =
    fold (\<lambda>ab (best, cmd, args).
        if abWhen ab = ''normal-screen'' \<and> altScreen then (best, cmd, args)
        else if length (abRaw ab) > best \<and> has_prefix (abRaw ab) s
             then (length (abRaw ab), cmName (abCommand ab), abArgs ab)
             else (best, cmd, args))
      (rgAlways r) (0, '''', '''')"

definition flushForward :: "Action list \<times> bytes \<Rightarrow> Action list \<times> bytes" where
  "flushForward x = (case x of (out, fwd) \<Rightarrow> if len fwd > 0 then (out @ [Forward fwd], []) else (out, fwd))"

text \<open>A byte in chord mode.\<close>

definition chordByte :: "char \<Rightarrow> Matcher \<Rightarrow> Action list \<times> bytes \<Rightarrow> Matcher \<times> Action list \<times> bytes" where
  "chordByte b m x =
    (let tok = byteToToken b in
     if tok = '''' then (resetChord m, x)
     else (let m = m\<lparr>chord := chord m @ [tok]\<rparr> in
       case MatchChord (mtReg m) (chord m) of
         (Some (cmd, args), _) \<Rightarrow>
           (case flushForward x of (out, fwd) \<Rightarrow> (resetChord m, out @ [CommandAction (cmName cmd) args], fwd))
       | (None, True) \<Rightarrow> (m, x)
       | (None, False) \<Rightarrow> (resetChord m, x)))"

text \<open>The loop of \<open>Feed\<close> on the input left, with the actions and the bytes to forward so far.\<close>

function feedKeys :: "bool \<Rightarrow> bytes \<Rightarrow> Matcher \<Rightarrow> Action list \<times> bytes \<Rightarrow> Matcher \<times> Action list \<times> bytes" where
  "feedKeys alt [] m x = (m, x)"
| "feedKeys alt (b # bs) m x =
     (if inChord m then (case chordByte b m x of (m, x) \<Rightarrow> feedKeys alt bs m x)
      else (case matchAlways (mtReg m) (b # bs) alt of (n, cmd, args) \<Rightarrow>
        if n > 0 then
          (case flushForward x of (out, fwd) \<Rightarrow> feedKeys alt (drop n (b # bs)) m (out @ [CommandAction cmd args], fwd))
        else if b = PrefixKey (mtReg m) then feedKeys alt bs (m\<lparr>inChord := True, chord := []\<rparr>) x
        else feedKeys alt bs m (fst x, snd x @ [b])))"
  by pat_completeness auto

termination
  by (relation "measure (\<lambda>(alt, bs, m, x). length bs)") auto

definition Feed :: "bytes \<Rightarrow> bool \<Rightarrow> Matcher \<Rightarrow> Action list \<times> Matcher" where
  "Feed dat altScreen m =
    (case feedKeys altScreen dat m ([], []) of (m, x) \<Rightarrow> (fst (flushForward x), m))"

declare feedKeys.simps [simp del]

section \<open>The trie holds the last binding of each chord\<close>

lemma chordMatch_empty: "chordMatch ks emptyNode = (None, False)"
  by (cases ks) (simp_all add: len_def)

lemma update_not_Nil: "len (AList.update k v cs) > 0"
  by (cases cs) (auto simp: len_def)

lemma chordMatch_insert:
  "chordMatch qs (chordInsert ks b n) =
    (if qs = ks then Some b else fst (chordMatch qs n), snd (chordMatch qs n) \<or> strict_prefix qs ks)"
proof (induction ks b n arbitrary: qs rule: chordInsert.induct)
  case (1 b x cs)
  then show ?case by (cases qs) (auto split: option.splits)
next
  case (2 k ks b x cs)
  show ?case
  proof (cases qs)
    case Nil
    then show ?thesis by (simp add: update_not_Nil)
  next
    case (Cons q qs')
    then show ?thesis
      using 2 by (cases "map_of cs k") (auto simp: update_conv' chordMatch_empty split: option.split)
  qed
qed

lemma chordMatch_all:
  "chordMatch ks (fold (\<lambda>(k, b). chordInsert k b) bs n) =
    (case map_of (rev bs) ks of Some b \<Rightarrow> Some b | None \<Rightarrow> fst (chordMatch ks n),
     snd (chordMatch ks n) \<or> list_ex (\<lambda>(k, b). strict_prefix ks k) bs)"
proof (induction bs arbitrary: n)
  case (Cons x bs)
  obtain k b where x: "x = (k, b)" by (cases x)
  show ?case
    using Cons [of "chordInsert k b n"]
    by (auto simp: x chordMatch_insert map_of_append map_add_def split: option.split)
qed simp

definition boundChords :: "string \<Rightarrow> string \<Rightarrow> (string \<times> string list) list \<Rightarrow> (string list \<times> resolvedBinding) list" where
  "boundChords style pre overrides =
    (let preset = getPreset style; prefixStr = (if pre \<noteq> '''' then pre else spPrefix preset) in
     concat (map (\<lambda>(_, _, _, p). case p of Chord keys b \<Rightarrow> [(keys, b)] | _ \<Rightarrow> [])
       (List.map_filter place (effectiveBindings preset prefixStr overrides))))"

lemma addPlaced_root:
  "rgChordRoot (fold (\<lambda>(_, _, _, p). addPlaced p) xs r) =
   fold (\<lambda>(k, b). chordInsert k b)
     (concat (map (\<lambda>(_, _, _, p). case p of Chord keys b \<Rightarrow> [(keys, b)] | _ \<Rightarrow> []) xs)) (rgChordRoot r)"
proof (induction xs arbitrary: r)
  case (Cons x xs)
  obtain a b c p where x: "x = (a, b, c, p)" by (cases x)
  show ?case using Cons [of "addPlaced p r"] by (cases p) (simp_all add: x)
qed simp

lemma registry_chords:
  "chordMatch ks (rgChordRoot (NewRegistry style pre overrides)) =
    (map_of (rev (boundChords style pre overrides)) ks,
     list_ex (\<lambda>(k, b). strict_prefix ks k) (boundChords style pre overrides))"
  by (simp add: NewRegistry_def Let_def addPlaced_root chordMatch_all chordMatch_empty boundChords_def [unfolded Let_def]
      split: option.split)

section \<open>Input that arrives in pieces\<close>

text \<open>What a list of actions amounts to: the bytes forwarded and the commands, in order.\<close>

definition expand :: "Action list \<Rightarrow> (char + string \<times> string) list" where
  "expand acts = concat (map (\<lambda>a. case a of Forward bs \<Rightarrow> map Inl bs | CommandAction c args \<Rightarrow> [Inr (c, args)]) acts)"

definition spent :: "Action list \<times> bytes \<Rightarrow> (char + string \<times> string) list" where
  "spent x = expand (fst x) @ map Inl (snd x)"

lemma expand_append [simp]: "expand (xs @ ys) = expand xs @ expand ys" "expand [] = []"
  "expand [Forward bs] = map Inl bs" "expand [CommandAction c args] = [Inr (c, args)]"
  by (simp_all add: expand_def)

lemma flushForward_reads [simp]:
  "snd (flushForward x) = []" "expand (fst (flushForward x)) = spent x" "spent (flushForward x) = spent x"
  by (cases x; auto simp: flushForward_def spent_def len_def)+

lemma chordByte_spent:
  "\<exists>m' d. \<forall>x. fst (chordByte b m x) = m' \<and> spent (snd (chordByte b m x)) = spent x @ d"
proof (cases "byteToToken b = ''''")
  case True
  then show ?thesis by (auto simp: chordByte_def)
next
  case False
  let ?m = "m\<lparr>chord := chord m @ [byteToToken b]\<rparr>"
  show ?thesis
  proof (cases "MatchChord (mtReg ?m) (chord ?m)")
    case (Pair r p)
    then show ?thesis
      using False
      by (cases r; cases p) (auto simp: chordByte_def Let_def spent_def case_prod_unfold)
  qed
qed

lemma chordByte_reg: "mtReg (fst (chordByte b m x)) = mtReg m"
  by (auto simp: chordByte_def Let_def resetChord_def case_prod_unfold split: option.split bool.split)

lemma feedKeys_spent:
  "\<exists>m' d. \<forall>x. fst (feedKeys alt bs m x) = m' \<and> spent (snd (feedKeys alt bs m x)) = spent x @ d"
proof (induction "length bs" arbitrary: bs m rule: less_induct)
  case less
  show ?case
  proof (cases bs)
    case Nil
    then show ?thesis by (simp add: feedKeys.simps)
  next
    case (Cons b bs')
    obtain n cmd args where ma: "matchAlways (mtReg m) bs alt = (n, cmd, args)" by (metis prod_cases3)
    consider (chord) "inChord m" | (always) "\<not> inChord m" "n > 0"
      | (pre) "\<not> inChord m" "n = 0" "b = PrefixKey (mtReg m)" | (plain) "\<not> inChord m" "n = 0" "b \<noteq> PrefixKey (mtReg m)"
      by blast
    then show ?thesis
    proof cases
      case chord
      obtain m1 d1 where m1: "\<And>x. fst (chordByte b m x) = m1" "\<And>x. spent (snd (chordByte b m x)) = spent x @ d1"
        using chordByte_spent [of b m] by blast
      obtain m2 d2 where m2: "\<And>x. fst (feedKeys alt bs' m1 x) = m2" "\<And>x. spent (snd (feedKeys alt bs' m1 x)) = spent x @ d2"
        using less [of bs' m1] by (auto simp: Cons)
      show ?thesis
        using chord by (intro exI [of _ m2] exI [of _ "d1 @ d2"]) (simp add: Cons feedKeys.simps case_prod_unfold m1 m2)
    next
      case always
      obtain m2 d2 where m2: "\<And>x. fst (feedKeys alt (drop n bs) m x) = m2"
          "\<And>x. spent (snd (feedKeys alt (drop n bs) m x)) = spent x @ d2"
        using less [of "drop n bs" m] always(2) by (auto simp: Cons)
      show ?thesis
        using always ma
        by (intro exI [of _ m2] exI [of _ "Inr (cmd, args) # d2"])
          (simp add: Cons feedKeys.simps case_prod_unfold m2 [unfolded Cons], simp add: spent_def)
    next
      case pre
      obtain m2 d2 where m2: "\<And>x. fst (feedKeys alt bs' (m\<lparr>inChord := True, chord := []\<rparr>) x) = m2"
          "\<And>x. spent (snd (feedKeys alt bs' (m\<lparr>inChord := True, chord := []\<rparr>) x)) = spent x @ d2"
        using less [of bs' "m\<lparr>inChord := True, chord := []\<rparr>"] by (auto simp: Cons)
      show ?thesis
        using pre ma by (intro exI [of _ m2] exI [of _ d2]) (simp add: Cons feedKeys.simps m2)
    next
      case plain
      obtain m2 d2 where m2: "\<And>x. fst (feedKeys alt bs' m x) = m2" "\<And>x. spent (snd (feedKeys alt bs' m x)) = spent x @ d2"
        using less [of bs' m] by (auto simp: Cons)
      show ?thesis
        using plain ma
        by (intro exI [of _ m2] exI [of _ "Inl b # d2"]) (simp add: Cons feedKeys.simps m2, simp add: spent_def)
    qed
  qed
qed

text \<open>No always-binding allowed now lies across the cut: none starts in the first piece and ends in the second.\<close>

definition unsplit :: "Registry \<Rightarrow> bool \<Rightarrow> bytes \<Rightarrow> bytes \<Rightarrow> bool" where
  "unsplit r alt d1 d2 \<longleftrightarrow>
    list_all (\<lambda>ab. abWhen ab = ''normal-screen'' \<and> alt \<or>
      list_all (\<lambda>s. s = [] \<or> \<not> strict_prefix s (abRaw ab) \<or> \<not> prefix (abRaw ab) (s @ d2)) (suffixes d1)) (rgAlways r)"

lemma unsplit_iff:
  "unsplit r alt d1 d2 \<longleftrightarrow> (\<forall>ab s. ab \<in> set (rgAlways r) \<longrightarrow> \<not> (abWhen ab = ''normal-screen'' \<and> alt) \<longrightarrow>
     suffix s d1 \<longrightarrow> s \<noteq> [] \<longrightarrow> strict_prefix s (abRaw ab) \<longrightarrow> \<not> prefix (abRaw ab) (s @ d2))"
  unfolding unsplit_def list_all_iff in_set_suffixes [symmetric] by blast

lemma unsplit_suffix: "unsplit r alt d1 d2 \<Longrightarrow> suffix s d1 \<Longrightarrow> unsplit r alt s d2"
  unfolding unsplit_iff by (meson suffix_order.trans)

lemma has_prefix_prefix: "has_prefix p s = prefix p s"
  by (metis append_eq_conv_conj has_prefix_def prefix_def)

lemma matchAlways_append:
  assumes "unsplit r alt s t" "s \<noteq> []"
  shows "matchAlways r (s @ t) alt = matchAlways r s alt"
proof -
  have "has_prefix (abRaw ab) (s @ t) = has_prefix (abRaw ab) s"
    if "ab \<in> set (rgAlways r)" "\<not> (abWhen ab = ''normal-screen'' \<and> alt)" for ab
  proof -
    have "\<not> strict_prefix s (abRaw ab) \<or> \<not> prefix (abRaw ab) (s @ t)"
      using assms that suffix_order.refl unfolding unsplit_iff by blast
    then show ?thesis unfolding has_prefix_prefix by (auto simp: prefix_append strict_prefix_def)
  qed
  then show ?thesis unfolding matchAlways_def by (intro fold_cong) (auto split: prod.split)
qed

lemma matchAlways_length: "matchAlways r s alt = (n, cmd, args) \<Longrightarrow> n \<le> length s"
proof -
  have "fst (fold (\<lambda>ab (best, cmd, args).
        if abWhen ab = ''normal-screen'' \<and> alt then (best, cmd, args)
        else if length (abRaw ab) > best \<and> has_prefix (abRaw ab) s
             then (length (abRaw ab), cmName (abCommand ab), abArgs ab)
             else (best, cmd, args)) abs x) \<le> length s" if "fst x \<le> length s" for abs x
    using that
    by (induction abs arbitrary: x) (auto simp: has_prefix_prefix dest: prefix_length_le split: prod.split)
  from this [of "(0, '''', '''')" "rgAlways r"] show "matchAlways r s alt = (n, cmd, args) \<Longrightarrow> n \<le> length s"
    unfolding matchAlways_def by simp
qed

lemma feedKeys_append:
  "unsplit (mtReg m) alt d1 d2 \<Longrightarrow>
   feedKeys alt (d1 @ d2) m x = (case feedKeys alt d1 m x of (m, x) \<Rightarrow> feedKeys alt d2 m x)"
proof (induction "length d1" arbitrary: d1 m x rule: less_induct)
  case less
  show ?case
  proof (cases d1)
    case Nil
    then show ?thesis by (simp add: feedKeys.simps)
  next
    case d1: (Cons b bs)
    have IH: "feedKeys alt (d @ d2) m' x' = (case feedKeys alt d m' x' of (m, x) \<Rightarrow> feedKeys alt d2 m x)"
      if "length d < length d1" "mtReg m' = mtReg m" "suffix d d1" for d m' x'
      by (rule less.hyps) (use that unsplit_suffix [OF less.prems] in simp_all)
    have bs: "suffix bs d1" by (simp add: d1 suffix_ConsI)
    obtain n cmd args where ma: "matchAlways (mtReg m) d1 alt = (n, cmd, args)" by (metis prod_cases3)
    have ma': "matchAlways (mtReg m) (d1 @ d2) alt = (n, cmd, args)"
      using matchAlways_append [OF less.prems] ma by (simp add: d1)
    have d: "drop n (d1 @ d2) = drop n d1 @ d2" using matchAlways_length [OF ma] by simp
    consider (chord) "inChord m" | (always) "\<not> inChord m" "n > 0" | (plain) "\<not> inChord m" "n = 0" by blast
    then show ?thesis
    proof cases
      case chord
      then show ?thesis
        using IH [OF _ chordByte_reg bs] by (simp add: d1 feedKeys.simps case_prod_unfold)
    next
      case always
      have "feedKeys alt (drop n d1 @ d2) m y = (case feedKeys alt (drop n d1) m y of (m, x) \<Rightarrow> feedKeys alt d2 m x)" for y
        using always(2) by (intro IH) (simp_all add: d1 suffix_drop)
      then show ?thesis
        using always ma ma' d unfolding d1 by (simp add: feedKeys.simps case_prod_unfold)
    next
      case plain
      then show ?thesis
        using ma ma' IH [OF _ _ bs] unfolding d1 by (simp add: feedKeys.simps)
    qed
  qed
qed

text \<open>
  Only chords are kept between reads: the bytes of an always-active binding that arrive in two reads are
  forwarded instead of matched.
\<close>

lemma split_binding_lost:
  "let m = NewMatcher (NewRegistry ''native'' '''' []) in
   fst (Feed [escape, CHR ''.''] False m) = [CommandAction ''next-tab'' ''''] \<and>
   fst (Feed [escape] False m) = [Forward [escape]] \<and>
   fst (Feed ''.'' False (snd (Feed [escape] False m))) = [Forward ''.'']"
  by code_simp

text \<open>An upper-case prefix key is accepted, but the chord that sends the prefix is then never typed.\<close>

lemma upper_prefix_never_sent:
  "let r = NewRegistry ''native'' ''ctrl+B'' [] in
   PrefixKey r = CHR 0x02 \<and> fst (MatchChord r [''ctrl+B'']) \<noteq> None \<and>
   fst (Feed [CHR 0x02, CHR 0x02] False (NewMatcher r)) = []"
  by code_simp

end
