(* ===== verification/Demo.thy ===== *)
theory Demo
  imports TePaging ServerLoop
begin

text \<open>
  A concrete text library and a concrete screen of three rows of four letters, at which the
  properties are instantiated.
\<close>

definition ascii_lib :: textlib where
  "ascii_lib = \<lparr>graphemes = map (\<lambda>c. [c]), string_width = int \<circ> length, nfc = id, is_mark = (\<lambda>_. False)\<rparr>"

definition demo_cell :: "char \<Rightarrow> Cell" where
  "demo_cell c = \<lparr>Data = [c], CellAttr = plainAttr False\<rparr>"

definition demo :: Screen where
  "demo = (resetFields (zeroScreen\<lparr>Lines := 3, Columns := 4\<rparr>))\<lparr>Buffer :=
     map (map demo_cell) [''abcd'', ''efgh'', ''ijkl'']\<rparr>"

lemma demo_Buffer [simp]:
  "Buffer demo = [[demo_cell (CHR ''a''), demo_cell (CHR ''b''), demo_cell (CHR ''c''), demo_cell (CHR ''d'')],
     [demo_cell (CHR ''e''), demo_cell (CHR ''f''), demo_cell (CHR ''g''), demo_cell (CHR ''h'')],
     [demo_cell (CHR ''i''), demo_cell (CHR ''j''), demo_cell (CHR ''k''), demo_cell (CHR ''l'')]]"
  by (simp add: demo_def)

lemma demo_fields [simp]:
  "Lines demo = 3" "Columns demo = 4" "row demo = 0" "col demo = 0" "Mode demo = resetModes"
  "Margins demo = None" "altActive demo = False" "Savepoints demo = []" "wrapNext demo = False"
  by (simp_all add: demo_def resetFields_fields zeroScreen_def)

lemma demo_regions [simp]:
  "scrollRegion demo = (0, 2)" "horizontalMargins demo = (0, 3)" "isModeSet demo ModeDECLRMM = False"
  by (simp_all add: scrollRegion_def horizontalMargins_def isModeSet_def resetModes_def)

lemma demo_wf: "wf_screen demo"
proof -
  let ?z = "zeroScreen\<lparr>Lines := 3, Columns := 4\<rparr>"
  have "wf_screen (resetFields ?z)"
    by (rule resetFields_wf) (simp_all add: zeroScreen_def)
  moreover have "grid_ok (Lines (resetFields ?z)) (Columns (resetFields ?z)) (map (map demo_cell) [''abcd'', ''efgh'', ''ijkl''])"
    by (simp add: resetFields_fields grid_ok_def)
  ultimately show ?thesis unfolding demo_def by (rule wf_Buffer)
qed

text \<open>Two cells of the result of an operation described cell by cell.\<close>

lemma two_cells:
  "\<exists>t. r = Some t \<and> Q t \<and> (\<forall>y x. inside L C y x \<longrightarrow> cell_at (Buffer t) y x = F y x) \<Longrightarrow>
   inside L C y x \<Longrightarrow> inside L C y' x' \<Longrightarrow>
   \<exists>t. r = Some t \<and> cell_at (Buffer t) y x = F y x \<and> cell_at (Buffer t) y' x' = F y' x'"
  by blast

text \<open>The demo screen with room for \<open>n\<close> rows of scrollback.\<close>

definition demo_history :: "int \<Rightarrow> HistoryScreen" where
  "demo_history n = \<lparr>hscr = demo, history = \<lparr>HTop = \<lparr>items = [], dmax = n\<rparr>, HBottom = \<lparr>items = [], dmax = n\<rparr>,
     Ratio = 1 / 2, HSize = n, Position = n, TotalAdded = 0, FirstSeq = 0\<rparr>\<rparr>"

lemma demo_history_live:
  "0 \<le> n \<Longrightarrow> live (demo_history n)" "tracks [] (history (demo_history n))"
  "hscr (demo_history n) = demo" "HSize (history (demo_history n)) = n" "items (HTop (history (demo_history n))) = []"
  "items (HBottom (history (demo_history n))) = []" "TotalAdded (history (demo_history n)) = 0"
  by (simp_all add: demo_history_def live_def history_ok_def demo_wf len_def tracks_def)

text \<open>
  The same screen with margins over the whole width switched on and the cursor past the last column
  of the bottom row, a wrap pending.
\<close>

definition demo_margin :: "int \<Rightarrow> HistoryScreen" where
  "demo_margin n = (demo_history n)\<lparr>hscr := atRow 2 (atCol 4 (demo\<lparr>Mode := insert ModeDECLRMM resetModes,
     leftMargin := 0, rightMargin := 3, wrapNext := True\<rparr>))\<rparr>"

lemma demo_margin_fields [simp]:
  "hscr (demo_margin n) = atRow 2 (atCol 4 (demo\<lparr>Mode := insert ModeDECLRMM resetModes, leftMargin := 0,
     rightMargin := 3, wrapNext := True\<rparr>))"
  "history (demo_margin n) = history (demo_history n)"
  by (simp_all add: demo_margin_def)

lemma demo_margin_live: "0 \<le> n \<Longrightarrow> live (demo_margin n)"
  using demo_history_live(1) [of n] demo_wf
  by (simp add: live_def demo_history_def wf_screen_def resetModes_def atRow_def atCol_def)

text \<open>An event loop that has just started, and requests for it.\<close>

definition demo_region :: Region where
  "demo_region = \<lparr>rID = ''r1'', rName = ''sh'', rCmd = ''sh'', rPid = 42, rSession = '''', rNative = False, rDriver = None\<rparr>"

definition demo_loop :: "nat eventLoopState" where
  "demo_loop = initialLoop \<lparr>nVersion = ''1'', nHostname = ''host'', nPid = 1, nStartTime = 0, nSocketPath = ''''\<rparr> []"

definition demo_spawn :: "nat request" where
  "demo_spawn = spawnRegionReq demo_region \<lparr>gWidth = 80, gHeight = 24, gScrollbackLen = 0\<rparr> ''main''"

definition demo_requests :: "nat request list" where
  "demo_requests = [addClientReq 7 0, setUpgradeReq \<lparr>unActive = True, unPhase = ''starting'', unMessage = ''''\<rparr>, demo_spawn]"

lemma demo_loop_reachable: "loop_reachable demo_loop"
  unfolding demo_loop_def by (rule loop_reachable.start)

lemma demo_loop_ok: "loop_ok demo_loop"
  by (rule reachable_loop_ok [OF demo_loop_reachable])

lemma demo_requests_ok: "list_all names_ok demo_requests"
  by (simp add: demo_requests_def demo_spawn_def demo_region_def slashless_def)

end
