(* ===== verification/Spec2Isabelle.thy ===== *)
theory Spec2Isabelle
  imports TeReport TeEvent TeResize TeAlt TeStream TeFeed TeParse TeHistory TeScrollback TePaging TeHidden ServerProxy WireCells TuiReplay TeState ServerTree ServerLoop ServerActor TuiScreen NxCells NxMux NxKeymap Demo
begin

text \<open>
  Verification library for nxterm, a terminal multiplexer in Go: a server runs programs on terminals
  and keeps their screens, clients show them.

  \<^bold>\<open>The parts and how they interact.\<close> Bytes of a program reach a region's actor, which feeds them to the
  parser of \<open>pkg/te\<close> (\<open>Stream.FeedBytes\<close>). The parser calls the methods of its listener, an
  \<open>EventHandler\<close>; in the server that is the event proxy (\<open>internal/server/event_proxy.go\<close>), which
  forwards each call to the history screen and records it. After a chunk the actor flushes the proxy and
  sends the recorded events, or a snapshot of the screen, to the subscribed clients, which replay or
  load them into a history screen of their own (\<open>internal/tui/terminal.go\<close>). Beside it the event loop
  of the server (\<open>internal/server/server_requests.go\<close>) owns the tree of regions, sessions, programs and
  clients, and every client keeps a copy of that tree (\<open>internal/tui/tree.go\<close>). The repository also holds
  nx2, a second design whose guests are WebAssembly programs: its shell multiplexes terminals over one framed
  stream, matches keys and hands cell grids to the host.

  \<^bold>\<open>Theories and sources.\<close>
  \<^item> \<open>Prelude\<close>, \<open>GoStrings\<close>, \<open>Grid\<close>: slices and loops that may panic (\<open>returns\<close>, \<open>for_each\<close>), UTF-8 and
    \<open>strconv\<close>, cells of a grid. An index out of range, a write to a nil map and the like are \<open>None\<close>.
  \<^item> \<open>TeTypes\<close>, \<open>TeScreen\<close>, \<open>TeCursor\<close>, \<open>TeEdit\<close>, \<open>TeErase\<close>, \<open>TeSGR\<close>, \<open>TeModes\<close>, \<open>TeReset\<close>, \<open>TeDraw\<close>, \<open>TeReport\<close>:
    \<open>types.go\<close>, \<open>modes.go\<close>, \<open>control.go\<close>, \<open>charsets.go\<close>, \<open>graphics.go\<close> and \<open>screen.go\<close> of \<open>pkg/te\<close>, one
    definition per method of \<open>Screen\<close> under its name, over the record \<open>Screen\<close> with the fields of the
    struct. \<open>wf_screen\<close> is the invariant. \<open>TeEvent\<close> is the interface \<open>EventHandler\<close> as a datatype of calls
    and its implementation by \<open>Screen\<close>. \<open>TeAlt\<close> and \<open>TeResize\<close> hold the round trip of the alternate screen
    and the cells after a resize.
  \<^item> \<open>TeStream\<close>, \<open>TeFeed\<close>, \<open>TeParse\<close>: \<open>stream.go\<close> and \<open>byte_stream.go\<close>; the states of the parser, the
    functions that handle a rune in each, and the loop over a chunk with the incomplete rune it carries over. A
    handler that panics is an outcome of its own, since \<open>FeedBytes\<close> recovers it.
  \<^item> \<open>TeHistory\<close>, \<open>TeScrollback\<close>, \<open>TePaging\<close>: \<open>history_screen.go\<close>; the bounded queues, the events it
    overrides, paging and the resize that keeps the scrollback. \<open>tracks L\<close> says that the retained rows are a
    suffix of the log \<open>L\<close> and are numbered by it.
  \<^item> \<open>TeHidden\<close>: the fields that no operation on the displayed part of a screen reads (replies, palettes,
    selections), and that two screens which differ in them only stay so.
  \<^item> \<open>TeState\<close>: \<open>state.go\<close> and \<open>history_state.go\<close>, the state a live upgrade passes on as JSON.
  \<^item> \<open>ServerProxy\<close>, \<open>WireCells\<close>, \<open>TuiReplay\<close>: the proxy, the cells on the wire (\<open>cellToProtocol\<close> of
    \<open>region.go\<close>, \<open>protocolCellsToTe\<close> of \<open>terminal.go\<close>) and the replay of recorded events.
  \<^item> \<open>ServerActor\<close>: the actor of a region (\<open>actor.go\<close>) with the outgoing queue of a client (\<open>client.go\<close>):
    snapshots, broadcasts with their deltas, the repair of clients that fall behind, overlays, every message
    of the actor and the rounds of its loop. \<open>TuiScreen\<close>: what the client's terminal layer does with them.
  \<^item> \<open>ServerTree\<close>, \<open>ServerLoop\<close>: \<open>tree.go\<close> of the server, the protocol and the client, and the event loop.
  \<^item> \<open>NxFrames\<close>, \<open>NxCells\<close>, \<open>NxMux\<close>, \<open>NxKeymap\<close>: of the experimental nx2 the frames of the wire and the tab
    envelope (\<open>wire\<close>, \<open>sproto\<close>), the cell grid (\<open>cellgrid\<close>), the shell's multiplexer (\<open>shellmux\<close>) and its key
    bindings (\<open>keymap\<close>), with bytes as 8-bit words or characters.
  \<^item> \<open>Demo\<close>: the concrete screens and requests of the witnesses.

  \<^bold>\<open>What the lemmas show.\<close> C1 to C12 are about the screen: no event panics but a bad truecolour, what
  the editing, erasing and copying operations do to every cell, round trips of the alternate screen and the
  cursor, resize, tab stops, wide pairs. C13 to C20 are about the parser: a terminal is
  never corrupted by its input, the only cause of an error, the bounds of its buffers, numbers
  read back as sent, runes split between chunks, titles, the recovery after CAN. C21 to C27 are about the
  scrollback: a log that only grows, which events log a row and which do not, shrinking, paging. C28 to
  C30 follow the events to the client; C31 and C32 are the live upgrade; C33 and C34 the tree and the
  event loop; C35 is the way back of a client by a snapshot and C36 that of a client that reads too slowly.
  C37 to C40 are the nx2 shell: its multiplexer, the cell grid, the chords and the key matcher.
  The theories' locales state the interfaces: \<open>listener_contract\<close> what the parser needs of
  its listener, \<open>history_invariant\<close> what an invariant of the history screen has to respect, \<open>transaction\<close>
  what may run in a transaction of the tree, \<open>framing\<close> what a reader of frames needs of their coding; each is
  interpreted on the model's definitions.

  \<^bold>\<open>Bounds and termination.\<close> No definition has fuel: the loop of the parser is a recursion on the
  remaining bytes, the loop back to the live view is a \<open>partial_function\<close> whose return is C26, the others are
  structural or have a measure. The limits of the code (parameters up to 9999, control strings of
  \<open>maxStringPayload\<close> bytes, batches of 65536 events, 256 markers) are the model's.

  \<^bold>\<open>What is not modelled, and why.\<close> Go's \<open>int\<close> is the unbounded \<open>int\<close>: the parser bounds every number it
  delivers, so that no sum gets near 64 bits; the numbers of scrollback rows are 64-bit words. Grapheme
  segmentation, widths and normalisation are library functions and a parameter (\<open>textlib\<close>). A call that
  panics leaves the caller's state, so the state after a recovered panic is exact only as far as the invariant
  goes. Strings that reach JSON are valid UTF-8, and JSON is the identity on them. \<open>%q\<close> in
  the texts of errors takes runes above ASCII for printable. The ratio of the history is a rational. Goroutines, sockets, PTYs, configuration files, rendering, the vendored
  Bubble Tea and ultraviolet packages, the WebAssembly hosts and guests of nx2 and the test drivers are input and
  output around library calls.
\<close>

section \<open>The screen\<close>

text \<open>
  C1. No event of the parser makes the emulator panic, apart from a truecolour SGR with a component
  above 255: a screen reached from \<open>NewScreen\<close> by any sequence of events and resizes is well-formed,
  and on it every safe event returns a well-formed screen again.
\<close>

theorem events_never_panic:
  "screen_reachable E s \<Longrightarrow> wf_screen s \<and> (event_safe e \<longrightarrow> returns wf_screen (screen_handle E e s))"
  using screen_reachable_wf screen_handle_safe by blast

theorem events_never_panic_witness:
  "\<exists>s t. NewScreen 4 3 = Some s \<and> screen_handle ascii_lib (Motion EvLineFeed) s = Some t \<and> wf_screen t"
proof -
  obtain s where s: "NewScreen 4 3 = Some s" using NewScreen_wf [of 3 4] by (auto simp: returns_ex)
  then show ?thesis
    using events_never_panic [OF screen_reachable.start [OF s, of ascii_lib], of "Motion EvLineFeed"]
    by (auto simp: returns_ex)
qed

text \<open>
  \<open>NewScreen\<close> succeeds for any arguments, with each dimension at least one: the screen is
  well-formed and blank, the cursor is at the origin, and exactly autowrap, the visible cursor and
  the 80-to-132 switch are set.
\<close>

theorem new_screen_blank:
  "\<exists>s. NewScreen cols lines = Some s \<and> wf_screen s \<and> Lines s = max 1 lines \<and> Columns s = max 1 cols \<and>
     Buffer s = makeBlankCells (Lines s) (Columns s) \<and> row s = 0 \<and> col s = 0 \<and>
     Mode s = {ModeDECAWM, ModeDECTCEM, ModeAllow80To132} \<and> \<not> altActive s"
proof -
  obtain s where s: "NewScreen cols lines = Some s" "wf_screen s" "Lines s = max 1 lines" "Columns s = max 1 cols"
    using NewScreen_wf [of lines cols] by (auto simp: returns_ex)
  then obtain t where "s = resetFields t"
    by (auto simp: NewScreen_def Reset_def bind_eq_Some_conv)
  with s show ?thesis by (intro exI [of _ s]) (simp add: resetFields_fields resetModes_def)
qed

text \<open>
  C2. \<open>SelectGraphicRendition\<close> on a truecolour foreground panics exactly when one of the three
  components does not fit a byte: \<open>toHex\<close> indexes its digit table without a check.
\<close>

theorem truecolour_panics:
  "SelectGraphicRendition [38, 2, r, g, b] False s = None \<longleftrightarrow>
   \<not> (0 \<le> r \<and> r \<le> 255 \<and> 0 \<le> g \<and> g \<le> 255 \<and> 0 \<le> b \<and> b \<le> 255)"
  using sgrLoop_truecolor [of 38 "defaultAttr s" r g b "CurAttr (Cursor s)"]
  by (simp add: SelectGraphicRendition_def is_extended_def byte_range_def bind_eq_None_conv)

text \<open>
  C3. \<open>ScrollUp\<close> moves the cells of the scroll region (top and bottom margins, left and right
  margins) up by the clamped count, fills the rows uncovered with default cells, and leaves every
  other cell and the cursor alone.
\<close>

theorem scroll_up_cells:
  assumes "wf_screen s" "scrollRegion s = (tp, bt)" "horizontalMargins s = (left, right)"
    and "n = min (at_least_1 (first_param 1 params)) (bt - tp + 1)"
  shows "\<exists>t. ScrollUp params s = Some t \<and> Cursor t = Cursor s \<and>
    (\<forall>y x. inside (Lines s) (Columns s) y x \<longrightarrow> cell_at (Buffer t) y x =
      (if tp \<le> y \<and> y \<le> bt \<and> left \<le> x \<and> x \<le> right
       then (if y + n \<le> bt then cell_at (Buffer s) (y + n) x else defaultCell s)
       else cell_at (Buffer s) y x))"
  using paints_ex [OF ScrollUp_paints [OF assms(1-3), of params], of s]
  unfolding assms(4) up_by_def by simp

theorem scroll_up_cells_witness:
  "\<exists>t. ScrollUp [1] demo = Some t \<and> cell_at (Buffer t) 0 0 = demo_cell (CHR ''e'') \<and>
     cell_at (Buffer t) 2 3 = defaultCell demo"
  using two_cells [OF scroll_up_cells [OF demo_wf demo_regions(1,2) refl, of "[1]"], of 0 0 2 3]
  by (simp add: first_param_def at_least_1_def inside_def cell_at_def)

text \<open>
  C4. \<open>InsertLines\<close> with the cursor inside the margins moves the rows from the cursor down to
  the bottom margin down by the clamped count, blanks the rows uncovered, and leaves every other
  cell alone.
\<close>

theorem insert_lines_cells:
  assumes "wf_screen s" "scrollRegion s = (tp, bt)" "horizontalMargins s = (left, right)"
    and "tp \<le> row s" "row s \<le> bt" "isModeSet s ModeDECLRMM \<Longrightarrow> left \<le> col s \<and> col s \<le> right"
    and "n = min (at_least_1 (first_param 1 params)) (bt - row s + 1)"
  shows "\<exists>t. InsertLines params s = Some t \<and> row t = row s \<and>
    (\<forall>y x. inside (Lines s) (Columns s) y x \<longrightarrow> cell_at (Buffer t) y x =
      (if row s \<le> y \<and> y \<le> bt \<and> left \<le> x \<and> x \<le> right
       then (if row s \<le> y - n then cell_at (Buffer s) (y - n) x else defaultCell s)
       else cell_at (Buffer s) y x))"
proof -
  from InsertLines_paints [OF assms(1-6), of params]
  obtain u where u: "InsertLines params s = Some (CarriageReturn u)"
    "paints ({row s..bt} \<times> {left..right}) (down_by n (row s) (defaultCell s) (Buffer s))
       (markDirtyRange (row s) (Lines s - 1) s) u"
    by (auto simp: returns_ex assms(7))
  from paints_ex [of _ _ _ "Some u" s] u(2)
  show ?thesis unfolding u(1) by (simp add: CarriageReturn_reads down_by_def)
qed

theorem insert_lines_cells_witness:
  "\<exists>t. InsertLines [1] demo = Some t \<and> cell_at (Buffer t) 1 0 = demo_cell (CHR ''a'') \<and>
     cell_at (Buffer t) 0 0 = defaultCell demo"
  using two_cells [OF insert_lines_cells [OF demo_wf demo_regions(1,2) _ _ _ refl, of "[1]"], of 1 0 0 0]
  by (simp add: first_param_def at_least_1_def inside_def cell_at_def)

text \<open>
  C5. \<open>DeleteCharacters\<close> with the cursor inside the margins moves the cells right of the cursor
  left by the clamped count within the right margin, blanks the cells uncovered, and leaves every
  other cell alone.
\<close>

theorem delete_characters_cells:
  assumes "wf_screen s" "scrollRegion s = (tp, bt)" "horizontalMargins s = (left, right)"
    and "left \<le> col s" "col s \<le> right" "isModeSet s ModeDECLRMM \<Longrightarrow> tp \<le> row s \<and> row s \<le> bt"
    and "n = min (at_least_1 (first_param 1 params)) (right - col s + 1)"
  shows "\<exists>t. DeleteCharacters params s = Some t \<and> Cursor t = Cursor s \<and>
    (\<forall>y x. inside (Lines s) (Columns s) y x \<longrightarrow> cell_at (Buffer t) y x =
      (if y = row s \<and> col s \<le> x \<and> x \<le> right
       then (if x + n \<le> right then cell_at (Buffer s) y (x + n) else defaultCell s)
       else cell_at (Buffer s) y x))"
  using paints_ex [OF DeleteCharacters_paints [OF assms(1-6), of params], of s]
  unfolding assms(7) gap_closed_def by simp

theorem delete_characters_cells_witness:
  "\<exists>t. DeleteCharacters [2] demo = Some t \<and> cell_at (Buffer t) 0 0 = demo_cell (CHR ''c'') \<and>
     cell_at (Buffer t) 0 3 = defaultCell demo"
  using two_cells [OF delete_characters_cells [OF demo_wf demo_regions(1,2) _ _ _ refl, of "[2]"], of 0 0 0 3]
  by (simp add: first_param_def at_least_1_def inside_def cell_at_def)

text \<open>
  C6. \<open>eraseInDisplay\<close> replaces exactly the cells its parameter selects, after, before or around
  the cursor, by blanks in the current background, except for the cells protected by SPA (plain
  form) or by DECSCA (private form).
\<close>

theorem erase_in_display_cells:
  assumes "wf_screen s" "\<not> (how = 3 \<and> sel)"
  shows "\<exists>t. eraseInDisplay how private sel s = Some t \<and> Cursor t = Cursor s \<and>
    (\<forall>y x. inside (Lines s) (Columns s) y x \<longrightarrow> cell_at (Buffer t) y x =
      (if (how = 0 \<and> (row s < y \<or> y = row s \<and> col s \<le> x) \<or>
           how = 1 \<and> (y < row s \<or> y = row s \<and> x \<le> col s) \<or> how = 2 \<or> how = 3)
          \<and> \<not> (if private then Protected else ISOProtected) (CellAttr (cell_at (Buffer s) y x))
       then \<lparr>Data = '' '', CellAttr = bceAttr s\<rparr> else cell_at (Buffer s) y x))"
proof -
  from eraseInDisplay_paints [OF assms refl, of "private"]
  obtain t d where t: "eraseInDisplay how private sel s = Some t"
    "paints ((if (if how = 3 then 2 else how) = 0 \<or> (if how = 3 then 2 else how) = 1
          then {row s} \<times> erase_cols (if how = 3 then 2 else how) s else {}) \<union>
        erase_rows (if how = 3 then 2 else how) s \<times> {0..Columns s - 1})
      (\<lambda>r c. erased private (erasedCell s) (cell_at (Buffer s) r c)) (s\<lparr>Dirty := d\<rparr>) t"
    unfolding returns_ex by blast
  from paints_ex [of _ _ _ "Some t" s] t(2)
  have "Cursor t = Cursor s"
    "\<And>y x. inside (Lines s) (Columns s) y x \<Longrightarrow> cell_at (Buffer t) y x =
      (if (y, x) \<in> (if (if how = 3 then 2 else how) = 0 \<or> (if how = 3 then 2 else how) = 1
          then {row s} \<times> erase_cols (if how = 3 then 2 else how) s else {}) \<union>
        erase_rows (if how = 3 then 2 else how) s \<times> {0..Columns s - 1}
       then erased private (erasedCell s) (cell_at (Buffer s) y x) else cell_at (Buffer s) y x)"
    by simp_all
  then show ?thesis
    unfolding t(1)
    by (intro exI [of _ t]) (auto simp: inside_def erased_def erasedCell_def is_protected_def erase_cols_def erase_rows_def)
qed

theorem erase_in_display_cells_witness:
  "\<exists>t. eraseInDisplay 2 False False demo = Some t \<and>
     cell_at (Buffer t) 1 2 = \<lparr>Data = '' '', CellAttr = bceAttr demo\<rparr>"
  using two_cells [OF erase_in_display_cells [OF demo_wf, of 2 False False], of 1 2 1 2]
  by (simp add: inside_def cell_at_def demo_cell_def plainAttr_def)

text \<open>
  C7. \<open>CopyRectangle\<close> writes at the destination the cells the source rectangle had before the
  call, also where the two overlap or the destination is cut at the edge of the screen, and leaves
  every other cell alone.
\<close>

theorem copy_rectangle_cells:
  assumes "wf_screen s" "clipRect s t0 l0 b0 r0 = Some (tp, left, bt, right)" "tp \<le> bt" "left \<le> right"
    and "rect_origin s = (dy, dx)"
    and "y0 = (if dT0 \<le> 0 then 1 else dT0) + dy - 1" "x0 = (if dL0 \<le> 0 then 1 else dL0) + dx - 1"
  shows "\<exists>t. CopyRectangle t0 l0 b0 r0 dT0 dL0 s = Some t \<and> Cursor t = Cursor s \<and>
    (\<forall>y x. inside (Lines s) (Columns s) y x \<longrightarrow> cell_at (Buffer t) y x =
      (if y0 \<le> y \<and> y \<le> y0 + (bt - tp) \<and> x0 \<le> x \<and> x \<le> x0 + (right - left)
       then cell_at (Buffer s) (tp - 1 + (y - y0)) (left - 1 + (x - x0)) else cell_at (Buffer s) y x))"
  using paints_ex [OF CopyRectangle_paints [OF assms], of s] by simp

theorem copy_rectangle_cells_witness:
  "\<exists>t. CopyRectangle 1 1 2 2 2 2 demo = Some t \<and> cell_at (Buffer t) 1 1 = demo_cell (CHR ''a'') \<and>
     cell_at (Buffer t) 2 2 = demo_cell (CHR ''f'')"
proof -
  have "clipRect demo 1 1 2 2 = Some (1, 1, 2, 2)" "rect_origin demo = (0, 0)"
    by (simp_all add: clipRect_def rect_origin_def Let_def)
  from two_cells [OF copy_rectangle_cells [OF demo_wf this(1) _ _ this(2) refl refl, of 2 2], of 1 1 2 2]
  show ?thesis by (simp add: inside_def cell_at_def)
qed

text \<open>
  C8. Entering the alternate screen with mode 1049 and leaving it again brings back the buffer, the
  cursor, the savepoints and the wrap state, whatever the program did to the visible screen in
  between; only a cursor past the last column, which a full line leaves there with the wrap pending,
  comes back on the last column, the wrap still pending.
\<close>

theorem alt_screen_roundtrip:
  assumes "wf_screen s" "\<not> altActive s"
    and "applySetMode 1049 True s = Some t" "same_hidden t t'" "applyResetMode 1049 True t' = Some u"
  shows "Buffer u = Buffer s \<and> Cursor u = (Cursor s)\<lparr>Col := min (col s) (Columns s - 1)\<rparr> \<and>
    Savepoints u = Savepoints s \<and> lineWrapped u = lineWrapped s \<and> wrapNext u = wrapNext s \<and> \<not> altActive u"
proof -
  define s1 where "s1 = s\<lparr>Mode := insert ModeAltBufCursor (Mode s)\<rparr>"
  define t1 where "t1 = t'\<lparr>Mode := Mode t' - {ModeAltBufCursor}\<rparr>"
  have s1: "\<not> altActive s1" "Buffer s1 = Buffer s" "Savepoints s1 = Savepoints s" "Lines s1 = Lines s"
    "Columns s1 = Columns s" "lineWrapped s1 = lineWrapped s" "wrapNext s1 = wrapNext s" "Cursor s1 = Cursor s"
    using assms(2) by (simp_all add: s1_def)
  have t: "t = enterAltScreen True True True s1" and u: "u = exitAltScreen True True t1"
    using assms(3,5) by (simp_all add: applySetMode_alt applyResetMode_alt s1_def t1_def)
  have h: "altActive t1" "altBuffer t1 = Buffer s" "altSavepoints t1 = Savepoints s" "altLineWrapped t1 = lineWrapped s"
    "altWrapNext t1 = wrapNext s" "altSavedCursor t1 = Some (Cursor s)" "Lines t1 = Lines s" "Columns t1 = Columns s"
    using assms(4) enterAltScreen_hidden [OF s1(1), of True True] s1
    unfolding same_hidden_def t [symmetric] t1_def by simp_all
  have "row s < Lines s" using assms(1) by (simp add: wf_screen_def)
  then show ?thesis
    unfolding u using exitAltScreen_restores [OF h(1,6), of True] h by simp
qed

theorem alt_screen_roundtrip_witness:
  "\<exists>t u. applySetMode 1049 True demo = Some t \<and> applyResetMode 1049 True (t\<lparr>Buffer := []\<rparr>) = Some u \<and>
     Buffer u = Buffer demo \<and> Cursor u = Cursor demo"
proof -
  obtain t where t: "applySetMode 1049 True demo = Some t" by (simp add: applySetMode_alt)
  obtain u where u: "applyResetMode 1049 True (t\<lparr>Buffer := []\<rparr>) = Some u" by (simp add: applyResetMode_alt)
  have "same_hidden t (t\<lparr>Buffer := []\<rparr>)" by (simp add: same_hidden_def)
  from alt_screen_roundtrip [OF demo_wf _ t this u] t u show ?thesis by auto
qed

text \<open>
  C9. DECRC after DECSC brings back the attributes and the visibility of the cursor, the character
  sets, origin mode and the pending-wrap flag, whatever was drawn in between, and leaves the stack of
  savepoints as it was before DECSC. The position comes back within bounds: the column on the last one
  when the cursor was past it, the row within the margins when some are set by then.
\<close>

theorem cursor_save_restore:
  assumes "wf_screen s" "wf_screen t"
    and t: "Savepoints t = Savepoints (SaveCursorDEC s)" "Lines t = Lines s" "Columns t = Columns s"
  shows "\<exists>u. RestoreCursorDEC t = Some u \<and>
    Cursor u = (Cursor s)\<lparr>
      Row := (case Margins t of None \<Rightarrow> row s | Some m \<Rightarrow> min (Bottom m) (max (Top m) (row s))),
      Col := min (col s) (Columns s - 1)\<rparr> \<and>
    G0 u = G0 s \<and> G1 u = G1 s \<and>
    Charset u = Charset s \<and> wrapNext u = wrapNext s \<and> Savepoints u = Savepoints s \<and>
    Buffer u = Buffer t \<and> (ModeDECOM \<in> Mode u \<longleftrightarrow> ModeDECOM \<in> Mode s)"
proof -
  define p where "p = \<lparr>SpCursor = Cursor s, SpG0 = G0 s, SpG1 = G1 s, SpCharset = Charset s,
     SpOrigin = isModeSet s ModeDECOM, SpWrap = False, SpWrapNext = wrapNext s, SpSavedCol = SavedColumns s\<rparr>"
  have sp: "Savepoints t = Savepoints s @ [p]"
    using t(1) by (simp add: SaveCursorDEC_def saveCursorState_def p_def Let_def)
  define t1 where "t1 = t\<lparr>Savepoints := Savepoints s, G0 := G0 s, G1 := G1 s, Charset := Charset s\<rparr>"
  define M where "M = (if ModeDECOM \<in> Mode s then insert ModeDECOM (Mode t) else Mode t - {ModeDECOM})"
  obtain c w where cp: "CursorPosition [0, 0] (t1\<lparr>Mode := M\<rparr>) = t1\<lparr>Mode := M, Cursor := c, wrapNext := w\<rparr>"
    using CursorPosition_shape [of "[0, 0]" "t1\<lparr>Mode := M\<rparr>"] by auto
  have om: "(if SpOrigin p then setPlainMode ModeDECOM t1 else resetPlainMode ModeDECOM t1) =
      Some (t1\<lparr>Mode := M, Cursor := c, wrapNext := w\<rparr>)"
    unfolding plain_modes cp [symmetric] by (simp add: p_def M_def isModeSet_def t1_def)
  define v where "v = t1\<lparr>Mode := M, wrapNext := wrapNext s, Cursor := Cursor s\<rparr>"
  have "ModeDECLRMM \<in> M \<longleftrightarrow> ModeDECLRMM \<in> Mode t" by (simp add: M_def)
  then have v: "row v < Lines v" "0 \<le> row v" "0 \<le> col v" "1 \<le> Columns v"
    "ModeDECLRMM \<in> Mode v \<Longrightarrow> leftMargin v \<le> rightMargin v \<and> rightMargin v < Columns v"
    and read: "Margins v = Margins t" "Cursor v = Cursor s" "Columns v = Columns s"
    using assms by (auto simp: v_def t1_def wf_screen_def)
  note ens = ensured_cursor [OF v]
  define u where "u = v\<lparr>Cursor := (Cursor s)\<lparr>
      Row := (case Margins t of None \<Rightarrow> row s | Some m \<Rightarrow> min (Bottom m) (max (Top m) (row s))),
      Col := min (col s) (Columns s - 1)\<rparr>\<rparr>"
  have pf: "SpG0 p = G0 s" "SpG1 p = G1 s" "SpCharset p = Charset s" "SpWrapNext p = wrapNext s" "SpCursor p = Cursor s"
    by (simp_all add: p_def)
  have "RestoreCursorDEC t = do {
      s \<leftarrow> (if SpOrigin p then setPlainMode ModeDECOM t1 else resetPlainMode ModeDECOM t1);
      Some (ensureVB True (ensureHB (s\<lparr>wrapNext := SpWrapNext p, Cursor := SpCursor p\<rparr>))) }"
    unfolding RestoreCursorDEC_def restoreCursorState_def sp t1_def pf(1-3) [symmetric]
    by (simp add: Let_def del: ModeDECOM_def plain_modes split del: if_split)
  also have "\<dots> = Some (ensureVB True (ensureHB v))"
    unfolding om pf by (simp add: v_def)
  also have "\<dots> = Some u" using ens read by (simp add: u_def cong: option.case_cong)
  finally have "RestoreCursorDEC t = Some u" .
  then show ?thesis by (simp add: u_def v_def t1_def M_def)
qed

theorem cursor_save_restore_witness:
  "\<exists>u. RestoreCursorDEC (atRow 2 (SaveCursorDEC demo)) = Some u \<and> Cursor u = Cursor demo"
proof -
  have "wf_screen (atRow 2 (SaveCursorDEC demo))"
    using demo_wf by (auto simp: SaveCursorDEC_def saveCursorState_def atRow_def Let_def wf_screen_def savepoint_ok_def)
  moreover have "Savepoints (atRow 2 (SaveCursorDEC demo)) = Savepoints (SaveCursorDEC demo)"
    "Lines (atRow 2 (SaveCursorDEC demo)) = Lines demo" "Columns (atRow 2 (SaveCursorDEC demo)) = Columns demo"
    "Margins (atRow 2 (SaveCursorDEC demo)) = None"
    by (simp_all add: SaveCursorDEC_def saveCursorState_def atRow_def Let_def resetModes_def)
  ultimately show ?thesis using cursor_save_restore [OF demo_wf, of "atRow 2 (SaveCursorDEC demo)"] by auto
qed

text \<open>
  C10. Without margins, \<open>Resize\<close> sets the dimensions asked for, each at least one: growing keeps
  every cell in place and pads with default cells; shrinking drops the surplus rows at the top and
  the surplus columns at the right.
\<close>

theorem resize_cells:
  assumes "wf_screen s" "Margins s = None" "ModeDECLRMM \<notin> Mode s"
    and "l = max 1 lines" "c = max 1 columns" "d = max 0 (Lines s - l)"
  shows "\<exists>t. Resize lines columns s = Some t \<and> wf_screen t \<and> Lines t = l \<and> Columns t = c \<and>
    (\<forall>y x. inside l c y x \<longrightarrow> cell_at (Buffer t) y x =
      (if y + d < Lines s \<and> x < Columns s then cell_at (Buffer s) (y + d) x else defaultCell s))"
  using Resize_cells [OF assms] by (simp add: returns_ex)

theorem resize_cells_witness:
  "\<exists>t. Resize 2 6 demo = Some t \<and> cell_at (Buffer t) 0 0 = demo_cell (CHR ''e'') \<and>
     cell_at (Buffer t) 1 5 = defaultCell demo"
proof -
  have "inside 2 6 0 0" "inside 2 6 1 5" by (simp_all add: inside_def)
  with resize_cells [OF demo_wf _ _ refl refl refl, of 2 6]
  obtain t where "Resize 2 6 demo = Some t"
    "cell_at (Buffer t) 0 0 = cell_at (Buffer demo) 1 0" "cell_at (Buffer t) 1 5 = defaultCell demo"
    by (auto simp: resetModes_def)
  then show ?thesis by (simp add: cell_at_def)
qed

text \<open>
  C11. The exchange sort of \<open>sortedStops\<close> returns the sorted list of its argument, so the order in
  which Go iterates over the set of tab stops does not matter.
\<close>

theorem tab_stops_sorted: "sortedStops vs = sort vs"
  by (rule sortedStops_sort)

text \<open>
  C12. A row in which every wide character is followed by its empty continuation cell, and every empty
  cell continues a wide one, keeps this shape when \<open>Draw\<close> writes a cluster of width one into it at
  any column, or one of width two at any column but the last, also over half of an existing pair. A
  wide cluster in the last column, where \<open>Draw\<close> puts it on the last line, is the one exception: it has
  no continuation, while the rest of the row keeps the shape. Writing elsewhere neither adds such a
  half at the end of a row nor leaves one that it touches.
\<close>

theorem writes_keep_pairs:
  assumes "pairs_ok E line" "sane_widths E" "0 \<le> c" "c < int (length line)"
  shows "(string_width E cluster = 1 \<longrightarrow>
       returns (\<lambda>l. pairs_ok E l \<and> (wide E (last l) \<longleftrightarrow> wide E (last line) \<and> c + 1 < int (length line)))
         (writeNarrow E cluster attr c line)) \<and>
    (string_width E cluster = 2 \<longrightarrow>
       returns (\<lambda>l. pairs_ok E l \<and> (wide E (last l) \<longleftrightarrow>
           c + 1 = int (length line) \<or> wide E (last line) \<and> c + 2 < int (length line)))
         (writeWide E (int (length line)) cluster attr c line))"
  using writeNarrow_pairs [OF assms] writeWide_pairs [OF assms] by blast

theorem writes_keep_pairs_witness:
  "returns (\<lambda>l. pairs_ok (ascii_lib\<lparr>string_width := \<lambda>d. if d = ''W'' then 2 else int (length d)\<rparr>) l \<and>
       \<not> wide (ascii_lib\<lparr>string_width := \<lambda>d. if d = ''W'' then 2 else int (length d)\<rparr>) (last l))
     (writeWide (ascii_lib\<lparr>string_width := \<lambda>d. if d = ''W'' then 2 else int (length d)\<rparr>) 2 ''W''
       (plainAttr False) 0 [demo_cell (CHR ''a''), demo_cell (CHR ''b'')])"
  using writes_keep_pairs [of "ascii_lib\<lparr>string_width := \<lambda>d. if d = ''W'' then 2 else int (length d)\<rparr>"
      "[demo_cell (CHR ''a''), demo_cell (CHR ''b'')]" 0 "''W''" "plainAttr False"]
  by (simp add: pairs_ok_def sane_widths_def wide_def demo_cell_def less_Suc_eq)

text \<open>
  A title set in hexadecimal is read back: \<open>decodeHexString\<close> inverts \<open>encodeHexString\<close> on every
  byte string.
\<close>

theorem hex_title_roundtrip: "decodeHexString (encodeHexString t) = Some t"
  by (rule decode_encodeHex)

text \<open>
  Setting the ANSI mode numbered \<open>32 * n\<close> does what setting the DEC private mode \<open>n\<close> does: the
  shifted keys of the mode map are not disjoint from the ANSI numbers a program can send.
\<close>

theorem ansi_mode_collides: "applySetMode (32 * n) False s = applySetMode n True s"
  by (simp add: applySetMode_def applySetMode_body_def mult.commute)

section \<open>The parser\<close>

text \<open>
  C13. Whatever bytes arrive, in whatever chunks, the parser and the screen behind it stay
  well-formed: also after a chunk whose handler panicked and was recovered.
\<close>

theorem terminal_never_corrupted:
  assumes "NewScreen cols lines = Some s"
    and "feedChunks (screenListener E) chunks (NewStream True strict, s) = (st', s')"
  shows "stream_ok st' \<and> wf_screen s'"
proof -
  have "wf_screen s" using assms(1) NewScreen_wf [of lines cols] by (auto simp: returns_ex)
  then show ?thesis
    using feedChunks_wf [of "(NewStream True strict, s)" E chunks] unfolding assms(2)
    by (simp add: NewStream_def stream_ok_Attach)
qed

theorem terminal_never_corrupted_witness:
  "\<exists>s st' s'. NewScreen 4 3 = Some s \<and>
     feedChunks (screenListener ascii_lib) [''ab'', ''c''] (NewStream True True, s) = (st', s') \<and> wf_screen s'"
proof -
  obtain s where s: "NewScreen 4 3 = Some s" using NewScreen_wf [of 3 4] by (auto simp: returns_ex)
  obtain st' s' where "feedChunks (screenListener ascii_lib) [''ab'', ''c''] (NewStream True True, s) = (st', s')"
    by (cases "feedChunks (screenListener ascii_lib) [''ab'', ''c''] (NewStream True True, s)")
  with terminal_never_corrupted [OF s this] s show ?thesis by blast
qed

text \<open>
  C14. \<open>FeedBytes\<close> on a well-formed screen fails for one reason only: the last event delivered was an
  SGR with a truecolour component above 255. The parser is then back in the ground state.
\<close>

theorem feed_error_cause:
  assumes "wf_screen s" "stream_ok st" "stAttached st"
    and "FeedBytes (recording (screenListener E)) data (st, (s, [])) = (Some err, (st', (s', es)))"
  shows "err = HandlerPanic \<and> es \<noteq> [] \<and> \<not> event_safe (last es) \<and> wf_screen s' \<and> pstate st' = stateGround"
  using recorded.FeedBytes_good [of "(st, (s, []))" E data "Some err" "(st', (s', es))"] assms by auto

theorem feed_error_cause_witness:
  "\<exists>st' s' es. FeedBytes (recording (screenListener ascii_lib)) (csi [38, 2, 300, 0, 0] (CHR ''m''))
     (NewStream True True, (demo, [])) = (Some HandlerPanic, (st', (s', es))) \<and> \<not> event_safe (last es)"
proof -
  let ?e = "Setting (EvSelectGraphicRendition [38, 2, 300, 0, 0] False)"
  define st' where "st' = (resetCSI (NewStream True True))\<lparr>stParams := [38, 2, 300, 0, 0],
    paramStrings := map show_int [38, 2, 300, 0, 0]\<rparr>"
  have "expandSGRParams st' [38, 2, 300, 0, 0] = [38, 2, 300, 0, 0]"
    by (rule expand_shown) (simp_all add: st'_def)
  then have ev: "csiEvent (recording (screenListener ascii_lib)) st' (demo, []) (byte (CHR ''m'')) [38, 2, 300, 0, 0] = Some ?e"
    by (simp add: csiEvent_def prefix_ignored_def csiListed_def st'_def resetCSI_def byte_def)
  have "screen_handle ascii_lib ?e demo = None"
    using sgrLoop_truecolor [of 38 "defaultAttr demo" 300 0 0 "CurAttr (Cursor demo)"]
    by (simp add: SelectGraphicRendition_def is_extended_def byte_range_def bind_eq_None_conv)
  then have "deliver (recording (screenListener ascii_lib)) ?e (demo, []) = Panicked (demo, [?e])"
    by (simp add: recording_def screenListener_def)
  moreover have "feedData (recording (screenListener ascii_lib)) (csi [38, 2, 300, 0, 0] (CHR ''m'')) (NewStream True True, (demo, [])) =
      dispatchCSI (recording (screenListener ascii_lib)) (byte (CHR ''m'')) [38, 2, 300, 0, 0] (st', (demo, []))"
    unfolding st'_def by (rule feedData_csi) (simp_all add: byte_def)
  ultimately have f: "FeedBytes (recording (screenListener ascii_lib)) (csi [38, 2, 300, 0, 0] (CHR ''m''))
      (NewStream True True, (demo, [])) = (Some HandlerPanic, (recoverStream st', (demo, [?e])))"
    using ev by (simp add: FeedBytes_def dispatchCSI_def emit_def)
  from feed_error_cause [OF demo_wf _ _ f] f show ?thesis by auto
qed

text \<open>
  C15. For any listener and any input, the parameters the parser holds are between 0 and 9999, a
  control string never holds more than three bytes above its limit, and at most three bytes wait
  for the rest of their rune.
\<close>

theorem parser_bounds:
  assumes "FeedBytes L data (st, s) = (err, (st', s'))" "stream_ok st" "stAttached st"
  shows "(\<forall>p \<in> set (stParams st'). 0 \<le> p \<and> p \<le> 9999) \<and> len (strBuf st') \<le> maxStringPayload + 3 \<and>
    length (pendingBytes st') \<le> 3"
proof -
  have "stream_ok st'" using unconstrained.FeedBytes_good [OF _ _ assms(1)] assms(2,3) by simp
  then show ?thesis by (simp add: stream_ok_def list_all_iff)
qed

theorem parser_bounds_witness:
  "length (pendingBytes (fst (snd (FeedBytes (screenListener ascii_lib) [CHR 0xC3] (NewStream True True, demo))))) \<le> 3"
proof -
  obtain err st' s' where f: "FeedBytes (screenListener ascii_lib) [CHR 0xC3] (NewStream True True, demo) = (err, (st', s'))"
    by (cases "FeedBytes (screenListener ascii_lib) [CHR 0xC3] (NewStream True True, demo)") auto
  from parser_bounds [OF f] show ?thesis unfolding f by simp
qed

text \<open>
  C16. A printed control sequence is read back: \<open>ESC [ p ; ... ; p final\<close>, fed in the ground state,
  has exactly the effect of the event \<open>dispatchCSI\<close> selects for these parameters and this final.
\<close>

theorem csi_read_back:
  assumes "stAttached st" "pstate st = stateGround" "pendingBytes st = []"
    and "ps \<noteq> []" "\<forall>p \<in> set ps. 0 \<le> p \<and> p \<le> 9999" "0x40 \<le> byte final" "byte final \<le> 0x7E"
    and "st' = (resetCSI st)\<lparr>stParams := ps, paramStrings := map show_int ps\<rparr>"
  shows "FeedBytes L (csi ps final) (st, s) =
    (case csiEvent L st' s (byte final) ps of
       None \<Rightarrow> (None, (st', s))
     | Some e \<Rightarrow> (case deliver L e s of Done t \<Rightarrow> (None, (st', t))
                              | Panicked t \<Rightarrow> (Some HandlerPanic, (recoverStream st', t))))"
  unfolding FeedBytes_def
  by (simp add: feedData_csi assms dispatchCSI_def emit_def split: option.split outcome.split)

theorem csi_read_back_witness:
  "snd (snd (FeedBytes (screenListener ascii_lib) (csi [1, 3] (CHR ''H'')) (NewStream True True, demo))) =
   CursorPosition [1, 3] demo"
proof -
  define st' where "st' = (resetCSI (NewStream True True))\<lparr>stParams := [1, 3], paramStrings := map show_int [1, 3]\<rparr>"
  have "csiEvent (screenListener ascii_lib) st' demo (byte (CHR ''H'')) [1, 3] = Some (Motion (EvCursorPosition [1, 3]))"
    by (simp add: csiEvent_def prefix_ignored_def csiListed_def st'_def resetCSI_def byte_def)
  moreover have "deliver (screenListener ascii_lib) (Motion (EvCursorPosition [1, 3])) demo = Done (CursorPosition [1, 3] demo)"
    by (simp add: screenListener_def)
  moreover have "0x40 \<le> byte (CHR ''H'')" "byte (CHR ''H'') \<le> 0x7E" by (simp_all add: byte_def)
  ultimately show ?thesis
    using csi_read_back [OF _ _ _ _ _ _ _ st'_def, of "CHR ''H''" "screenListener ascii_lib" demo] by simp
qed

text \<open>
  C17. Moving the cursor through the parser: with origin mode off, feeding \<open>ESC [ r ; c H\<close> for a
  position on the screen puts the cursor there and changes no cell.
\<close>

theorem cursor_position_fed:
  assumes "wf_screen s" "\<not> isModeSet s ModeDECOM" "\<not> isModeSet s ModeDECLRMM"
    and "stAttached st" "pstate st = stateGround" "pendingBytes st = []"
    and "1 \<le> r" "r \<le> Lines s" "r \<le> 9999" "1 \<le> c" "c \<le> Columns s" "c \<le> 9999"
  shows "\<exists>st' s'. FeedBytes (screenListener E) (csi [r, c] (CHR ''H'')) (st, s) = (None, (st', s')) \<and>
    row s' = r - 1 \<and> col s' = c - 1 \<and> Buffer s' = Buffer s \<and> wf_screen s'"
proof -
  define st' where "st' = (resetCSI st)\<lparr>stParams := [r, c], paramStrings := map show_int [r, c]\<rparr>"
  have "csiEvent (screenListener E) st' s (byte (CHR ''H'')) [r, c] = Some (Motion (EvCursorPosition [r, c]))"
    by (simp add: csiEvent_def prefix_ignored_def csiListed_def st'_def resetCSI_def byte_def)
  then have "FeedBytes (screenListener E) (csi [r, c] (CHR ''H'')) (st, s) = (None, (st', CursorPosition [r, c] s))"
    using csi_read_back [OF assms(4-6) _ _ _ _ st'_def, of "CHR ''H''" "screenListener E" s] assms(7-12)
    by (simp add: screenListener_def byte_def)
  moreover have "CursorPosition [r, c] s = atCol (c - 1) (atRow (r - 1) (s\<lparr>wrapNext := False\<rparr>))"
    by (rule CursorPosition_plain) (use assms in simp_all)
  ultimately show ?thesis using CursorPosition_wf [OF assms(1), of "[r, c]"] by (auto simp: atCol_def atRow_def)
qed

theorem cursor_position_fed_witness:
  "\<exists>st' s'. FeedBytes (screenListener ascii_lib) (csi [2, 4] (CHR ''H'')) (NewStream True True, demo) =
     (None, (st', s')) \<and> row s' = 1 \<and> col s' = 3"
  using cursor_position_fed [OF demo_wf, of "NewStream True True" 2 4 ascii_lib] by (auto simp: isModeSet_def resetModes_def)

text \<open>
  C18. A rune whose encoding is cut by a chunk boundary is neither lost nor drawn in pieces: the first
  chunk changes nothing on the screen, the second draws the whole rune.
\<close>

theorem split_rune_drawn:
  assumes "stAttached st" "pstate st = stateGround" "useUTF8 st" "pendingBytes st = []"
    and "scalar r" "isPlainText r" "encode_rune r = xs @ ys" "xs \<noteq> []" "ys \<noteq> []"
    and "deliver L (Edit (EvDraw (encode_rune r))) s = Done t"
  shows "feedChunks L [xs, ys] (st, s) = (st, t)"
proof -
  have e: "st\<lparr>pendingBytes := []\<rparr> = st" using assms(4) by simp
  then show ?thesis
    using feed_split_rune [OF assms(5-9,2-4), of L s] assms(1,10)
    by (simp add: feedChunks_def FeedBytes_def emit_def)
qed

theorem split_rune_drawn_witness:
  "\<exists>t. deliver (screenListener ascii_lib) (Edit (EvDraw [CHR 0xC3, CHR 0xA9])) demo = Done t \<and>
     feedChunks (screenListener ascii_lib) [[CHR 0xC3], [CHR 0xA9]] (NewStream True True, demo) = (NewStream True True, t)"
proof -
  have e: "encode_rune 0xE9 = [CHR 0xC3] @ [CHR 0xA9]"
    using byte_char_byte [of "CHR 0xC3"] byte_char_byte [of "CHR 0xA9"]
    by (simp add: encode_rune_def scalar_def byte_def)
  obtain t where t: "screen_handle ascii_lib (Edit (EvDraw (encode_rune 0xE9))) demo = Some t"
    using screen_handle_safe [OF demo_wf, of "Edit (EvDraw (encode_rune 0xE9))" ascii_lib] by (auto simp: returns_ex)
  then have "deliver (screenListener ascii_lib) (Edit (EvDraw (encode_rune 0xE9))) demo = Done t"
    by (simp add: screenListener_def)
  with split_rune_drawn [OF _ _ _ _ _ _ e _ _ this, of "NewStream True True"] e
  show ?thesis by (auto simp: scalar_def isPlainText_def RuneError_def)
qed

text \<open>
  C19. A window title of any text without control characters is delivered unchanged, semicolons
  included: \<open>ESC ] 2 ; title BEL\<close> delivers \<open>SetTitle\<close> with exactly the title.
\<close>

theorem title_delivered:
  assumes "stAttached st" "pstate st = stateGround" "pendingBytes st = []"
    and "list_all osc_rune title" "len (string_of_runes title) + 2 \<le> maxStringPayload"
    and "deliver L (Report (EvSetTitle (string_of_runes title))) s = Done t"
  shows "\<exists>st'. FeedBytes L (osc (''2;'' @ string_of_runes title)) (st, s) = (None, (st', t)) \<and> pstate st' = stateGround"
proof -
  define p where "p = ''2;'' @ string_of_runes title"
  have rs: "list_all osc_rune (50 # 59 # title)" "string_of_runes (50 # 59 # title) = p"
    using assms(4) osc_digits by (simp_all add: p_def)
  have l: "len (string_of_runes (50 # 59 # title)) \<le> maxStringPayload"
    using assms(5) unfolding rs(2) p_def by (simp add: len_def)
  have "hd (split_at (CHR '';'') p) = ''2''" "join_with '';'' (tl (split_at (CHR '';'') p)) = string_of_runes title"
    unfolding p_def by (simp_all add: join_split)
  then have ev: "oscEvents p = [Report (EvSetTitle (string_of_runes title))]" "\<not> oscReturns p" "p \<noteq> []"
    by (simp_all add: oscEvents_def oscReturns_def Let_def) (simp add: p_def)
  have "feedData L (osc p) (st, s) = Done (st\<lparr>strBuf := [], oscEsc := False, stCurrent := []\<rparr>, t)"
    using feedData_osc [OF rs(1) l assms(2,3), of L s] assms(2,6) unfolding rs(2)
    by (simp add: finishOSC_def ev emit_def update_def endQuote_def)
  then show ?thesis using assms(1,2) by (simp add: FeedBytes_def p_def)
qed

theorem title_delivered_witness:
  "\<exists>st'. FeedBytes (screenListener ascii_lib) (osc (''2;'' @ string_of_runes [97, 59, 98])) (NewStream True True, demo) =
     (None, (st', SetTitle (string_of_runes [97, 59, 98]) demo))"
  using title_delivered [of "NewStream True True" "[97, 59, 98]" "screenListener ascii_lib" demo
      "SetTitle (string_of_runes [97, 59, 98]) demo"]
  by (auto simp: osc_rune_def scalar_def screenListener_def string_of_runes_def len_def
      maxStringPayload_def encode_rune_def)

text \<open>
  C20. CAN resynchronises the parser: in whatever state it is inside a sequence, CAN drops the
  sequence, and the text after it is drawn.
\<close>

theorem CAN_resynchronises:
  assumes "stAttached st" "pstate st \<noteq> stateGround" "pendingBytes st = []"
    and "scalar r" "isPlainText r" "deliver L (Edit (EvDraw (encode_rune r))) s = Done t"
  shows "FeedBytes L (CHR 0x18 # encode_rune r) (st, s) = (None, (abortSequence st, t))"
proof -
  have "feedLoop L (CHR 0x18 # encode_rune r) [] (st, s) = feedLoop L (encode_rune r) [] (abortSequence st, s)"
    using assms(2) by (subst feedLoop_ascii) (simp_all add: feedRune_def update_def byte_def)
  also have "\<dots> = ([r], Done (abortSequence st, s))"
    using feedLoop_plain [of r "(abortSequence st, s)" L "[]" "[]"] assms(4,5)
    by (simp add: abortSequence_def resetCSI_def)
  finally have f: "feedLoop L (CHR 0x18 # encode_rune r) [] (st, s) = ([r], Done (abortSequence st, s))" .
  have e: "st\<lparr>pendingBytes := []\<rparr> = st" using assms(3) by simp
  show ?thesis
    unfolding FeedBytes_def feedData_def Let_def fst_conv snd_conv assms(3) append_Nil e f
    using assms(1,6)
    by (simp add: endQuote_def flushText_def emit_def string_of_runes_def abortSequence_def resetCSI_def)
qed

theorem CAN_resynchronises_witness:
  "\<exists>t. FeedBytes (screenListener ascii_lib) (CHR 0x18 # encode_rune 97) ((NewStream True True)\<lparr>pstate := stateOSC\<rparr>, demo) =
     (None, (abortSequence ((NewStream True True)\<lparr>pstate := stateOSC\<rparr>), t)) \<and> wf_screen t"
proof -
  obtain t where t: "screen_handle ascii_lib (Edit (EvDraw (encode_rune 97))) demo = Some t" "wf_screen t"
    using screen_handle_safe [OF demo_wf, of "Edit (EvDraw (encode_rune 97))" ascii_lib] by (auto simp: returns_ex)
  then have "deliver (screenListener ascii_lib) (Edit (EvDraw (encode_rune 97))) demo = Done t"
    by (simp add: screenListener_def)
  with t(2) CAN_resynchronises [of "(NewStream True True)\<lparr>pstate := stateOSC\<rparr>" 97 "screenListener ascii_lib" demo t]
  show ?thesis by (auto simp: scalar_def isPlainText_def RuneError_def)
qed

text \<open>
  The reset form of XTSMTITLE cannot be reached: no final byte, prefix or parameter list makes
  the parser deliver \<open>SetTitleMode\<close> with the reset flag. \<open>CSI > T\<close> scrolls down instead.
\<close>

theorem title_mode_reset_unreachable:
  "csiEvent L st s final params \<noteq> Some (Report (EvSetTitleMode ps True)) \<and>
   (csiPrefix st = byte (CHR ''>'') \<longrightarrow> csiEvent L st s (byte (CHR ''T'')) params = Some (Edit (EvScrollDown params)))"
proof
  have "csiListed final params \<noteq> Some (Report r)" for r
    by (simp add: csiListed_def)
  moreover have "csiListed (byte (CHR ''T'')) params = Some (Edit (EvScrollDown params))"
    by (simp add: csiListed_def byte_def)
  ultimately show "csiEvent L st s final params \<noteq> Some (Report (EvSetTitleMode ps True))"
    by (auto simp: csiEvent_def csiExtended_def Let_def split: if_splits option.splits)
  show "csiPrefix st = byte (CHR ''>'') \<longrightarrow> csiEvent L st s (byte (CHR ''T'')) params = Some (Edit (EvScrollDown params))"
    by (simp add: csiEvent_def prefix_ignored_def csiListed_def byte_def)
qed

theorem title_mode_reset_unreachable_witness:
  "csiEvent (screenListener ascii_lib) ((NewStream True True)\<lparr>csiPrefix := byte (CHR ''>'')\<rparr>) demo (byte (CHR ''T'')) [2] =
   Some (Edit (EvScrollDown [2]))"
  using title_mode_reset_unreachable [of "screenListener ascii_lib" "(NewStream True True)\<lparr>csiPrefix := byte (CHR ''>'')\<rparr>"
      demo "byte (CHR ''T'')" "[2]" "[]"] by simp

section \<open>The scrollback\<close>

text \<open>
  C21. The scrollback is append-only: whatever bytes arrive, the rows pushed so far keep their
  sequence numbers. The queue is always the part of one growing log from \<open>FirstSeq\<close> on, and
  \<open>TotalAdded\<close> is the length of that log.
\<close>

theorem scrollback_append_only:
  assumes "live h" "0 < HSize (history h)" "tracks L (history h)" "stream_ok st" "stAttached st"
    and "FeedBytes (historyListener E) data (st, h) = (err, (st', h'))"
  shows "live h' \<and> (\<exists>M. tracks (L @ M) (history h'))"
proof -
  have "logged L h" using assms(1-3) by (auto simp: logged_def intro: exI [of _ "[]"])
  then show ?thesis
    using scroll_log.FeedBytes_good [OF _ _ assms(6), of L] assms(4,5) by (auto simp: logged_def)
qed

theorem scrollback_append_only_witness:
  "\<exists>err st' h' M. FeedBytes (historyListener ascii_lib) [CHR 0x0A, CHR 0x0A, CHR 0x0A] (NewStream True True, demo_history 5) =
     (err, (st', h')) \<and> live h' \<and> tracks M (history h')"
proof -
  obtain err st' h' where f: "FeedBytes (historyListener ascii_lib) [CHR 0x0A, CHR 0x0A, CHR 0x0A]
      (NewStream True True, demo_history 5) = (err, (st', h'))"
    by (cases "FeedBytes (historyListener ascii_lib) [CHR 0x0A, CHR 0x0A, CHR 0x0A] (NewStream True True, demo_history 5)") auto
  from scrollback_append_only [OF demo_history_live(1) _ demo_history_live(2) _ _ f] f demo_history_live(4)
  show ?thesis by auto
qed

text \<open>
  C22. A line feed on the last line of the primary screen, with full margins, logs the top row, shifts
  the rest up by one row and adds a blank row at the bottom: nothing on the screen is lost.
\<close>

theorem linefeed_logs_top_row:
  assumes "live h" "0 < HSize (history h)" "tracks L (history h)"
    and "\<not> altActive (hscr h)" "Margins (hscr h) = None" "\<not> isModeSet (hscr h) ModeDECLRMM"
    and "row (hscr h) = Lines (hscr h) - 1"
  shows "\<exists>h'. history_handle E (Motion EvLineFeed) h = Some h' \<and> tracks (L @ [hd (Buffer (hscr h))]) (history h') \<and>
    Buffer (hscr h') = tl (Buffer (hscr h)) @ [blankLine (Columns (hscr h)) (defaultCell (hscr h))]"
proof -
  define s where "s = hscr h"
  have s: "wf_screen s" "scrollRegion s = (0, Lines s - 1)" "horizontalMargins s = (0, Columns s - 1)" "canScrollHorizontal s"
    using assms by (auto simp: s_def live_def scrollRegion_def horizontalMargins_def canScrollHorizontal_def)
  obtain t where t: "Index s = Some t" "Buffer t = tl (Buffer s) @ [blankLine (Columns s) (defaultCell s)]"
    using Index_full [OF s(1-3) _ s(4)] assms(7) by (simp add: s_def)
  define h1 where "h1 = h\<lparr>history := pushTop (hd (Buffer s)) (history h), hscr := t\<rparr>"
  have "scrollbackEligible 0 (Lines s - 1) s" using s(3) assms(4) by (simp add: scrollbackEligible_def s_def)
  moreover have "idx (Buffer s) 0 = Some (hd (Buffer s))"
    using wf_Buffer_ne [OF s(1)] by (simp add: idx_def hd_conv_nth)
  ultimately have i: "indexInternal h = Some h1"
    using assms(7) s(2) t(1) unfolding indexInternal_def s_def [symmetric]
    by (simp add: onScreen_def h1_def) (simp add: s_def)
  have live1: "live h1" using live.index_keeps [OF assms(1)] i by simp
  have b1: "Buffer (hscr h1) = Buffer t" "history h1 = pushTop (hd (Buffer s)) (history h)" by (simp_all add: h1_def)
  obtain h2 where h2: "historyLineFeed h = Some h2" "Buffer (hscr h2) = Buffer t" "history h2 = history h1"
    unfolding historyLineFeed_def aroundEvent_of_live [OF assms(1)] historyCarriageReturn_def
    using aroundEvent_of_live [OF live1] i b1
    by (cases "isModeSet (hscr h1) ModeLNM") (auto simp: onScreen_def CarriageReturn_reads)
  have "tracks (L @ [hd (Buffer s)]) (pushTop (hd (Buffer s)) (history h))"
    using tracks_push [OF assms(3) _ assms(2)] assms(1) by (simp add: live_def)
  then show ?thesis using h2 t(2) b1(2) by (simp add: s_def)
qed


theorem linefeed_logs_top_row_witness:
  "\<exists>h'. history_handle ascii_lib (Motion EvLineFeed) ((demo_history 5)\<lparr>hscr := atRow 2 demo\<rparr>) = Some h' \<and>
     tracks [map demo_cell ''abcd''] (history h')"
proof -
  let ?h = "(demo_history 5)\<lparr>hscr := atRow 2 demo\<rparr>"
  have "wf_screen (atRow 2 demo)" by (rule wf_atRow) (simp_all add: demo_wf)
  then have l: "live ?h" using demo_history_live(1) [of 5] by (simp add: live_def)
  have "\<not> isModeSet (hscr ?h) ModeDECLRMM" using demo_regions(3) by (simp add: isModeSet_def)
  moreover have "\<not> altActive (hscr ?h)" by (simp add: atRow_def)
  ultimately show ?thesis
    using linefeed_logs_top_row [OF l, of "[]" ascii_lib] demo_history_live(2,4) [of 5] by auto
qed

text \<open>
  C23. Rows that leave the screen because text wraps at the right edge of its last line never reach the
  scrollback: \<open>Draw\<close> scrolls with the line feed of \<open>Screen\<close>, not the one of \<open>HistoryScreen\<close>, so
  the top row is gone from the screen and from the history.
\<close>

theorem wrap_loses_top_row:
  assumes "live h" "Margins (hscr h) = None" "\<not> isModeSet (hscr h) ModeDECLRMM"
    and "\<not> isModeSet (hscr h) ModeIRM" "row (hscr h) = Lines (hscr h) - 1" "wrapNext (hscr h)"
    and "translate (hscr h) data = Some d" "graphemes E d = [cluster]" "string_width E cluster = 1"
  shows "\<exists>h'. history_handle E (Edit (EvDraw data)) h = Some h' \<and> history h' = history h \<and>
    butlast (Buffer (hscr h')) = tl (Buffer (hscr h))"
proof -
  define s where "s = hscr h"
  define s1 where "s1 = (CarriageReturn (markDirty (row s) (s\<lparr>wrapNext := False\<rparr>)))\<lparr>wrapNext := False\<rparr>"
  have m: "\<not> isModeSet s ModeDECLRMM" "\<not> isModeSet s ModeIRM" "row s = Lines s - 1" "Margins s = None" "wf_screen s"
    using assms by (simp_all add: s_def live_def)
  have s1: "s1 = s\<lparr>wrapNext := False, Dirty := insert (row s) (Dirty s), Cursor := (Cursor s)\<lparr>Col := 0\<rparr>\<rparr>"
    using m by (simp add: s1_def CarriageReturn_def isModeSet_def markDirty_def atCol_def)
  obtain t where t: "Draw E data s = Some t" using screen_edit_wf [OF m(5), of E "EvDraw data"] by (auto simp: returns_ex)
  have wf1: "wf_screen s1" using m(5) wf_Columns [OF m(5)] unfolding s1 by (simp add: wf_screen_def)
  have i: "Index s1 = Some ((markDirtyRange 0 (Lines s - 1) s1)\<lparr>Buffer := tl (Buffer s) @ [blankLine (Columns s) (defaultCell s1)]\<rparr>)"
    using Index_full [OF wf1] m by (simp add: s1 scrollRegion_def horizontalMargins_def canScrollHorizontal_def isModeSet_def)
  obtain u where u: "drawPrepare 1 s = Some u" "Buffer u = tl (Buffer s) @ [blankLine (Columns s) (defaultCell s1)]"
    "row u = Lines s - 1"
  proof -
    have "LineFeed (CarriageReturn (markDirty (row s) (s\<lparr>wrapNext := False\<rparr>))) =
        map_option (\<lambda>t. if isModeSet t ModeLNM then CarriageReturn t else t) (Index s1)"
      using m(1) unfolding LineFeed_def s1_def [symmetric] Let_def
      by (cases "Index s1") (simp_all add: s1 canScrollHorizontal_def isModeSet_def)
    moreover define w where "w = (markDirtyRange 0 (Lines s - 1) s1)\<lparr>Buffer := tl (Buffer s) @ [blankLine (Columns s) (defaultCell s1)]\<rparr>"
    moreover have "Buffer w = tl (Buffer s) @ [blankLine (Columns s) (defaultCell s1)]" "row w = Lines s - 1" "Mode w = Mode s"
      using m(3) by (simp_all add: w_def markDirtyRange_def s1 Let_def)
    ultimately obtain v where v: "LineFeed (CarriageReturn (markDirty (row s) (s\<lparr>wrapNext := False\<rparr>))) = Some v"
      "Buffer v = tl (Buffer s) @ [blankLine (Columns s) (defaultCell s1)]" "row v = Lines s - 1" "Mode v = Mode s"
      using i unfolding w_def [symmetric]
      by (cases "isModeSet w ModeLNM") (simp_all add: CarriageReturn_reads CarriageReturn_modes)
    then show ?thesis
      using that assms(6) m(2) unfolding drawPrepare_def Let_def s_def [symmetric]
      by (cases "drawLimit s < col v") (auto simp: isModeSet_def)
  qed
  have "length (Buffer u) = nat (Lines s)" "Buffer u \<noteq> []"
    using grid_ok_length [OF wf_grid [OF m(5)]] wf_Buffer_ne [OF m(5)] by (auto simp: u(2) neq_Nil_conv)
  then have put: "butlast (Buffer w) = tl (Buffer s)" if "drawPut E cluster 1 u = Some (w, b)" for w b
    using that u(2,3) by (auto simp: drawPut_def on_row_def on_buffer_def bind_eq_Some_conv upd_Some butlast_list_update)
  have adv: "Buffer y = Buffer w" if "drawAdvance cluster 1 l w = Some y" for w y l
    using that by (auto simp: drawAdvance_def markWrapped_def Let_def split: if_splits option.splits)
  have "butlast (Buffer t) = tl (Buffer s)"
    using t assms(7-9) u(1) unfolding s_def [symmetric]
    by (auto simp: Draw_def drawCluster_def bind_eq_Some_conv Let_def markDirty_def split: if_splits dest!: put adv)
  then show ?thesis
    using t by (intro exI [of _ "afterEvent False (h\<lparr>hscr := t\<rparr>)"]) (simp add: aroundEvent_of_live [OF assms(1)] onScreen_def s_def)
qed

theorem wrap_loses_top_row_witness:
  "\<exists>h'. history_handle (ascii_lib\<lparr>graphemes := (\<lambda>_. [''x''])\<rparr>) (Edit (EvDraw ''x''))
       ((demo_history 5)\<lparr>hscr := (atCol 4 (atRow 2 demo))\<lparr>wrapNext := True\<rparr>\<rparr>) = Some h' \<and>
     items (HTop (history h')) = [] \<and> butlast (Buffer (hscr h')) = [map demo_cell ''efgh'', map demo_cell ''ijkl'']"
proof -
  let ?s = "(atCol 4 (atRow 2 demo))\<lparr>wrapNext := True\<rparr>"
  let ?h = "(demo_history 5)\<lparr>hscr := ?s\<rparr>"
  have "wf_screen (atCol 4 (atRow 2 demo))" by (intro wf_atCol wf_atRow) (simp_all add: demo_wf)
  then have l: "live ?h" using demo_history_live(1) [of 5] by (simp add: live_def)
  obtain d where "translate (hscr ?h) ''x'' = Some d"
    using translate_returns [of "hscr ?h" "''x''"] l by (auto simp: live_def)
  moreover have "\<not> isModeSet (hscr ?h) ModeDECLRMM" "\<not> isModeSet (hscr ?h) ModeIRM"
    by (simp_all add: isModeSet_def resetModes_def)
  ultimately show ?thesis
    using wrap_loses_top_row [OF l, of "''x''" d "ascii_lib\<lparr>graphemes := (\<lambda>_. [''x''])\<rparr>" "''x''"]
    by (auto simp: ascii_lib_def demo_history_def)
qed

text \<open>
  C24. With left-right margin mode on, the full width as margins and a pending wrap, an index logs the
  top row although the screen does not scroll: the row is then both in the scrollback and on the screen.
\<close>

theorem index_logs_unscrolled_row:
  assumes "live h" "0 < HSize (history h)" "tracks L (history h)" "\<not> altActive (hscr h)" "Margins (hscr h) = None"
    and "isModeSet (hscr h) ModeDECLRMM" "horizontalMargins (hscr h) = (0, Columns (hscr h) - 1)"
    and "row (hscr h) = Lines (hscr h) - 1" "col (hscr h) = Columns (hscr h)"
  shows "\<exists>h'. history_handle E (Motion EvIndex) h = Some h' \<and> Buffer (hscr h') = Buffer (hscr h) \<and>
    tracks (L @ [hd (Buffer (hscr h))]) (history h')"
proof -
  define s where "s = hscr h"
  have s: "wf_screen s" "scrollRegion s = (0, Lines s - 1)" using assms by (auto simp: s_def live_def scrollRegion_def)
  have "\<not> canScrollHorizontal (s\<lparr>wrapNext := False\<rparr>)" "scrollRegion (s\<lparr>wrapNext := False\<rparr>) = (0, Lines s - 1)"
    using assms(5,6,7,9) s(2) by (auto simp: s_def canScrollHorizontal_def horizontalMargins_def isModeSet_def scrollRegion_def)
  then have "Index s = Some (s\<lparr>wrapNext := False\<rparr>)" using assms(8) by (simp add: Index_def s_def Let_def)
  moreover have "scrollbackEligible 0 (Lines s - 1) s" using assms(4,7) by (simp add: scrollbackEligible_def s_def)
  moreover have "idx (Buffer s) 0 = Some (hd (Buffer s))"
    using wf_Buffer_ne [OF s(1)] by (simp add: idx_def hd_conv_nth)
  ultimately have "indexInternal h = Some (h\<lparr>history := pushTop (hd (Buffer s)) (history h), hscr := s\<lparr>wrapNext := False\<rparr>\<rparr>)"
    using assms(8) s(2) unfolding indexInternal_def s_def [symmetric]
    by (simp add: onScreen_def) (simp add: s_def)
  moreover have "tracks (L @ [hd (Buffer s)]) (pushTop (hd (Buffer s)) (history h))"
    using tracks_push [OF assms(3) _ assms(2)] assms(1) by (simp add: live_def)
  ultimately show ?thesis using aroundEvent_of_live [OF assms(1)] by (simp add: s_def)
qed

theorem index_logs_unscrolled_row_witness:
  "\<exists>h'. history_handle ascii_lib (Motion EvIndex) (demo_margin 5) = Some h' \<and> Buffer (hscr h') = Buffer demo \<and>
    tracks [map demo_cell ''abcd''] (history h')"
  using index_logs_unscrolled_row [of "demo_margin 5" "[]" ascii_lib] demo_margin_live [of 5] demo_history_live [of 5]
  by (simp add: isModeSet_def horizontalMargins_def atRow_def atCol_def)

text \<open>
  C25. Shrinking the window loses no text but what the scrollback has no room for: with the primary
  screen shown, no left and right margins and the width unchanged, the screen before is the rows that
  move into the scrollback, the screen after, and blank rows. The scrollback is then as many of the
  newest of its old and the moved rows as it holds; the total advances by the rows moved, and the number
  of the first row by those that fell out.
\<close>

theorem shrink_keeps_rows:
  assumes "live h" "ModeDECLRMM \<notin> Mode (hscr h)" "\<not> altActive (hscr h)"
    and "1 \<le> lines" "lines \<le> Lines (hscr h)"
  shows "\<exists>h' rows B e. historyResize lines (Columns (hscr h)) h = Some h' \<and> live h' \<and> Lines (hscr h') = lines \<and>
    Buffer (hscr h) = rows @ Buffer (hscr h') @ B \<and> list_all (rowBlank (hscr h)) B \<and>
    e = length (items (HTop (history h))) + length rows - nat (HSize (history h)) \<and>
    items (HTop (history h')) = drop e (items (HTop (history h)) @ rows) \<and>
    TotalAdded (history h') = TotalAdded (history h) + word_of_nat (length rows) \<and>
    FirstSeq (history h') = FirstSeq (history h) + (if HSize (history h) = 0 then 0 else word_of_nat e)"
proof -
  obtain t rows B where t: "historyResize lines (Columns (hscr h)) h = Some (h\<lparr>hscr := t, history := fold pushTop rows (history h)\<rparr>)"
    "Lines t = lines" "Buffer (hscr h) = rows @ Buffer t @ B" "list_all (rowBlank (hscr h)) B"
    using historyResize_spec [of h lines "Columns (hscr h)"] assms by (auto simp: live_def)
  have d: "dmax (HTop (history h)) = HSize (history h)" "len (items (HTop (history h))) \<le> dmax (HTop (history h))"
    using assms(1) by (auto simp: live_def history_ok_def)
  have "live (h\<lparr>hscr := t, history := fold pushTop rows (history h)\<rparr>)"
    using live.resize_keeps [OF assms(1,2), of lines "Columns (hscr h)"] t(1) by simp
  then show ?thesis
    using t push_many [OF d(2), of rows] unfolding d(1)
    by (intro exI [of _ "h\<lparr>hscr := t, history := fold pushTop rows (history h)\<rparr>"] exI [of _ rows] exI [of _ B]) simp
qed

theorem shrink_keeps_rows_witness:
  "\<exists>h' rows B. historyResize 2 4 (demo_history 5) = Some h' \<and> items (HTop (history h')) = rows \<and>
     map (map demo_cell) [''abcd'', ''efgh'', ''ijkl''] = rows @ Buffer (hscr h') @ B"
proof -
  obtain h' rows B e where r: "historyResize 2 4 (demo_history 5) = Some h'" "items (HTop (history h')) = drop e rows"
    "e = length rows - 5" "Buffer demo = rows @ Buffer (hscr h') @ B"
    using shrink_keeps_rows [OF demo_history_live(1), of 5 2]
    by (auto simp: demo_history_live resetModes_def)
  from arg_cong [OF r(4), of length] have "length rows \<le> 3" by simp
  with r show ?thesis by auto
qed

text \<open>
  C26. Paging back to the live view ends: the loop that runs before every event returns, at or past
  the live position, from every paged state.
\<close>

theorem return_to_live_ends:
  assumes "history_ok (history h)" "1 \<le> Lines (hscr h)" "int (length (Buffer (hscr h))) = Lines (hscr h)"
  shows "\<exists>h'. beforeEvent False h = Some h' \<and> HSize (history h') \<le> Position (history h')"
  using toLive_returns [OF assms] by (auto simp: beforeEvent_def returns_ex)

theorem return_to_live_ends_witness:
  "\<exists>h'. beforeEvent False ((demo_history 5)\<lparr>history := (history (demo_history 5))\<lparr>Position := 4, HBottom := \<lparr>items = [map demo_cell ''mnop''], dmax = 5\<rparr>\<rparr>\<rparr>) = Some h'"
proof -
  let ?h = "(demo_history 5)\<lparr>history := (history (demo_history 5))\<lparr>Position := 4, HBottom := \<lparr>items = [map demo_cell ''mnop''], dmax = 5\<rparr>\<rparr>\<rparr>"
  have "history_ok (history ?h)" by (simp add: demo_history_def history_ok_def len_def)
  from return_to_live_ends [OF this] show ?thesis by (auto simp: demo_history_live)
qed

text \<open>
  C27. On the live view, with nothing left over in the queue below, one page back and one page forward
  bring back the screen and the whole scrollback state, but that the rows of the scrollback shown in
  between come back cut to the width of the screen: nothing changes when none of them is wider. A page
  is turned exactly when the scrollback has rows and its bound exceeds the height of the screen.
\<close>

theorem page_round_trip:
  assumes "live h" "items (HBottom (history h)) = []"
  shows "\<exists>h1 h2. PrevPage h = Some h1 \<and> NextPage h1 = Some h2 \<and> Buffer (hscr h2) = Buffer (hscr h) \<and>
    (Position (history h1) < HSize (history h) \<longleftrightarrow> Lines (hscr h) < HSize (history h) \<and> items (HTop (history h)) \<noteq> []) \<and>
    history h2 = (history h)\<lparr>HTop := (HTop (history h))\<lparr>items :=
      (let t = items (HTop (history h)); k = length t - nat (HSize (history h) - Position (history h1))
       in take k t @ map (cutRow (Columns (hscr h))) (drop k t))\<rparr>\<rparr> \<and>
    ((\<forall>line \<in> set (items (HTop (history h))). len line \<le> Columns (hscr h)) \<longrightarrow> history h2 = history h)"
proof (cases "Lines (hscr h) < HSize (history h) \<and> items (HTop (history h)) \<noteq> []")
  case True
  have ok: "0 < Ratio (history h)" "Ratio (history h) \<le> 1" "1 \<le> Lines (hscr h)"
    using assms(1) by (auto simp: live_def history_ok_def wf_screen_def)
  from pageRows_bounds(1) [OF ok] True have "0 < pageRows h (HTop (history h))" by fastforce
  moreover have "take k t @ map (cutRow c) (drop k t) = t" if "\<forall>line \<in> set t. len line \<le> c" for k t c
  proof -
    have "map (cutRow c) (drop k t) = drop k t" using that by (intro cut_fitting) (blast dest: in_set_dropD)
    then show ?thesis by simp
  qed
  ultimately show ?thesis
    using page_back_and_forth [OF assms] True by (fastforce simp: Let_def)
next
  case False
  then show ?thesis
    using page_idle [OF assms(1)] assms(1) by (fastforce simp: Let_def live_def not_less)
qed

theorem page_round_trip_witness:
  "\<exists>h1 h2. PrevPage ((demo_history 5)\<lparr>history := pushTop (map demo_cell ''mnop'') (history (demo_history 5))\<rparr>) = Some h1 \<and>
     NextPage h1 = Some h2 \<and> Buffer (hscr h2) = Buffer demo"
proof -
  let ?h = "(demo_history 5)\<lparr>history := pushTop (map demo_cell ''mnop'') (history (demo_history 5))\<rparr>"
  have "live ?h" by (rule live.pushed) (simp add: demo_history_live)
  moreover have "items (HBottom (history ?h)) = []" "items (HTop (history ?h)) = [map demo_cell ''mnop'']"
    "HSize (history ?h) = 5" by (simp_all add: demo_history_def pushTop_def retain_def dequeAppend_def len_def)
  ultimately show ?thesis using page_round_trip [of ?h] by (auto simp: demo_history_live len_def)
qed

section \<open>From the server to the client\<close>

text \<open>
  C28. The client follows the server: when the parser's events go through the region's event proxy
  and the batch of a flush is replayed on a client screen that was displayed like the server's, the
  replay does not panic and the two screens are displayed alike again, scrollback included. The
  events are faithful ones, and queries, which are not recorded, come on a settled screen.
\<close>

theorem client_follows_server:
  assumes "live (pscreen p)" "batch p = []" "displayed k = displayed (pscreen p)" "calm E es (pscreen p)"
    and "for_each (proxy_handle (history_handle E)) es p = Some q"
    and "\<not> syncMode q" "Flush q = ((evs, False, syncs), q')"
  shows "\<exists>k' clear. replayEvents (history_handle E) evs k = Some (k', clear) \<and>
    displayed k' = displayed (pscreen q') \<and> live (pscreen q') \<and> batch q' = []"
proof -
  obtain evs' k' where f: "batch q = batch p @ evs'" "for_each (replay_step (history_handle E)) evs' k = Some k'"
    "displayed k' = displayed (pscreen q)" "live (pscreen q)"
    using batch_follows [OF assms(5,1,3,4)] by blast
  moreover have "evs = batch q" "pscreen q' = pscreen q" "batch q' = []"
    using assms(6,7) by (auto simp: Flush_def Let_def split: if_splits)
  ultimately show ?thesis using assms(2) by (simp add: replayEvents_steps)
qed

theorem client_follows_server_witness:
  "\<exists>p q evs syncs q' k' clear. for_each (proxy_handle (history_handle ascii_lib)) [Motion EvLineFeed, Report (EvQueryColor 1)] p = Some q \<and>
     Flush q = ((evs, False, syncs), q') \<and> replayEvents (history_handle ascii_lib) evs (demo_history 5) = Some (k', clear) \<and>
     displayed k' = displayed (pscreen q')"
proof -
  let ?H = "history_handle ascii_lib" and ?es = "[Motion EvLineFeed, Report (EvQueryColor 1)]"
  let ?p = "NewEventProxy (demo_history 5)"
  have l: "live (demo_history 5)" by (simp add: demo_history_live)
  obtain h1 where h1: "?H (Motion EvLineFeed) (demo_history 5) = Some h1" "live h1"
    using live.handle_keeps [OF l, of "Motion EvLineFeed"] by (auto simp: returns_ex)
  then have "settled h1" using settled_around [OF l] by (simp add: historyLineFeed_def)
  moreover obtain h2 where h2: "?H (Report (EvQueryColor 1)) h1 = Some h2"
    using live.handle_keeps [OF h1(2), of "Report (EvQueryColor 1)"] by (auto simp: returns_ex)
  ultimately have "calm ascii_lib ?es (demo_history 5)" using h1 h2 by simp
  moreover have "for_each (proxy_handle ?H) ?es ?p = Some (?p\<lparr>pscreen := h2, batch := [opEvent ''lf'']\<rparr>)"
    using h1 h2 by (simp add: proxy_handle_def record_event_def NewEventProxy_def)
  moreover have "Flush (?p\<lparr>pscreen := h2, batch := [opEvent ''lf'']\<rparr>) =
      (([opEvent ''lf''], False, []), ?p\<lparr>pscreen := h2\<rparr>)"
    by (simp add: Flush_def NewEventProxy_def)
  ultimately show ?thesis
    using client_follows_server [of ?p "demo_history 5" ascii_lib ?es] l by (fastforce simp: NewEventProxy_def)
qed

text \<open>
  C29. Every sync marker is handed out by exactly one flush, in order, and the history keeps the last
  256; while no snapshot intervenes the flushed batches are the recorded events, in order, each once.
\<close>

theorem proxy_delivers_once:
  assumes "for_each (proxy_step H) ops ([], NewEventProxy s) = Some (outs, p)"
  shows "concat (map (snd \<circ> snd) outs) @ pendingSyncs p = markers ops \<and>
    AllSyncs p = drop (length (markers ops) - 256) (markers ops) \<and>
    ((\<forall>out \<in> set outs. \<not> fst (snd out)) \<longrightarrow> concat (map fst outs) @ batch p = recorded ops)"
  using run_account [OF assms account_start]
  by (simp add: account_def newest_def AllSyncs_def len_def list_all_iff)

theorem proxy_delivers_once_witness:
  "\<exists>outs p. for_each (proxy_step (screen_handle ascii_lib))
       [OpEvent (Setting (EvSetMode [2026] True)), OpMarker ''a'', OpFlush, OpMarker ''b'',
        OpEvent (Setting (EvResetMode [2026] True)), OpEvent (Setting EvBell), OpFlush] ([], NewEventProxy demo) = Some (outs, p) \<and>
     concat (map (snd \<circ> snd) outs) @ pendingSyncs p = [''a'', ''b'']"
proof -
  let ?ops = "[OpEvent (Setting (EvSetMode [2026] True)), OpMarker ''a'', OpFlush, OpMarker ''b'',
        OpEvent (Setting (EvResetMode [2026] True)), OpEvent (Setting EvBell), OpFlush]"
  have "returns (\<lambda>x. wf_screen (pscreen (snd x))) (for_each (proxy_step (screen_handle ascii_lib)) ?ops ([], NewEventProxy demo))"
    by (rule proxy_run_returns) (use screen_handle_safe in \<open>auto simp: NewEventProxy_def demo_wf simp del: screen_handle.simps\<close>)
  then obtain x where "for_each (proxy_step (screen_handle ascii_lib)) ?ops ([], NewEventProxy demo) = Some x"
    unfolding returns_ex by blast
  then obtain outs p where "for_each (proxy_step (screen_handle ascii_lib)) ?ops ([], NewEventProxy demo) = Some (outs, p)"
    by (metis prod.exhaust)
  from this proxy_delivers_once [OF this] show ?thesis by (simp only: markers_def) auto
qed

text \<open>
  C30. Whatever SGR sets survives the wire: a cell drawn with the rendition that any sequence of SGR
  sequences leaves, encoded for the protocol and decoded by the client, is the same cell, but for the
  names of indexed and of default colours and the protection against erasing; and encoding it again
  gives the same protocol cell. A default colour always comes back under the name \<open>default\<close>, which
  an underline colour that was never set does not have: no blank cell comes back equal to itself.
\<close>

theorem rendition_survives_wire:
  assumes "for_each (\<lambda>(attrs, p). SelectGraphicRendition attrs p) sgrs s = Some t"
    and "CurAttr (Cursor s) = plainAttr b"
  shows "protocolCellToTe (cellToProtocol \<lparr>Data = d, CellAttr = CurAttr (Cursor t)\<rparr>) =
      wireCell \<lparr>Data = d, CellAttr = CurAttr (Cursor t)\<rparr> \<and>
    cellToProtocol (protocolCellToTe (cellToProtocol \<lparr>Data = d, CellAttr = CurAttr (Cursor t)\<rparr>)) =
      cellToProtocol \<lparr>Data = d, CellAttr = CurAttr (Cursor t)\<rparr> \<and>
    protocolCellToTe (cellToProtocol (defaultCell t)) \<noteq> defaultCell t"
proof -
  have "attr_ok (CurAttr (Cursor t))" if "for_each (\<lambda>(attrs, p). SelectGraphicRendition attrs p) sgrs s = Some t"
    "attr_ok (CurAttr (Cursor s))" for s
    using that by (induction sgrs arbitrary: s) (auto simp: bind_eq_Some_conv intro: SGR_attr_ok)
  then have "attr_ok (CurAttr (Cursor t))" using assms plainAttr_ok by simp
  then show ?thesis by (simp add: decode_encode_cell cellToProtocol_wire blank_not_blank)
qed

theorem rendition_survives_wire_witness:
  "\<exists>t. SelectGraphicRendition [1, 38, 5, 100, 4] False (demo\<lparr>Cursor := (Cursor demo)\<lparr>CurAttr := plainAttr False\<rparr>\<rparr>) = Some t \<and>
     protocolCellToTe (cellToProtocol \<lparr>Data = ''x'', CellAttr = CurAttr (Cursor t)\<rparr>) =
       wireCell \<lparr>Data = ''x'', CellAttr = CurAttr (Cursor t)\<rparr>"
proof -
  obtain t where t: "SelectGraphicRendition [1, 38, 5, 100, 4] False (demo\<lparr>Cursor := (Cursor demo)\<lparr>CurAttr := plainAttr False\<rparr>\<rparr>) = Some t"
    by (simp add: SelectGraphicRendition_def extendedColor_def is_extended_def len_def)
  then show ?thesis
    using rendition_survives_wire [of "[([1, 38, 5, 100, 4], False)]" _ t] by auto
qed

section \<open>Live upgrade\<close>



text \<open>
  C32. A screen that has never wrapped a line breaks when the server is upgraded: its map of wrapped
  lines is empty, JSON leaves it out, and on the restored screen the next character drawn into the last
  column panics, which it does not on the screen before. In the same way a screen without tab stops
  panics when one is set.
\<close>

theorem upgrade_breaks_wrap:
  assumes "wf_screen (hscr h)" "lineWrapped (hscr h) = Some Map.empty"
    and "translate (hscr h) d = Some d'" "graphemes E d' = [c]" "string_width E c = 1"
    and "ModeDECAWM \<in> Mode (hscr h)" "ModeIRM \<notin> Mode (hscr h)" "\<not> wrapNext (hscr h)" "col (hscr h) = drawLimit (hscr h)"
  shows "returns wf_screen (Draw E d (hscr h)) \<and> Draw E d (hscr (upgraded h h0)) = None \<and>
    (TabStops (hscr h) = Some {} \<longrightarrow> SetTabStop (hscr (upgraded h h0)) = None)"
proof -
  let ?t = "hscr (upgraded h h0)"
  have "translate ?t d = translate (hscr h) d" unfolding translate_def upgraded_reads by simp
  then have "translate ?t d = Some d'" "ModeDECAWM \<in> Mode ?t" "ModeIRM \<notin> Mode ?t" "\<not> wrapNext ?t" "col ?t = drawLimit ?t"
    "lineWrapped ?t = None"
    using assms by (simp_all add: upgraded_reads drawLimit_def isModeSet_def jsonMap_def)
  then have "Draw E d ?t = None" by (intro draw_last_column [OF _ assms(4,5)])
  moreover have "TabStops (hscr h) = Some {} \<longrightarrow> SetTabStop ?t = None"
    by (simp add: upgraded_reads SetTabStop_def)
  ultimately show ?thesis using Draw_wf [OF assms(1)] by blast
qed

theorem upgrade_breaks_wrap_witness:
  "let E = ascii_lib\<lparr>graphemes := \<lambda>s. [s], string_width := \<lambda>s. 1\<rparr>; s = atCol 3 (demo\<lparr>lineWrapped := Some Map.empty\<rparr>) in
     returns wf_screen (Draw E ''x'' s) \<and>
     Draw E ''x'' (hscr (upgraded ((demo_history 5)\<lparr>hscr := s\<rparr>) (demo_history 5))) = None"
proof -
  let ?s = "atCol 3 (demo\<lparr>lineWrapped := Some Map.empty\<rparr>)"
  have wf: "wf_screen ?s" using demo_wf by (simp add: atCol_def wf_screen_def)
  obtain d' where "translate ?s ''x'' = Some d'" using translate_returns [OF wf] by blast
  then show ?thesis
    using upgrade_breaks_wrap [of "(demo_history 5)\<lparr>hscr := ?s\<rparr>" "''x''" d'] wf
    by (simp add: drawLimit_def resetModes_def isModeSet_def atCol_def)
qed

section \<open>The object tree\<close>

text \<open>
  C33. A client keeps the server's object tree: it accepts every broadcast of the event loop, whatever
  the requests, and after them its tree is the server's and its version is the server's, provided it
  started from a snapshot, missed none and no name has a slash. One that missed a broadcast refuses the
  next one, so that it asks for a snapshot.
\<close>

theorem client_tree_follows:
  assumes "list_all names_ok rqs" "tree_ok (lTree st)" "loopRun rqs st = (msgs, st')"
  shows "\<exists>ts. followAll msgs (HandleSnapshot (treeSnapshot (lTree st)) ts0) = Some ts \<and>
    tsTree ts = treeOf (lTree st') \<and> tsVersion ts = tVersion (lTree st') \<and>
    (\<forall>rq effs m st'' old. names_ok rq \<longrightarrow> loopStep rq st' = ((effs, Some m), st'') \<longrightarrow>
       tsVersion old \<noteq> tVersion (lTree st') \<longrightarrow> HandleEvents m old = (False, old))"
proof -
  obtain ts where ts: "tree_ok (lTree st')" "followAll msgs (HandleSnapshot (treeSnapshot (lTree st)) ts0) = Some ts"
    "synced ts (lTree st')"
    using loopRun_followed [OF assms(1,2) snapshot_synced assms(3)] by blast
  then show ?thesis
    using loopStep_version [OF _ ts(1)] by (intro exI [of _ ts]) (auto simp: synced_def HandleEvents_def)
qed

theorem client_tree_follows_witness:
  "\<exists>ts. followAll (fst (loopRun demo_requests demo_loop))
       (HandleSnapshot (treeSnapshot (lTree demo_loop)) \<lparr>tsTree = treeOf (lTree demo_loop), tsVersion = 0, tsValid = False\<rparr>) = Some ts \<and>
     unPhase (pUpgrade (tsTree ts)) = ''starting''"
proof -
  have "tUpgrade (lTree (snd (loopRun demo_requests demo_loop))) = \<lparr>unActive = True, unPhase = ''starting'', unMessage = ''''\<rparr>"
    by (simp add: demo_requests_def demo_spawn_def loopStep_def Let_def case_prod_unfold handleAddClient_def handleSpawnRegion_def AddClient_def
        SetUpgrade_def SetRegion_def EnsureSession_def AddRegionToSession_def StartTx_def CommitTx_def emit_defs emitOp_def
        demo_loop_def initialLoop_def NewServerTree_def)
  moreover obtain msgs st' where run: "loopRun demo_requests demo_loop = (msgs, st')" by (metis surj_pair)
  moreover have "tree_ok (lTree demo_loop)" using demo_loop_ok by (simp add: loop_ok_def)
  ultimately show ?thesis
    using client_tree_follows [OF demo_requests_ok _ run, of "\<lparr>tsTree = treeOf (lTree demo_loop), tsVersion = 0, tsValid = False\<rparr>"]
    by (fastforce simp: treeOf_def [of "lTree st'"])
qed

text \<open>
  C34. In every state the event loop reaches, a session is there exactly when a region has it, and lists
  its regions once each; a subscription joins a client and a region that exist; and the overlay entry of a
  client is the one of its region. Regions are spawned under fresh identifiers, and the names of
  regions, sessions and programs have no slash.
\<close>

theorem loop_invariant:
  assumes "loop_reachable st"
  shows "(\<forall>n e. tSessions (lTree st) n = Some e \<longrightarrow> seRegionIDs e \<noteq> [] \<and> distinct (seRegionIDs e) \<and>
      set (seRegionIDs e) = {i. \<exists>re. tRegions (lTree st) i = Some re \<and> rSession (reRegion re) = n}) \<and>
    (\<forall>i re. tRegions (lTree st) i = Some re \<longrightarrow> tSessions (lTree st) (rSession (reRegion re)) \<noteq> None) \<and>
    (\<forall>c i. subscriptions st c = Some i \<longrightarrow> treeRegion (lTree st) i \<noteq> None \<and> treeClient (lTree st) c \<noteq> None) \<and>
    (\<forall>c i. clientOverlays st c = Some i \<longrightarrow> regionOverlays st i = Some c \<and> treeRegion (lTree st) i \<noteq> None)"
  using reachable_loop_ok [OF assms]
  unfolding loop_ok_def sessions_ok_def subscriptions_ok_def overlays_ok_def treeRegion_def treeClient_def by auto

theorem loop_invariant_witness:
  "let st = snd (loopStep demo_spawn demo_loop)
   in tSessions (lTree st) ''main'' \<noteq> None \<and>
     set (seRegionIDs (the (tSessions (lTree st) ''main''))) = {i. \<exists>re. tRegions (lTree st) i = Some re \<and> rSession (reRegion re) = ''main''}"
proof -
  let ?st = "snd (loopStep demo_spawn demo_loop)"
  have "loop_reachable ?st"
    by (rule loop_reachable.step [OF demo_loop_reachable, of demo_spawn "fst (loopStep demo_spawn demo_loop)"])
      (auto simp: demo_spawn_def demo_region_def demo_loop_def slashless_def initialLoop_def NewServerTree_def)
  moreover have "tSessions (lTree ?st) ''main'' \<noteq> None"
    by (simp add: demo_spawn_def loopStep_def Let_def case_prod_unfold handleSpawnRegion_def SetRegion_def EnsureSession_def
        AddRegionToSession_def StartTx_def CommitTx_def emit_defs emitOp_def demo_loop_def initialLoop_def NewServerTree_def)
  ultimately show ?thesis using loop_invariant [of ?st] by (auto simp: Let_def)
qed



text \<open>
  C36. Slow clients recover: whatever the actor offers a subscriber, however slowly the client reads,
  its queue stays within its capacity, and whenever it is not marked behind, what it has been given is
  either everything offered or ends in a repair snapshot followed by everything offered since. A
  client left behind that has room and is not given up is repaired by the next tick of the timer.
\<close>

theorem subscriber_in_step:
  assumes "\<not> behind (subClient sub0)" "length (writeCh (subClient sub0)) \<le> writeCap (subClient sub0)"
  shows "\<exists>taken sub c. for_each (link_step timeout) ops ([], sub0) = Some (taken, sub) \<and> c = subClient sub \<and>
    length (writeCh c) \<le> writeCap (subClient sub0) \<and>
    (behind c \<or> taken @ writeCh c = writeCh (subClient sub0) @ offered ops \<or>
     (\<exists>before op after pre r. ops = before @ op # after \<and> repair_of op = Some r \<and>
        taken @ writeCh c = pre @ r # offered after)) \<and>
    (\<forall>now r n. behind c \<and> WriteChHasRoom c \<and> \<not> (behindSince c > 0 \<and> now - behindSince c > timeout) \<longrightarrow>
       repairOne now timeout (Some r) n sub =
         Some (sub\<lparr>subClient := c\<lparr>writeCh := writeCh c @ [r], behind := False, behindSince := 0\<rparr>, lastTotalAdded := n\<rparr>))"
proof -
  let ?c = "subClient sub0"
  obtain taken sub where r: "for_each (link_step timeout) ops ([], sub0) = Some (taken, sub)"
    using link_run_returns [of timeout ops "([], sub0)"] by auto
  moreover have "link_ok (writeCap ?c) (writeCh ?c) [] ([], sub0)"
    using assms in_step_start by (simp add: link_ok_def given_def Let_def)
  ultimately have "link_ok (writeCap ?c) (writeCh ?c) ops (taken, sub)"
    using link_run_ok [of timeout ops "([], sub0)" _ _ _ "[]"] by auto
  then have ok: "length (writeCh (subClient sub)) \<le> writeCap ?c"
    "behind (subClient sub) \<or> in_step (writeCh ?c) ops (taken @ writeCh (subClient sub))"
    by (auto simp: link_ok_def given_def Let_def)
  from r ok(1) ok(2) [unfolded in_step_def] tick_repairs [OF _ _ _ refl, of sub] show ?thesis
    by (intro exI [of _ taken] exI [of _ sub] exI [of _ "subClient sub"]) (intro conjI allI impI; simp)
qed

theorem subscriber_in_step_witness:
  "\<exists>taken sub. for_each (link_step 5) [Offer 1 (TerminalEventsMsg []) (TerminalEventsMsg [opEvent ''a'']) 7,
       Offer 2 (TerminalEventsMsg []) (TerminalEventsMsg [opEvent ''a'']) 8, Consume]
     ([], \<lparr>subID = 1, subClient = \<lparr>writeCh = [], writeCap = 1, behind = False, behindSince = 0, closed = False\<rparr>,
           lastTotalAdded = 0\<rparr>) = Some (taken, sub) \<and> behind (subClient sub) \<and>
     repairOne 4 5 (Some (TerminalEventsMsg [opEvent ''b''])) 9 sub =
       Some (sub\<lparr>subClient := (subClient sub)\<lparr>writeCh := [TerminalEventsMsg [opEvent ''b'']], behind := False, behindSince := 0\<rparr>,
                 lastTotalAdded := 9\<rparr>)"
proof -
  let ?e = "TerminalEventsMsg []" and ?r = "TerminalEventsMsg [opEvent ''a'']"
  let ?c = "\<lparr>writeCh = [], writeCap = 1, behind = False, behindSince = 0, closed = False\<rparr>"
  let ?sub = "\<lparr>subID = 1, subClient = ?c, lastTotalAdded = 0\<rparr>"
  let ?ops = "[Offer 1 ?e ?r 7, Offer 2 ?e ?r 8, Consume]"
  have run: "for_each (link_step 5) ?ops ([], ?sub) = Some ([?e], ?sub\<lparr>subClient := ?c\<lparr>behind := True, behindSince := 2\<rparr>,
      lastTotalAdded := 7\<rparr>)"
    by (simp add: deliverTo_def SendMessage_def markBehind_def shedIfStuck_def Let_def)
  with subscriber_in_step [of ?sub 5 ?ops] show ?thesis
    by (fastforce simp: WriteChHasRoom_def simp del: for_each.simps)
qed

section \<open>The shell of nx2\<close>

text \<open>
  C37. The multiplexer of the shell does not depend on how its input is cut into chunks: whatever the
  chunks of the encoded frames, it does exactly what the frames say, one after the other. A tab that
  is open and that no frame closes is given exactly the payloads addressed to it, in order.
\<close>

theorem mux_routes:
  assumes "list_all (\<lambda>(ctrl, j, payload). length payload \<le> MaxMsgLen) fs"
    and "concat chunks = concat (map (\<lambda>(ctrl, j, payload). sprotoEncode ctrl j payload []) fs)"
    and "mxDec s = []" "map_of (mxTabs s) i \<noteq> None" "list_all (\<lambda>f. \<not> closes env i f) fs"
  shows "fold (muxInput env) chunks s = fold (\<lambda>(ctrl, j, payload). muxFrame env ctrl j payload) fs s \<and>
    inputsTo i (mxOut (fold (muxInput env) chunks s)) =
      inputsTo i (mxOut s) @ map (\<lambda>(_, _, payload). payload) (filter (\<lambda>(ctrl, j, _). ctrl = ctrlTab \<and> j = i) fs)"
proof -
  have on: "(\<lambda>(ctrl, j, payload). muxFrame env ctrl j payload) = onFrame env" by (simp add: onFrame_def fun_eq_iff)
  have "fs = []" if "chunks = []"
    using assms(2) that by (cases fs) (auto simp: sprotoEncode_def split: prod.splits)
  then have "fold (muxInput env) chunks s = (fold (onFrame env) fs s)\<lparr>mxDec := []\<rparr>"
    using assms(1-3) by (intro muxInput_chunks) (simp_all add: envelopeEncode_def [abs_def])
  moreover have "(fold (onFrame env) fs s)\<lparr>mxDec := []\<rparr> = fold (onFrame env) fs s"
    using assms(3) fold_onFrame_dec(1) [of env fs s] by (cases "fold (onFrame env) fs s") simp
  moreover have "addressed i fs = map (\<lambda>(_, _, payload). payload) (filter (\<lambda>(ctrl, j, _). ctrl = ctrlTab \<and> j = i) fs)"
    by (auto simp: addressed_def comp_def case_prod_unfold)
  ultimately show ?thesis using frames_route [OF assms(4,5)] by (simp add: on)
qed

theorem mux_routes_witness:
  "let env = \<lparr>openChild = (\<lambda>_ _. Some ()), unmarshalCmd = (\<lambda>_. None), marshalEvent = (\<lambda>_. [])\<rparr>;
       s = emptyMux\<lparr>mxTabs := [(0, ()), (1, ())]\<rparr>
   in inputsTo 1 (mxOut (fold (muxInput env) [[0, 1, 0], [0, 0, 2, 0, 0, 0, 65], [66]] s)) = [[65, 66]]"
proof -
  let ?env = "\<lparr>openChild = (\<lambda>_ _. Some ()), unmarshalCmd = (\<lambda>_. None), marshalEvent = (\<lambda>_. [])\<rparr>"
  let ?s = "emptyMux\<lparr>mxTabs := [(0, ()), (1, ())]\<rparr>" and ?chunks = "[[0, 1, 0], [0, 0, 2, 0, 0, 0, 65], [66]] :: octets list"
  have "inputsTo 1 (mxOut (fold (muxInput ?env) ?chunks ?s)) = inputsTo 1 (mxOut ?s) @
      map (\<lambda>(_, _, payload). payload) (filter (\<lambda>(ctrl, j, _). ctrl = ctrlTab \<and> j = 1) ([(0, 1, [65, 66])] :: muxMsg list))"
    by (rule conjunct2 [OF mux_routes])
      (simp_all add: sprotoEncode_def putU32_def MaxMsgLen_def emptyMux_def closes_def ctrlMux_def)
  then show ?thesis by (simp add: Let_def emptyMux_def ctrlTab_def)
qed

text \<open>
  C38. A guest's frame comes back from the host's decoder as it was encoded, whatever follows it (of a
  colour, what its mode uses), and a frame that lost any bytes at its end is refused with an error.
\<close>

theorem grid_roundtrip:
  assumes "grid_frame_ok f"
  shows "decodeGrid (encodeGrid f [] @ rest) = Inr (f\<lparr>gfCells := map wireGridCell (gfCells f)\<rparr>) \<and>
    (\<forall>b missing. encodeGrid f [] = b @ missing \<and> missing \<noteq> [] \<longrightarrow> (\<exists>e. decodeGrid b = Inl e))"
  using decode_encodeGrid [OF assms] decode_prefix [OF assms] by blast

theorem grid_roundtrip_witness:
  "let c = \<lparr>gcMode = 1, gcIndex = 2, gcR = 0, gcG = 0, gcB = 0\<rparr>;
       f = \<lparr>gfCols = 1, gfRows = 1, gfCursorRow = 0, gfCursorCol = 0, gfCursorHidden = True,
            gfCells = [\<lparr>gdData = [65], gdFg = c, gdBg = c, gdAttrs = 3\<rparr>]\<rparr>
   in decodeGrid (encodeGrid f []) = Inr f \<and> (\<exists>e. decodeGrid (butlast (encodeGrid f [])) = Inl e)"
proof -
  let ?c = "\<lparr>gcMode = 1, gcIndex = 2, gcR = 0, gcG = 0, gcB = 0\<rparr>"
  let ?f = "\<lparr>gfCols = 1, gfRows = 1, gfCursorRow = 0, gfCursorCol = 0, gfCursorHidden = True,
            gfCells = [\<lparr>gdData = [65], gdFg = ?c, gdBg = ?c, gdAttrs = 3\<rparr>]\<rparr>"
  have "grid_frame_ok ?f" by (simp add: grid_frame_ok_def)
  note rt = grid_roundtrip [OF this]
  have "encodeGrid ?f [] \<noteq> []" by (simp add: encodeGrid_def encodeGridCell_def appendColor_def putU16_def)
  then have "encodeGrid ?f [] = butlast (encodeGrid ?f []) @ [last (encodeGrid ?f [])]" by simp
  with rt have "\<exists>e. decodeGrid (butlast (encodeGrid ?f [])) = Inl e" by blast
  moreover have "decodeGrid (encodeGrid ?f []) = Inr ?f"
    using conjunct1 [OF rt, of "[]"] by (simp add: wireGridCell_def wireGridColor_def gridTrueColor_def)
  ultimately show ?thesis by (simp add: Let_def)
qed

text \<open>
  C39. The registry of any style, prefix and overrides resolves a chord to the last binding given for it,
  and calls it a prefix exactly when a longer chord that starts with it is bound.
\<close>

theorem chord_lookup:
  "MatchChord (NewRegistry style pre overrides) ks =
    (map_option (\<lambda>b. (rbCommand b, rbArgs b)) (map_of (rev (boundChords style pre overrides)) ks),
     \<exists>(k, b) \<in> set (boundChords style pre overrides). strict_prefix ks k)"
  by (simp add: MatchChord_def registry_chords list_ex_iff)

text \<open>
  C40. Key input may arrive in pieces: fed one after the other they forward the same bytes and give the
  same commands as fed at once, and leave the matcher in the same state, chords under way included,
  provided the cut does not split the bytes of an always-active binding that the screen in use allows:
  no such binding starts in the first piece and ends in the second.
\<close>

theorem input_in_pieces:
  assumes "unsplit (mtReg m) alt d1 d2"
  shows "expand (fst (Feed (d1 @ d2) alt m)) =
      expand (fst (Feed d1 alt m)) @ expand (fst (Feed d2 alt (snd (Feed d1 alt m)))) \<and>
    snd (Feed (d1 @ d2) alt m) = snd (Feed d2 alt (snd (Feed d1 alt m)))"
proof -
  obtain m1 x1 where 1: "feedKeys alt d1 m ([], []) = (m1, x1)" by (cases "feedKeys alt d1 m ([], [])")
  obtain m2 d where 2: "\<And>x. fst (feedKeys alt d2 m1 x) = m2" "\<And>x. spent (snd (feedKeys alt d2 m1 x)) = spent x @ d"
    using feedKeys_spent [of alt d2 m1] by blast
  have "feedKeys alt (d1 @ d2) m ([], []) = feedKeys alt d2 m1 x1" by (simp add: feedKeys_append [OF assms] 1)
  then show ?thesis using 2 by (simp add: Feed_def 1 case_prod_unfold) (simp add: spent_def)
qed

theorem input_in_pieces_witness:
  "let m = NewMatcher (NewRegistry ''native'' '''' []); d1 = [CHR 0x02, CHR ''x'', escape]
   in expand (fst (Feed d1 False m)) @ expand (fst (Feed [CHR 0x02, CHR ''c''] False (snd (Feed d1 False m)))) =
      expand (fst (Feed (d1 @ [CHR 0x02, CHR ''c'']) False m))"
proof -
  have "unsplit (mtReg (NewMatcher (NewRegistry ''native'' '''' []))) False [CHR 0x02, CHR ''x'', escape] [CHR 0x02, CHR ''c'']"
    by code_simp
  from input_in_pieces [OF this] show ?thesis by (simp add: Let_def)
qed

end
